(* ===== verification/Prelude.thy ===== *)
theory Prelude
  imports Main "HOL-Library.Char_ord" "HOL-Library.List_Lexorder"
    "HOL-Library.Code_Target_Numeral"
begin

text \<open>
  Shared vocabulary of the development: Go's 64-bit integers as integers with the
  wrap-around written out, Go errors as values (with \<open>errors.Is\<close> and \<open>Error()\<close>),
  SQL's keyed tables as lists with an \<open>insert ... on conflict do update\<close>, and the
  collections of simplification rules the component theories extend.
\<close>

named_theorems go_defs \<open>definitions that proofs about one operation unfold\<close>
named_theorems inv_intros \<open>every operation keeps its component's invariant\<close>

section \<open>64-bit integers\<close>

type_synonym int64 = int

definition wrap64 :: "int \<Rightarrow> int64" where
  "wrap64 x = (x + 9223372036854775808) mod 18446744073709551616 - 9223372036854775808"

definition is_int64 :: "int \<Rightarrow> bool" where
  "is_int64 x \<longleftrightarrow> - 9223372036854775808 \<le> x \<and> x < 9223372036854775808"

lemma wrap64_id: "is_int64 x \<Longrightarrow> wrap64 x = x"
  by (simp add: wrap64_def is_int64_def)

lemma is_int64_wrap64 [simp]: "is_int64 (wrap64 x)"
  unfolding wrap64_def is_int64_def
  using pos_mod_bound [of 18446744073709551616 "x + 9223372036854775808"]
    pos_mod_sign [of 18446744073709551616 "x + 9223372036854775808"]
  by linarith

lemma wrap64_bounds: "- 9223372036854775808 \<le> wrap64 x" "wrap64 x < 9223372036854775808"
  using is_int64_wrap64 [of x] by (simp_all add: is_int64_def)

section \<open>Go errors\<close>

text \<open>
  The error values the source creates or tests. \<open>ErrMsg\<close> is made by \<open>errors.New\<close> or by
  \<open>fmt.Errorf\<close> without \<open>%w\<close>; \<open>ErrWrap p e s\<close> is text around one wrapped error, \<open>ErrWrap2\<close>
  text between two; \<open>ErrSentinel k\<close> is a package-level error value with its text, the
  ones of third-party packages included, which \<open>errors.Is\<close> finds under any wrapping.
\<close>

datatype sentinel =
    AnchorNotFound
  | ChatNotAllowed
  | EnvelopeUnavailable
  | ContextDone
  | NotConnected
  | MediaDownloadFailedWith404
  | MediaDownloadFailedWith410

datatype go_error =
    ErrMsg string
  | ErrWrap string go_error string
  | ErrWrap2 go_error string go_error
  | ErrSentinel sentinel string

fun errors_Is :: "go_error \<Rightarrow> sentinel \<Rightarrow> bool" where
  "errors_Is (ErrMsg m) k = False"
| "errors_Is (ErrWrap p e s) k = errors_Is e k"
| "errors_Is (ErrWrap2 a m b) k = (errors_Is a k \<or> errors_Is b k)"
| "errors_Is (ErrSentinel j m) k = (j = k)"

fun Error :: "go_error \<Rightarrow> string" where
  "Error (ErrMsg m) = m"
| "Error (ErrWrap p e s) = p @ Error e @ s"
| "Error (ErrWrap2 a m b) = Error a @ m @ Error b"
| "Error (ErrSentinel k m) = m"

section \<open>Keyed tables\<close>

text \<open>
  An SQL table with a primary key is the list of its rows. \<open>upsert key merge x\<close> is
  \<open>insert ... values (x) on conflict(key) do update set ...\<close>: \<open>merge x old\<close> is the
  row that the update leaves; without a conflict the row is appended.
\<close>

fun upsert :: "('r \<Rightarrow> 'k) \<Rightarrow> ('r \<Rightarrow> 'r \<Rightarrow> 'r) \<Rightarrow> 'r \<Rightarrow> 'r list \<Rightarrow> 'r list" where
  "upsert key merge x [] = [x]"
| "upsert key merge x (y # ys) =
     (if key y = key x then merge x y # ys else y # upsert key merge x ys)"

definition update_where :: "('r \<Rightarrow> bool) \<Rightarrow> ('r \<Rightarrow> 'r) \<Rightarrow> 'r list \<Rightarrow> 'r list" where
  "update_where p f = map (\<lambda>y. if p y then f y else y)"

definition row_of :: "('r \<Rightarrow> 'k) \<Rightarrow> 'k \<Rightarrow> 'r list \<Rightarrow> 'r option" where
  "row_of key k rows = find (\<lambda>y. key y = k) rows"

definition unique_key :: "('r \<Rightarrow> 'k) \<Rightarrow> 'r list \<Rightarrow> bool" where
  "unique_key key rows \<longleftrightarrow> distinct (map key rows)"

lemma row_of_Nil [simp]: "row_of key k [] = None"
  by (simp add: row_of_def)

lemma row_of_Cons [simp]:
  "row_of key k (y # ys) = (if key y = k then Some y else row_of key k ys)"
  by (simp add: row_of_def)

lemma unique_key_Nil [simp]: "unique_key key []"
  by (simp add: unique_key_def)

lemma unique_key_Cons [simp]:
  "unique_key key (y # ys) \<longleftrightarrow> key y \<notin> key ` set ys \<and> unique_key key ys"
  by (simp add: unique_key_def)

lemma row_of_None: "row_of key k rows = None \<longleftrightarrow> k \<notin> key ` set rows"
  by (induction rows) auto

lemma row_of_SomeD: "row_of key k rows = Some r \<Longrightarrow> r \<in> set rows \<and> key r = k"
  by (induction rows) (auto split: if_splits)

lemma row_of_Some_in: "unique_key key rows \<Longrightarrow> r \<in> set rows \<Longrightarrow> row_of key (key r) rows = Some r"
  by (induction rows) (auto simp: rev_image_eqI)

lemma unique_key_inj:
  "unique_key key rows \<Longrightarrow> r \<in> set rows \<Longrightarrow> s \<in> set rows \<Longrightarrow> key r = key s \<Longrightarrow> r = s"
  by (metis option.inject row_of_Some_in)

subsection \<open>Updates in place\<close>

lemma set_update_where: "set (update_where p f rows) = (\<lambda>y. if p y then f y else y) ` set rows"
  by (simp add: update_where_def)

lemma update_where_id: "(\<And>y. y \<in> set rows \<Longrightarrow> \<not> p y) \<Longrightarrow> update_where p f rows = rows"
  unfolding update_where_def by (rule map_idI) auto

lemma keys_update_where:
  "(\<And>y. key (f y) = key y) \<Longrightarrow> map key (update_where p f rows) = map key rows"
  by (induction rows) (auto simp: update_where_def)

lemma unique_key_update_where:
  "(\<And>y. key (f y) = key y) \<Longrightarrow> unique_key key (update_where p f rows) = unique_key key rows"
  by (simp add: unique_key_def keys_update_where)

lemma length_update_where [simp]: "length (update_where p f rows) = length rows"
  by (simp add: update_where_def)

lemma row_of_update_where:
  assumes "\<And>y. key (f y) = key y"
  shows "row_of key k (update_where p f rows) =
    map_option (\<lambda>y. if p y then f y else y) (row_of key k rows)"
  using assms by (induction rows) (auto simp: update_where_def)

text \<open>\<open>update ... where key = k\<close> with the key column untouched.\<close>

lemma row_of_update_key:
  assumes "\<And>y. key (f y) = key y"
  shows "row_of key j (update_where (\<lambda>y. key y = k) f rows) =
    (if j = k then map_option f (row_of key j rows) else row_of key j rows)"
  using assms by (induction rows) (auto simp: update_where_def)

section \<open>The contract of an upsert\<close>

text \<open>
  \<open>keyed_upsert\<close> is what a writer relies on when it upserts: the update clause never
  changes the primary key. Its lemmas are the laws of a keyed store: what a lookup returns
  after the upsert, that the primary key stays unique, and that no row is lost.
\<close>

locale keyed_upsert =
  fixes key :: "'r \<Rightarrow> 'k" and merge :: "'r \<Rightarrow> 'r \<Rightarrow> 'r"
  assumes merge_key: "key (merge x y) = key y"
begin

lemma keys_upsert: "key ` set (upsert key merge x rows) = insert (key x) (key ` set rows)"
  by (induction rows) (auto simp: merge_key)

lemma unique_upsert: "unique_key key rows \<Longrightarrow> unique_key key (upsert key merge x rows)"
  by (induction rows) (auto simp: keys_upsert merge_key)

lemma lookup_upsert:
  "row_of key k (upsert key merge x rows) =
    (if k = key x
     then Some (case row_of key k rows of None \<Rightarrow> x | Some y \<Rightarrow> merge x y)
     else row_of key k rows)"
  by (induction rows) (auto simp: merge_key)

lemma length_upsert:
  "length (upsert key merge x rows) =
    length rows + (if row_of key (key x) rows = None then 1 else 0)"
  by (induction rows) auto

lemma upsert_fresh: "row_of key (key x) rows = None \<Longrightarrow> upsert key merge x rows = rows @ [x]"
  by (induction rows) (auto split: if_splits)

lemma upsert_existing:
  "unique_key key rows \<Longrightarrow> row_of key (key x) rows \<noteq> None \<Longrightarrow>
    upsert key merge x rows = update_where (\<lambda>r. key r = key x) (merge x) rows"
proof (induction rows)
  case (Cons y ys)
  show ?case
  proof (cases "key y = key x")
    case True
    then have "update_where (\<lambda>r. key r = key x) (merge x) ys = ys"
      using Cons.prems(1) by (intro update_where_id) (metis image_eqI unique_key_Cons)
    then show ?thesis using True by (simp add: update_where_def)
  next
    case False
    then show ?thesis using Cons by (simp add: update_where_def)
  qed
qed simp

lemma set_upsertD:
  "r \<in> set (upsert key merge x rows) \<Longrightarrow>
    row_of key (key x) rows = None \<and> r = x \<or> r \<in> set rows \<or> (\<exists>y \<in> set rows. key y = key x \<and> r = merge x y)"
  by (induction rows) (auto split: if_splits)

lemma upsert_keeps: "r \<in> set rows \<Longrightarrow> key r \<noteq> key x \<Longrightarrow> r \<in> set (upsert key merge x rows)"
  by (induction rows) (auto split: if_splits)

end

end
