(* ===== verification/Go_Strings.thy ===== *)
theory Go_Strings
  imports Prelude
begin

text \<open>
  The part of Go's \<open>strings\<close>, \<open>strconv\<close> and \<open>unicode/utf8\<close> packages that the
  daemon calls. A Go string is a sequence of bytes, which is what HOL's \<open>string\<close> (a list
  of 8-bit \<open>char\<close>s) is, so lengths count bytes and the order is the byte order of
  Go's \<open><\<close> and of SQLite's BINARY collation. \<open>strings.ToLower\<close> on text outside ASCII
  depends on the Unicode tables; it is the parameter \<open>ulower\<close> of the definitions that need it.
\<close>

definition byte :: "char \<Rightarrow> nat" where
  "byte c = of_char c"

section \<open>Simple string functions\<close>

definition strings_HasPrefix :: "string \<Rightarrow> string \<Rightarrow> bool" where
  "strings_HasPrefix s p \<longleftrightarrow> take (length p) s = p"

fun strings_Contains :: "string \<Rightarrow> string \<Rightarrow> bool" where
  "strings_Contains [] sub = (sub = [])"
| "strings_Contains (c # s) sub = (strings_HasPrefix (c # s) sub \<or> strings_Contains s sub)"

fun strings_Split :: "char \<Rightarrow> string \<Rightarrow> string list" where
  "strings_Split sep [] = [[]]"
| "strings_Split sep (c # s) =
     (if c = sep then [] # strings_Split sep s
      else case strings_Split sep s of [] \<Rightarrow> [[c]] | p # ps \<Rightarrow> (c # p) # ps)"

fun strings_Join :: "string list \<Rightarrow> string \<Rightarrow> string" where
  "strings_Join [] sep = []"
| "strings_Join [s] sep = s"
| "strings_Join (s # t # ss) sep = s @ sep @ strings_Join (t # ss) sep"

definition replace_char :: "char \<Rightarrow> string \<Rightarrow> string \<Rightarrow> string" where
  "replace_char c r s = concat (map (\<lambda>x. if x = c then r else [x]) s)"

text \<open>\<open>strings.Trim(s, cutset)\<close> for an ASCII cutset.\<close>

definition strings_Trim :: "string \<Rightarrow> string \<Rightarrow> string" where
  "strings_Trim s cs =
     rev (dropWhile (\<lambda>c. c \<in> set cs) (rev (dropWhile (\<lambda>c. c \<in> set cs) s)))"

definition ascii_lower :: "char \<Rightarrow> char" where
  "ascii_lower c = (if 65 \<le> byte c \<and> byte c \<le> 90 then char_of (byte c + 32) else c)"

definition is_ascii :: "string \<Rightarrow> bool" where
  "is_ascii s \<longleftrightarrow> list_all (\<lambda>c. byte c < 128) s"

definition strings_ToLower :: "(string \<Rightarrow> string) \<Rightarrow> string \<Rightarrow> string" where
  "strings_ToLower ulower s = (if is_ascii s then map ascii_lower s else ulower s)"

lemma strings_Split_not_Nil [simp]: "strings_Split sep s \<noteq> []"
  by (cases s) (auto split: list.splits)

lemma strings_Split_parts: "p \<in> set (strings_Split sep s) \<Longrightarrow> sep \<notin> set p"
  by (induction s arbitrary: p) (auto split: if_splits list.splits)

lemma Join_Split: "strings_Join (strings_Split sep s) [sep] = s"
proof (induction s)
  case (Cons c s)
  then show ?case
    by (cases "strings_Split sep s"; cases "tl (strings_Split sep s)") auto
qed simp

lemma set_replace_char: "set (replace_char c r s) \<subseteq> (set s - {c}) \<union> set r"
  by (auto simp: replace_char_def split: if_splits)

lemma replace_char_free: "c \<notin> set r \<Longrightarrow> c \<notin> set (replace_char c r s)"
  using set_replace_char by fastforce

lemma replace_char_other: "d \<notin> set s \<Longrightarrow> d \<notin> set r \<Longrightarrow> d \<notin> set (replace_char c r s)"
  using set_replace_char by fastforce

section \<open>UTF-8\<close>

text \<open>
  \<open>rune_size s\<close> is the size of the rune that \<open>utf8.DecodeRuneInString\<close> reads at the
  start of \<open>s\<close>, with Go's table of accepted second bytes; 0 stands for an invalid
  encoding, where Go returns \<open>RuneError\<close> and consumes one byte.
\<close>

definition is_cont :: "char \<Rightarrow> bool" where
  "is_cont c \<longleftrightarrow> 128 \<le> byte c \<and> byte c \<le> 191"

definition second_ok :: "char \<Rightarrow> char \<Rightarrow> bool" where
  "second_ok a b \<longleftrightarrow>
     (if byte a = 224 then 160 \<le> byte b \<and> byte b \<le> 191
      else if byte a = 237 then 128 \<le> byte b \<and> byte b \<le> 159
      else if byte a = 240 then 144 \<le> byte b \<and> byte b \<le> 191
      else if byte a = 244 then 128 \<le> byte b \<and> byte b \<le> 143
      else is_cont b)"

fun rune_size :: "string \<Rightarrow> nat" where
  "rune_size [] = 0"
| "rune_size (a # s) =
     (if byte a < 128 then 1
      else if 194 \<le> byte a \<and> byte a \<le> 223 then
        (case s of b # _ \<Rightarrow> (if is_cont b then 2 else 0) | _ \<Rightarrow> 0)
      else if 224 \<le> byte a \<and> byte a \<le> 239 then
        (case s of b # c # _ \<Rightarrow> (if second_ok a b \<and> is_cont c then 3 else 0) | _ \<Rightarrow> 0)
      else if 240 \<le> byte a \<and> byte a \<le> 244 then
        (case s of b # c # d # _ \<Rightarrow> (if second_ok a b \<and> is_cont c \<and> is_cont d then 4 else 0)
         | _ \<Rightarrow> 0)
      else 0)"

definition rune_error :: string where
  "rune_error = [CHR 0xEF, CHR 0xBF, CHR 0xBD]"

lemma rune_size_le: "rune_size s \<le> length s"
  by (cases s rule: rune_size.cases) (auto split: list.splits)

text \<open>\<open>runes s\<close> is \<open>[]rune(s)\<close>, each rune given by the bytes that encode it.\<close>

function runes :: "string \<Rightarrow> string list" where
  "runes s =
     (if s = [] then []
      else if rune_size s = 0 then rune_error # runes (tl s)
      else take (rune_size s) s # runes (drop (rune_size s) s))"
  by pat_completeness auto
termination
  by (relation "measure length") (auto simp: neq_Nil_conv)

declare runes.simps [simp del]

lemma runes_Nil [simp]: "runes [] = []"
  by (simp add: runes.simps)

lemma runes_Cons:
  "runes (c # s) =
     (if rune_size (c # s) = 0 then rune_error # runes s
      else take (rune_size (c # s)) (c # s) # runes (drop (rune_size (c # s)) (c # s)))"
  by (subst runes.simps) simp

definition utf8_RuneCountInString :: "string \<Rightarrow> nat" where
  "utf8_RuneCountInString s = length (runes s)"

text \<open>A rune that was decoded decodes to itself, whatever follows it.\<close>

lemma rune_size_take:
  assumes "rune_size s = Suc n"
  shows "rune_size (take (Suc n) s @ t) = Suc n"
proof (cases s)
  case (Cons a r)
  then show ?thesis
    using assms by (auto split: if_splits list.splits)
qed (use assms in simp)

lemma runes_valid_step:
  assumes "rune_size s = Suc n"
  shows "runes (take (Suc n) s @ t) = take (Suc n) s # runes t"
proof -
  have len: "length (take (Suc n) s) = Suc n"
    using rune_size_le [of s] assms by simp
  have ne: "take (Suc n) s @ t \<noteq> []"
    using len by (metis append_is_Nil_conv list.size(3) nat.distinct(1))
  show ?thesis
    using ne len by (subst runes.simps) (simp add: rune_size_take [OF assms])
qed

lemma runes_error_step: "runes (rune_error @ t) = rune_error # runes t"
  by (subst runes.simps) (simp add: rune_error_def byte_def second_ok_def is_cont_def)

lemma runes_encode: "runes (concat (take n (runes s))) = take n (runes s)"
proof (induction s arbitrary: n rule: runes.induct)
  case (1 s)
  show ?case
  proof (cases n)
    case (Suc m)
    consider "s = []" | "s \<noteq> []" "rune_size s = 0" | k where "s \<noteq> []" "rune_size s = Suc k"
      by (cases "rune_size s") auto
    then show ?thesis
    proof cases
      case 2
      then have "runes s = rune_error # runes (tl s)" by (subst runes.simps) simp
      then show ?thesis using "1.IH"(1) [OF 2, of m] Suc by (simp add: runes_error_step)
    next
      case (3 k)
      then have eq: "runes s = take (Suc k) s # runes (drop (Suc k) s)"
        by (subst runes.simps) simp
      have "rune_size s \<noteq> 0" using 3 by simp
      then have "runes (concat (take m (runes (drop (Suc k) s)))) = take m (runes (drop (Suc k) s))"
        using "1.IH"(2) [of m] 3 by simp
      then show ?thesis
        using runes_valid_step [OF 3(2), of "concat (take m (runes (drop (Suc k) s)))"]
        by (simp only: eq Suc take_Suc_Cons concat.simps)
    qed simp
  qed simp
qed

section \<open>strings.TrimSpace\<close>

text \<open>
  \<open>space_size s\<close> is the number of bytes of the white-space rune (\<open>unicode.IsSpace\<close>) at
  the start of \<open>s\<close>, 0 if there is none: the ASCII spaces, U+0085, U+00A0, U+1680,
  U+2000 to U+200A, U+2028, U+2029, U+202F, U+205F and U+3000. \<open>space_size_rev\<close> reads the
  same runes from the end of a string that is given in reverse.
\<close>

definition space1 :: "char \<Rightarrow> bool" where
  "space1 a \<longleftrightarrow> byte a = 32 \<or> (9 \<le> byte a \<and> byte a \<le> 13)"

definition space2 :: "char \<Rightarrow> char \<Rightarrow> bool" where
  "space2 a b \<longleftrightarrow> byte a = 194 \<and> (byte b = 133 \<or> byte b = 160)"

definition space3 :: "char \<Rightarrow> char \<Rightarrow> char \<Rightarrow> bool" where
  "space3 a b c \<longleftrightarrow>
     (byte a = 225 \<and> byte b = 154 \<and> byte c = 128) \<or>
     (byte a = 226 \<and> byte b = 128 \<and>
        ((128 \<le> byte c \<and> byte c \<le> 138) \<or> byte c = 168 \<or> byte c = 169 \<or> byte c = 175)) \<or>
     (byte a = 226 \<and> byte b = 129 \<and> byte c = 159) \<or>
     (byte a = 227 \<and> byte b = 128 \<and> byte c = 128)"

fun space_size :: "string \<Rightarrow> nat" where
  "space_size [] = 0"
| "space_size [a] = (if space1 a then 1 else 0)"
| "space_size [a, b] = (if space1 a then 1 else if space2 a b then 2 else 0)"
| "space_size (a # b # c # s) =
     (if space1 a then 1 else if space2 a b then 2 else if space3 a b c then 3 else 0)"

fun space_size_rev :: "string \<Rightarrow> nat" where
  "space_size_rev [] = 0"
| "space_size_rev [a] = (if space1 a then 1 else 0)"
| "space_size_rev [b, a] = (if space1 b then 1 else if space2 a b then 2 else 0)"
| "space_size_rev (c # b # a # s) =
     (if space1 c then 1 else if space2 b c then 2 else if space3 a b c then 3 else 0)"

function trim_with :: "(string \<Rightarrow> nat) \<Rightarrow> string \<Rightarrow> string" where
  "trim_with f s = (if s = [] \<or> f s = 0 then s else trim_with f (drop (f s) s))"
  by pat_completeness auto
termination
  by (relation "measure (\<lambda>(f, s). length s)") auto

declare trim_with.simps [simp del]

definition strings_TrimSpace :: "string \<Rightarrow> string" where
  "strings_TrimSpace s =
     rev (trim_with space_size_rev (rev (trim_with space_size s)))"

lemma trim_with_stop: "trim_with f s = [] \<or> f (trim_with f s) = 0"
proof (induction f s rule: trim_with.induct)
  case (1 f s)
  then show ?case by (cases "s = [] \<or> f s = 0") (auto simp: trim_with.simps [of f s])
qed

lemma trim_with_id: "s = [] \<or> f s = 0 \<Longrightarrow> trim_with f s = s"
  by (simp add: trim_with.simps)

lemma trim_with_suffix: "\<exists>p. s = p @ trim_with f s"
proof (induction f s rule: trim_with.induct)
  case (1 f s)
  show ?case
  proof (cases "s = [] \<or> f s = 0")
    case False
    from "1.IH" [OF False] obtain p where "drop (f s) s = p @ trim_with f (drop (f s) s)" ..
    then have "s = (take (f s) s @ p) @ trim_with f (drop (f s) s)"
      by (metis append.assoc append_take_drop_id)
    moreover have "trim_with f s = trim_with f (drop (f s) s)"
      using False by (subst trim_with.simps) simp
    ultimately show ?thesis by metis
  qed (auto simp: trim_with_id)
qed

lemma set_trim_with: "set (trim_with f s) \<subseteq> set s"
  using trim_with_suffix [of s f] by (metis set_append sup_ge2)

lemma set_TrimSpace: "set (strings_TrimSpace s) \<subseteq> set s"
  unfolding strings_TrimSpace_def using set_trim_with by (metis set_rev subset_trans)

text \<open>A prefix of a string without leading white space has none either.\<close>

lemma space_size_prefix: "space_size (s @ t) = 0 \<Longrightarrow> space_size s = 0"
  by (cases s rule: space_size.cases; cases t rule: space_size.cases) (auto split: if_splits)

lemma TrimSpace_no_leading: "space_size (strings_TrimSpace s) = 0"
proof -
  let ?t = "trim_with space_size s"
  obtain p where p: "rev ?t = p @ trim_with space_size_rev (rev ?t)"
    using trim_with_suffix by blast
  have "?t = strings_TrimSpace s @ rev p"
    unfolding strings_TrimSpace_def using arg_cong [OF p, of rev] by simp
  moreover have "space_size ?t = 0"
    using trim_with_stop [of space_size s] by auto
  ultimately show ?thesis using space_size_prefix by metis
qed

lemma TrimSpace_no_trailing: "space_size_rev (rev (strings_TrimSpace s)) = 0"
  using trim_with_stop [of space_size_rev "rev (trim_with space_size s)"]
  by (auto simp: strings_TrimSpace_def)

lemma TrimSpace_idem [simp]: "strings_TrimSpace (strings_TrimSpace s) = strings_TrimSpace s"
  using TrimSpace_no_leading [of s] TrimSpace_no_trailing [of s]
  by (subst strings_TrimSpace_def) (simp add: trim_with_id)

lemma TrimSpace_Nil [simp]: "strings_TrimSpace [] = []"
  by (simp add: strings_TrimSpace_def trim_with_id)

lemma TrimSpace_id:
  "space_size s = 0 \<Longrightarrow> space_size_rev (rev s) = 0 \<Longrightarrow> strings_TrimSpace s = s"
  by (simp add: strings_TrimSpace_def trim_with_id)

section \<open>strconv\<close>

definition digit_char :: "nat \<Rightarrow> char" where
  "digit_char d = char_of (48 + d)"

definition is_digit :: "char \<Rightarrow> bool" where
  "is_digit c \<longleftrightarrow> 48 \<le> byte c \<and> byte c \<le> 57"

fun show_nat :: "nat \<Rightarrow> string" where
  "show_nat n = (if n < 10 then [digit_char n] else show_nat (n div 10) @ [digit_char (n mod 10)])"

declare show_nat.simps [simp del]

definition strconv_FormatInt :: "int \<Rightarrow> string" where
  "strconv_FormatInt n = (if n < 0 then CHR ''-'' # show_nat (nat (- n)) else show_nat (nat n))"

fun digits_value :: "nat \<Rightarrow> string \<Rightarrow> nat option" where
  "digits_value acc [] = Some acc"
| "digits_value acc (c # s) =
     (if is_digit c then digits_value (10 * acc + (byte c - 48)) s else None)"

text \<open>
  \<open>strconv.ParseInt(s, 10, 64)\<close>: an optional sign, at least one digit, digits only, and a
  value in range; every error (syntax or range) is \<open>None\<close>, as no caller tells them apart.
\<close>

definition parse_digits :: "string \<Rightarrow> nat option" where
  "parse_digits s = (if s = [] then None else digits_value 0 s)"

definition strconv_ParseInt :: "string \<Rightarrow> int64 option" where
  "strconv_ParseInt s =
     (case s of
        [] \<Rightarrow> None
      | c # r \<Rightarrow>
          let neg = (c = CHR ''-'');
              body = (if c = CHR ''-'' \<or> c = CHR ''+'' then r else s)
          in case parse_digits body of
               None \<Rightarrow> None
             | Some v \<Rightarrow>
                 if neg then (if v > 9223372036854775808 then None else Some (- int v))
                 else if v \<ge> 9223372036854775808 then None else Some (int v))"

lemma byte_char_of: "n < 256 \<Longrightarrow> byte (char_of n) = n"
  by (simp add: byte_def)

lemma byte_digit_char [simp]: "d < 10 \<Longrightarrow> byte (digit_char d) = 48 + d"
  by (simp add: digit_char_def byte_char_of)

lemma is_digit_digit_char [simp]: "d < 10 \<Longrightarrow> is_digit (digit_char d)"
  by (simp add: is_digit_def)

lemma digits_value_append:
  "digits_value acc (s @ t) = (case digits_value acc s of None \<Rightarrow> None | Some v \<Rightarrow> digits_value v t)"
  by (induction s arbitrary: acc) auto

lemma show_nat_digits: "list_all is_digit (show_nat n)"
  by (induction n rule: show_nat.induct) (subst show_nat.simps, auto)

lemma show_nat_not_Nil [simp]: "show_nat n \<noteq> []"
  by (subst show_nat.simps) simp

lemma digits_value_show_nat: "digits_value 0 (show_nat n) = Some n"
proof (induction n rule: show_nat.induct)
  case (1 n)
  then show ?case
    by (subst show_nat.simps) (auto simp: digits_value_append)
qed

lemma show_nat_inj: "show_nat m = show_nat n \<Longrightarrow> m = n"
  using digits_value_show_nat by (metis option.inject)

lemma parse_digits_show_nat: "parse_digits (show_nat n) = Some n"
  by (simp add: parse_digits_def digits_value_show_nat)

lemma hd_show_nat: "is_digit (hd (show_nat n))"
  using show_nat_digits [of n] by (cases "show_nat n") auto

lemma ParseInt_FormatInt:
  assumes "is_int64 n"
  shows "strconv_ParseInt (strconv_FormatInt n) = Some n"
proof (cases "n < 0")
  case True
  then show ?thesis
    using assms by (simp add: strconv_FormatInt_def strconv_ParseInt_def parse_digits_show_nat
        is_int64_def)
next
  case False
  obtain c r where eq: "show_nat (nat n) = c # r"
    by (cases "show_nat (nat n)") auto
  have "is_digit c" using hd_show_nat [of "nat n"] eq by simp
  then have "c \<noteq> CHR ''-'' \<and> c \<noteq> CHR ''+''"
    by (auto simp: is_digit_def byte_def)
  then show ?thesis
    using False assms parse_digits_show_nat [of "nat n"] eq
    by (simp add: strconv_FormatInt_def strconv_ParseInt_def is_int64_def)
qed

lemma ParseInt_range: "strconv_ParseInt s = Some n \<Longrightarrow> is_int64 n"
  by (auto simp: strconv_ParseInt_def is_int64_def Let_def split: list.splits option.splits if_splits)

lemma set_FormatInt: "c \<in> set (strconv_FormatInt n) \<Longrightarrow> is_digit c \<or> c = CHR ''-''"
  using show_nat_digits by (auto simp: strconv_FormatInt_def list_all_iff split: if_splits)

lemma FormatInt_inj: "strconv_FormatInt m = strconv_FormatInt n \<Longrightarrow> m = n"
proof -
  have "\<not> is_digit CHR ''-''" by (simp add: is_digit_def byte_def)
  moreover assume "strconv_FormatInt m = strconv_FormatInt n"
  ultimately show "m = n"
    using hd_show_nat [of "nat m"] hd_show_nat [of "nat n"]
    by (auto simp: strconv_FormatInt_def split: if_splits dest!: show_nat_inj)
      (metis list.sel(1))+
qed

text \<open>White space around a formatted integer is what \<open>TrimSpace\<close> removes.\<close>

lemma TrimSpace_FormatInt [simp]: "strings_TrimSpace (strconv_FormatInt n) = strconv_FormatInt n"
proof (rule TrimSpace_id)
  have no: "space_size s = 0 \<and> space_size_rev s = 0"
    if "\<forall>c \<in> set s. is_digit c \<or> c = CHR ''-''" for s
  proof -
    have "\<And>c. is_digit c \<or> c = CHR ''-'' \<Longrightarrow> byte c < 60 \<and> \<not> space1 c"
      by (auto simp: is_digit_def space1_def byte_def)
    then have *: "\<forall>c \<in> set s. byte c < 60 \<and> \<not> space1 c" using that by blast
    show ?thesis
      using * by (cases s rule: space_size.cases) (auto simp: space2_def space3_def)
  qed
  show "space_size (strconv_FormatInt n) = 0"
    using no set_FormatInt by blast
  show "space_size_rev (rev (strconv_FormatInt n)) = 0"
    using no [of "rev (strconv_FormatInt n)"] set_FormatInt by (metis set_rev)
qed

end
