(* ===== verification/Go_Json.thy ===== *)
theory Go_Json
  imports Go_Strings
begin

text \<open>
  \<open>encoding/json\<close> on values: a decoded JSON value, and the rules by which \<open>Unmarshal\<close> stores
  it into Go values (type errors, \<open>null\<close>, struct members matched by name without regard to
  case). The text of a value is in \<open>Go_Json_Text\<close>. An array that is decoded a second time,
  for a member that occurs twice in one object, starts from scratch; Go reuses the elements
  of the earlier array for \<open>null\<close>s inside the later one, which is not modelled.
\<close>

datatype json =
    JNull
  | JBool bool
  | JNum string
  | JStr string
  | JArr "json list"
  | JObj "(string \<times> json) list"

text \<open>\<open>foldName\<close>: ASCII letters, U+212A (Kelvin) and U+017F (long s) fold to lower case.\<close>

fun fold_key :: "string \<Rightarrow> string" where
  "fold_key [] = []"
| "fold_key (a # s) =
     (if byte a = 226 \<and> take 2 s = [CHR 0x84, CHR 0xAA] then CHR ''k'' # fold_key (drop 2 s)
      else if byte a = 197 \<and> take 1 s = [CHR 0xBF] then CHR ''s'' # fold_key (drop 1 s)
      else ascii_lower a # fold_key s)"

fun fold_opt :: "('a \<Rightarrow> 'b \<Rightarrow> 'a option) \<Rightarrow> 'a \<Rightarrow> 'b list \<Rightarrow> 'a option" where
  "fold_opt f a [] = Some a"
| "fold_opt f a (x # xs) = (case f a x of None \<Rightarrow> None | Some b \<Rightarrow> fold_opt f b xs)"

fun map_opt :: "('a \<Rightarrow> 'b option) \<Rightarrow> 'a list \<Rightarrow> 'b list option" where
  "map_opt f [] = Some []"
| "map_opt f (x # xs) =
     (case f x of None \<Rightarrow> None
      | Some y \<Rightarrow> (case map_opt f xs of None \<Rightarrow> None | Some ys \<Rightarrow> Some (y # ys)))"

lemma map_opt_Cons_Some:
  "map_opt f (x # xs) = Some ys \<longleftrightarrow> (\<exists>y zs. ys = y # zs \<and> f x = Some y \<and> map_opt f xs = Some zs)"
  by (auto split: option.splits)

lemma map_opt_Some_iff: "map_opt f xs = Some ys \<longleftrightarrow> list_all2 (\<lambda>x y. f x = Some y) xs ys"
  by (induction xs arbitrary: ys)
    (auto simp: map_opt_Cons_Some list_all2_Cons1 simp del: map_opt.simps(2))

section \<open>Decoding into Go types\<close>

text \<open>A \<open>string\<close> or \<open>bool\<close> keeps its value on \<open>null\<close>; a pointer becomes nil.\<close>

fun dec_string :: "string \<Rightarrow> json \<Rightarrow> string option" where
  "dec_string old (JStr s) = Some s"
| "dec_string old JNull = Some old"
| "dec_string old _ = None"

fun dec_bool :: "bool \<Rightarrow> json \<Rightarrow> bool option" where
  "dec_bool old (JBool b) = Some b"
| "dec_bool old JNull = Some old"
| "dec_bool old _ = None"

fun dec_bool_ptr :: "json \<Rightarrow> bool option option" where
  "dec_bool_ptr (JBool b) = Some (Some b)"
| "dec_bool_ptr JNull = Some None"
| "dec_bool_ptr _ = None"

fun dec_int_ptr :: "json \<Rightarrow> int64 option option" where
  "dec_int_ptr (JNum n) = map_option Some (strconv_ParseInt n)"
| "dec_int_ptr JNull = Some None"
| "dec_int_ptr _ = None"

fun dec_strings_ptr :: "json \<Rightarrow> string list option option" where
  "dec_strings_ptr (JArr xs) = map_option Some (map_opt (dec_string []) xs)"
| "dec_strings_ptr JNull = Some None"
| "dec_strings_ptr _ = None"

text \<open>A \<open>map[string]json.RawMessage\<close>: the last member of a name wins.\<close>

fun dec_raw_map :: "json \<Rightarrow> (string \<times> json) list option" where
  "dec_raw_map (JObj kvs) = Some (rev kvs)"
| "dec_raw_map JNull = Some []"
| "dec_raw_map _ = None"

end
