(* ===== verification/Go_Bufio.thy ===== *)
theory Go_Bufio
  imports Go_Strings
begin

text \<open>
  \<open>bufio.Scanner\<close> with its default split function \<open>ScanLines\<close>: the lines of what a reader
  delivers, each without its newline and one carriage return before it. A buffer of \<open>cap\<close>
  bytes without a newline ends the scan with \<open>ErrTooLong\<close>, which is the flag.
\<close>

definition newline :: char where
  "newline = CHR 0x0A"

definition drop_cr :: "string \<Rightarrow> string" where
  "drop_cr l = (if l \<noteq> [] \<and> last l = CHR 0x0D then butlast l else l)"

function bufio_lines :: "nat \<Rightarrow> string \<Rightarrow> string list \<times> bool" where
  "bufio_lines cap s =
     (if s = [] then ([], False)
      else let l = takeWhile (\<lambda>c. c \<noteq> newline) s
           in if length l \<ge> cap then ([], True)
              else apfst (Cons (drop_cr l)) (bufio_lines cap (drop (Suc (length l)) s)))"
  by pat_completeness auto
termination
  by (relation "measure (\<lambda>(cap, s). length s)") auto

declare bufio_lines.simps [simp del]

definition ErrTooLong :: go_error where
  "ErrTooLong = ErrMsg ''bufio.Scanner: token too long''"

text \<open>Lines that were written one after the other are read one after the other.\<close>

lemma bufio_lines_concat:
  assumes "\<forall>l\<in>set ls. newline \<notin> set l \<and> length l < cap \<and> drop_cr l = l"
  shows "bufio_lines cap (concat (map (\<lambda>l. l @ [newline]) ls)) = (ls, False)"
  using assms
proof (induction ls)
  case (Cons l ls)
  have "takeWhile (\<lambda>c. c \<noteq> newline) (l @ newline # t) = l" for t
    using Cons.prems by (auto simp: takeWhile_append)
  then show ?case
    using Cons by (subst bufio_lines.simps) (simp add: Let_def)
qed (simp add: bufio_lines.simps)

end
