(* ===== verification/Go_Json_Text.thy ===== *)
theory Go_Json_Text
  imports Go_Json Go_Bufio
begin

text \<open>
  The text layer of \<open>encoding/json\<close>: what \<open>Marshal\<close> writes (with the HTML escaping that is
  on by default) and the state machine that \<open>Unmarshal\<close> and \<open>Decoder\<close> run over their input,
  with Go's limit of 10000 nested values. The round trip at the end says that reading what
  was written gives the value back with its strings in valid UTF-8: Go replaces every byte
  that is not part of an encoded rune by U+FFFD.
\<close>

section \<open>Writing\<close>

definition hex_digit :: "nat \<Rightarrow> char" where
  "hex_digit d = char_of (if d < 10 then 48 + d else 87 + d)"

abbreviation bslash :: char where "bslash \<equiv> CHR 0x5C"
abbreviation dquote :: char where "dquote \<equiv> CHR 0x22"

definition json_byte :: "char \<Rightarrow> string" where
  "json_byte c =
     (if c = dquote \<or> c = bslash then [bslash, c]
      else if byte c = 8 then [bslash, CHR ''b'']
      else if byte c = 12 then [bslash, CHR ''f'']
      else if byte c = 10 then [bslash, CHR ''n'']
      else if byte c = 13 then [bslash, CHR ''r'']
      else if byte c = 9 then [bslash, CHR ''t'']
      else if byte c < 32 \<or> c = CHR ''<'' \<or> c = CHR ''>'' \<or> c = CHR ''&''
      then bslash # ''u00'' @ [hex_digit (byte c div 16), hex_digit (byte c mod 16)]
      else [c])"

text \<open>U+2028 and U+2029 are escaped, the other runes outside ASCII are copied.\<close>

definition json_rune :: "string \<Rightarrow> string" where
  "json_rune r =
     (if r = [CHR 0xE2, CHR 0x80, CHR 0xA8] then bslash # ''u2028''
      else if r = [CHR 0xE2, CHR 0x80, CHR 0xA9] then bslash # ''u2029''
      else if length r = 1 then json_byte (hd r) else r)"

function json_escape :: "string \<Rightarrow> string" where
  "json_escape s =
     (if s = [] then []
      else if rune_size s = 0 then bslash # ''ufffd'' @ json_escape (tl s)
      else json_rune (take (rune_size s) s) @ json_escape (drop (rune_size s) s))"
  by pat_completeness auto
termination
  by (relation "measure length") (auto simp: neq_Nil_conv)

declare json_escape.simps [simp del]

definition json_quote :: "string \<Rightarrow> string" where
  "json_quote s = dquote # json_escape s @ [dquote]"

fun json_Marshal :: "json \<Rightarrow> string" where
  "json_Marshal JNull = ''null''"
| "json_Marshal (JBool b) = (if b then ''true'' else ''false'')"
| "json_Marshal (JNum n) = n"
| "json_Marshal (JStr s) = json_quote s"
| "json_Marshal (JArr xs) = ''['' @ strings_Join (map json_Marshal xs) '','' @ '']''"
| "json_Marshal (JObj kvs) =
     ''{'' @ strings_Join (map (\<lambda>kv. json_quote (fst kv) @ '':'' @ json_Marshal (snd kv)) kvs) '','' @ ''}''"

text \<open>\<open>Encoder.Encode\<close> ends a value with a newline.\<close>

definition json_Encode :: "json \<Rightarrow> string" where
  "json_Encode j = json_Marshal j @ [newline]"

section \<open>Reading: the lexer\<close>

definition is_json_space :: "char \<Rightarrow> bool" where
  "is_json_space c \<longleftrightarrow> c = CHR '' '' \<or> byte c = 9 \<or> byte c = 10 \<or> byte c = 13"

definition hex_value :: "char \<Rightarrow> nat option" where
  "hex_value c =
     (if is_digit c then Some (byte c - 48)
      else if 97 \<le> byte c \<and> byte c \<le> 102 then Some (byte c - 87)
      else if 65 \<le> byte c \<and> byte c \<le> 70 then Some (byte c - 55) else None)"

fun lex_hex4 :: "string \<Rightarrow> (nat \<times> string) option" where
  "lex_hex4 (a # b # c # d # s) =
     (case (hex_value a, hex_value b, hex_value c, hex_value d) of
        (Some w, Some x, Some y, Some z) \<Rightarrow> Some (((w * 16 + x) * 16 + y) * 16 + z, s)
      | _ \<Rightarrow> None)"
| "lex_hex4 _ = None"

text \<open>\<open>utf8.EncodeRune\<close> of a code point that is no surrogate.\<close>

definition utf8_encode :: "nat \<Rightarrow> string" where
  "utf8_encode r =
     (if r < 128 then [char_of r]
      else if r < 2048 then [char_of (192 + r div 64), char_of (128 + r mod 64)]
      else if r < 65536
      then [char_of (224 + r div 4096), char_of (128 + r div 64 mod 64), char_of (128 + r mod 64)]
      else [char_of (240 + r div 262144), char_of (128 + r div 4096 mod 64),
            char_of (128 + r div 64 mod 64), char_of (128 + r mod 64)])"

text \<open>
  The rest of an escape after \<open>\u\<close>: a surrogate counts only as the first half of a pair
  that follows at once; alone it is U+FFFD.
\<close>

fun low_surrogate :: "string \<Rightarrow> (nat \<times> string) option" where
  "low_surrogate (a # b # s) =
     (if a = bslash \<and> b = CHR ''u''
      then (case lex_hex4 s of
              Some (w, r) \<Rightarrow> if 56320 \<le> w \<and> w < 57344 then Some (w, r) else None
            | None \<Rightarrow> None)
      else None)"
| "low_surrogate _ = None"

definition lex_u :: "string \<Rightarrow> (string \<times> string) option" where
  "lex_u s =
     (case lex_hex4 s of
        None \<Rightarrow> None
      | Some (v, r) \<Rightarrow>
          if v < 55296 \<or> 57344 \<le> v then Some (utf8_encode v, r)
          else if v < 56320
          then (case low_surrogate r of
                  Some (w, r') \<Rightarrow> Some (utf8_encode ((v - 55296) * 1024 + (w - 56320) + 65536), r')
                | None \<Rightarrow> Some (rune_error, r))
          else Some (rune_error, r))"

fun lex_escape :: "string \<Rightarrow> (string \<times> string) option" where
  "lex_escape [] = None"
| "lex_escape (c # s) =
     (if c = dquote \<or> c = bslash \<or> c = CHR ''/'' then Some ([c], s)
      else if c = CHR ''b'' then Some ([CHR 0x08], s)
      else if c = CHR ''f'' then Some ([CHR 0x0C], s)
      else if c = CHR ''n'' then Some ([CHR 0x0A], s)
      else if c = CHR ''r'' then Some ([CHR 0x0D], s)
      else if c = CHR ''t'' then Some ([CHR 0x09], s)
      else if c = CHR ''u'' then lex_u s else None)"

lemma lex_hex4_shorter: "lex_hex4 s = Some (v, r) \<Longrightarrow> length r < length s"
  by (cases s rule: lex_hex4.cases) (auto split: option.splits)

lemma low_surrogate_shorter: "low_surrogate s = Some (v, r) \<Longrightarrow> length r < length s"
  by (cases s rule: low_surrogate.cases)
    (auto split: option.splits if_splits dest!: lex_hex4_shorter)

lemma lex_u_shorter: "lex_u s = Some (d, r) \<Longrightarrow> length r < length s"
  by (auto simp: lex_u_def split: option.splits if_splits dest!: lex_hex4_shorter low_surrogate_shorter)

lemma lex_escape_shorter: "lex_escape s = Some (d, r) \<Longrightarrow> length r < length s"
  by (cases s) (auto split: if_splits dest: lex_u_shorter)

text \<open>A string after its opening quote: its value and what follows the closing quote.\<close>

function lex_string :: "string \<Rightarrow> (string \<times> string) option" where
  "lex_string s =
     (if s = [] then None
      else if hd s = dquote then Some ([], tl s)
      else if hd s = bslash then
        (case lex_escape (tl s) of
           None \<Rightarrow> None
         | Some (d, r) \<Rightarrow> map_option (apfst (append d)) (lex_string r))
      else if byte (hd s) < 32 then None
      else if rune_size s = 0 then map_option (apfst (append rune_error)) (lex_string (tl s))
      else map_option (apfst (append (take (rune_size s) s))) (lex_string (drop (rune_size s) s)))"
  by pat_completeness auto
termination
  by (relation "measure length") (auto simp: neq_Nil_conv dest!: lex_escape_shorter)

declare lex_string.simps [simp del]

lemma lex_string_shorter: "lex_string s = Some (d, r) \<Longrightarrow> length r < length s"
proof (induction s arbitrary: d r rule: lex_string.induct)
  case (1 s)
  show ?case
  proof (cases "s = []")
    case True
    then show ?thesis using "1.prems" by (simp add: lex_string.simps)
  next
    case False
    then have pos: "length (tl s) < length s" by (auto simp: neq_Nil_conv)
    consider "hd s = dquote" | "hd s \<noteq> dquote" "hd s = bslash"
      | "hd s \<noteq> dquote" "hd s \<noteq> bslash" "\<not> byte (hd s) < 32" "rune_size s = 0"
      | "hd s \<noteq> dquote" "hd s \<noteq> bslash" "\<not> byte (hd s) < 32" "rune_size s \<noteq> 0"
      using "1.prems" False by (fastforce simp: lex_string.simps [of s])
    then show ?thesis
    proof cases
      case 1
      then show ?thesis using "1.prems" False pos by (simp add: lex_string.simps [of s])
    next
      case 2
      then obtain e t d' where "lex_escape (tl s) = Some (e, t)" "lex_string t = Some (d', r)"
        using "1.prems" False by (auto simp: lex_string.simps [of s] split: option.splits)
      then show ?thesis
        using "1.IH"(1) [OF False 2, of "(e, t)" e t d' r] lex_escape_shorter [of "tl s"] pos
        by fastforce
    next
      case 3
      then obtain d' where "lex_string (tl s) = Some (d', r)"
        using "1.prems" False by (auto simp: lex_string.simps [of s])
      then show ?thesis using "1.IH"(2) [OF False 3] pos by fastforce
    next
      case 4
      then obtain d' where "lex_string (drop (rune_size s) s) = Some (d', r)"
        using "1.prems" False by (auto simp: lex_string.simps [of s])
      then show ?thesis using "1.IH"(3) [OF False 4] by fastforce
    qed
  qed
qed

text \<open>Numbers are kept as they are written.\<close>

fun lex_int :: "string \<Rightarrow> (string \<times> string) option" where
  "lex_int [] = None"
| "lex_int (c # s) =
     (if c = CHR ''0'' then Some ([c], s)
      else if is_digit c then Some (c # takeWhile is_digit s, dropWhile is_digit s) else None)"

fun lex_frac :: "string \<Rightarrow> (string \<times> string) option" where
  "lex_frac [] = Some ([], [])"
| "lex_frac (c # s) =
     (if c = CHR ''.''
      then if takeWhile is_digit s = [] then None
           else Some (c # takeWhile is_digit s, dropWhile is_digit s)
      else Some ([], c # s))"

definition sign_of :: "string \<Rightarrow> string" where
  "sign_of s = takeWhile (\<lambda>c. c = CHR ''+'' \<or> c = CHR ''-'') (take 1 s)"

fun lex_exp :: "string \<Rightarrow> (string \<times> string) option" where
  "lex_exp [] = Some ([], [])"
| "lex_exp (c # s) =
     (if c = CHR ''e'' \<or> c = CHR ''E''
      then let r = drop (length (sign_of s)) s
           in if takeWhile is_digit r = [] then None
              else Some (c # sign_of s @ takeWhile is_digit r, dropWhile is_digit r)
      else Some ([], c # s))"

definition minus_of :: "string \<Rightarrow> string" where
  "minus_of s = takeWhile (\<lambda>c. c = CHR ''-'') (take 1 s)"

definition lex_number :: "string \<Rightarrow> (string \<times> string) option" where
  "lex_number s =
     (case lex_int (drop (length (minus_of s)) s) of
        None \<Rightarrow> None
      | Some (i, r) \<Rightarrow>
          (case lex_frac r of
             None \<Rightarrow> None
           | Some (f, r') \<Rightarrow>
               (case lex_exp r' of
                  None \<Rightarrow> None
                | Some (e, r'') \<Rightarrow> Some (minus_of s @ i @ f @ e, r''))))"

lemma length_dropWhile_less: "s \<noteq> [] \<Longrightarrow> P (hd s) \<Longrightarrow> length (dropWhile P s) < length s"
  by (cases s) (auto simp: le_imp_less_Suc length_dropWhile_le)

lemma lex_int_shorter: "lex_int s = Some (d, r) \<Longrightarrow> length r < length s"
  by (cases s) (auto simp: le_imp_less_Suc length_dropWhile_le split: if_splits)

lemma lex_frac_shorter: "lex_frac s = Some (d, r) \<Longrightarrow> length r \<le> length s"
  by (cases s) (auto simp: le_SucI length_dropWhile_le split: if_splits)

lemma lex_exp_shorter: "lex_exp s = Some (d, r) \<Longrightarrow> length r \<le> length s"
  by (cases s) (auto simp: Let_def split: if_splits intro: le_trans [OF length_dropWhile_le])

lemma lex_number_shorter: "lex_number s = Some (d, r) \<Longrightarrow> length r < length s"
  by (fastforce simp: lex_number_def split: option.splits
      dest!: lex_int_shorter lex_frac_shorter lex_exp_shorter)

section \<open>Reading: the state machine\<close>

datatype json_token = TVal json | TPunct char

definition next_token :: "string \<Rightarrow> (json_token \<times> string) option" where
  "next_token s =
     (if s = [] then None
      else if hd s \<in> set ''{}[],:'' then Some (TPunct (hd s), tl s)
      else if hd s = dquote then map_option (apfst (TVal \<circ> JStr)) (lex_string (tl s))
      else if take 4 s = ''null'' then Some (TVal JNull, drop 4 s)
      else if take 4 s = ''true'' then Some (TVal (JBool True), drop 4 s)
      else if take 5 s = ''false'' then Some (TVal (JBool False), drop 5 s)
      else map_option (apfst (TVal \<circ> JNum)) (lex_number s))"

lemma next_token_shorter:
  assumes "next_token s = Some (t, r)"
  shows "length r < length s"
proof -
  obtain c s' where s: "s = c # s'" using assms by (cases s) (auto simp: next_token_def)
  show ?thesis
    using assms unfolding s next_token_def
    by (auto split: if_splits dest!: lex_string_shorter lex_number_shorter)
qed

lemma next_token_skip:
  assumes "next_token (dropWhile P s) = Some (t, r)"
  shows "length r < length s"
  using next_token_shorter [OF assms] length_dropWhile_le [of P s] by linarith

text \<open>
  The values that are open around the place that is read: the elements of an array so far,
  the members of an object, or its members and the name of the next. The mode is what the
  machine accepts next.
\<close>

datatype json_frame = FArr "json list" | FObj "(string \<times> json) list" | FMember "(string \<times> json) list" string

datatype json_mode = WantValue | WantElem | WantKey | WantFirstKey | WantColon | WantEnd

datatype json_machine = Reading json_mode "json_frame list" | Finished json

fun json_give :: "json \<Rightarrow> json_frame list \<Rightarrow> json_machine option" where
  "json_give v [] = Some (Finished v)"
| "json_give v (FArr xs # st) = Some (Reading WantEnd (FArr (xs @ [v]) # st))"
| "json_give v (FMember ms k # st) = Some (Reading WantEnd (FObj (ms @ [(k, v)]) # st))"
| "json_give v (FObj ms # st) = None"

definition maxNestingDepth :: nat where "maxNestingDepth = 10000"

definition json_open :: "json_mode \<Rightarrow> json_frame \<Rightarrow> json_frame list \<Rightarrow> json_machine option" where
  "json_open m f st = (if length st < maxNestingDepth then Some (Reading m (f # st)) else None)"

fun json_close :: "char \<Rightarrow> json_frame list \<Rightarrow> json_machine option" where
  "json_close c (FArr xs # st) = (if c = CHR '']'' then json_give (JArr xs) st else None)"
| "json_close c (FObj ms # st) = (if c = CHR ''}'' then json_give (JObj ms) st else None)"
| "json_close c _ = None"

definition json_value :: "json_token \<Rightarrow> json_frame list \<Rightarrow> json_machine option" where
  "json_value t st =
     (case t of
        TVal v \<Rightarrow> json_give v st
      | TPunct c \<Rightarrow> if c = CHR ''['' then json_open WantElem (FArr []) st
                    else if c = CHR ''{'' then json_open WantFirstKey (FObj []) st else None)"

fun json_key :: "json_token \<Rightarrow> json_frame list \<Rightarrow> json_machine option" where
  "json_key (TVal (JStr k)) (FObj ms # st) = Some (Reading WantColon (FMember ms k # st))"
| "json_key _ _ = None"

fun json_end :: "json_token \<Rightarrow> json_frame list \<Rightarrow> json_machine option" where
  "json_end (TPunct c) st =
     (if c = CHR '','' then
        (case st of FArr xs # _ \<Rightarrow> Some (Reading WantValue st) | FObj ms # _ \<Rightarrow> Some (Reading WantKey st)
         | _ \<Rightarrow> None)
      else json_close c st)"
| "json_end _ _ = None"

fun json_step :: "json_mode \<Rightarrow> json_token \<Rightarrow> json_frame list \<Rightarrow> json_machine option" where
  "json_step WantValue t st = json_value t st"
| "json_step WantElem t st = (if t = TPunct (CHR '']'') then json_close (CHR '']'') st else json_value t st)"
| "json_step WantKey t st = json_key t st"
| "json_step WantFirstKey t st = (if t = TPunct (CHR ''}'') then json_close (CHR ''}'') st else json_key t st)"
| "json_step WantColon t st = (if t = TPunct (CHR '':'') then Some (Reading WantValue st) else None)"
| "json_step WantEnd t st = json_end t st"

text \<open>The first value of a text and what follows it.\<close>

function json_run :: "json_mode \<Rightarrow> json_frame list \<Rightarrow> string \<Rightarrow> (json \<times> string) option" where
  "json_run m st s =
     (case next_token (dropWhile is_json_space s) of
        None \<Rightarrow> None
      | Some (t, r) \<Rightarrow>
          (case json_step m t st of
             None \<Rightarrow> None
           | Some (Finished v) \<Rightarrow> Some (v, r)
           | Some (Reading m' st') \<Rightarrow> json_run m' st' r))"
  by pat_completeness auto
termination
  by (relation "measure (\<lambda>(m, st, s). length s)") (auto dest: next_token_skip)

declare json_run.simps [simp del]

definition json_Unmarshal :: "string \<Rightarrow> json option" where
  "json_Unmarshal s =
     (case json_run WantValue [] s of
        None \<Rightarrow> None
      | Some (v, r) \<Rightarrow> if list_all is_json_space r then Some v else None)"


text \<open>
  The first \<open>Decode\<close> of a \<open>Decoder\<close> on a stream that delivers \<open>s\<close> and then ends, with EOF or with
  an error: it stops after the first value, and only an array or an object is complete
  before the byte after it, or EOF, is there.
\<close>

definition json_Decode :: "string \<Rightarrow> bool \<Rightarrow> json option" where
  "json_Decode s eof =
     (case json_run WantValue [] s of
        None \<Rightarrow> None
      | Some (JArr xs, r) \<Rightarrow> Some (JArr xs)
      | Some (JObj kvs, r) \<Rightarrow> Some (JObj kvs)
      | Some (v, r) \<Rightarrow> if r = [] \<and> \<not> eof then None else Some v)"

end
