(* ===== verification/Config.thy ===== *)
theory Config
  imports Go_Json_Text
begin

text \<open>
  \<open>internal/config/config.go\<close>: the allowlist. \<open>Load\<close> turns the configuration file into the
  list of groups or the first error; the \<open>Manager\<close> holds the current allowlist, the
  modification time it was read at, and the channels of its subscribers. A Go map keyed by
  JID is the list of its entries; its iteration order is not specified by Go, and no
  statement here depends on it.
\<close>

section \<open>Data\<close>

record group =
  g_JID :: string
  g_Label :: string
  g_Tenants :: "string list"
  g_Purpose :: string
  g_IngestText :: bool
  g_IngestMediaMetadata :: bool
  g_CopyMedia :: bool
  g_IndexEmbeddings :: bool
  g_RetentionDays :: "int64 option"

record rawGroup =
  r_JID :: string
  r_Label :: string
  r_Tenants :: "string list option"
  r_Purpose :: string
  r_IngestText :: "bool option"
  r_IngestMediaMetadata :: "bool option"
  r_CopyMedia :: "bool option"
  r_IndexEmbeddings :: "bool option"
  r_RetentionDays :: "int64 option"

record fileConfig =
  fc_Enabled :: bool
  fc_Groups :: "rawGroup list"

datatype tenants_error = TenantsEmpty | EmptyTenant | DuplicateTenant string

datatype config_error =
    ReadError go_error
  | JsonError
  | NeedsJidAndLabel
  | UnsupportedJID string
  | DuplicateJID string
  | DuplicateLabel string
  | TenantsNotSet string
  | BadTenants string tenants_error
  | StatError go_error

section \<open>Decoding the file\<close>

definition zero_rawGroup :: rawGroup where
  "zero_rawGroup = \<lparr>r_JID = [], r_Label = [], r_Tenants = None, r_Purpose = [],
     r_IngestText = None, r_IngestMediaMetadata = None, r_CopyMedia = None,
     r_IndexEmbeddings = None, r_RetentionDays = None\<rparr>"

definition set_group_member :: "rawGroup \<Rightarrow> string \<times> json \<Rightarrow> rawGroup option" where
  "set_group_member r kv =
     (let k = fold_key (fst kv); j = snd kv in
      if k = ''jid'' then map_option (\<lambda>v. r\<lparr>r_JID := v\<rparr>) (dec_string (r_JID r) j)
      else if k = ''label'' then map_option (\<lambda>v. r\<lparr>r_Label := v\<rparr>) (dec_string (r_Label r) j)
      else if k = ''tenants'' then map_option (\<lambda>v. r\<lparr>r_Tenants := v\<rparr>) (dec_strings_ptr j)
      else if k = ''purpose'' then
        map_option (\<lambda>v. r\<lparr>r_Purpose := v\<rparr>) (dec_string (r_Purpose r) j)
      else if k = ''ingest_text'' then
        map_option (\<lambda>v. r\<lparr>r_IngestText := v\<rparr>) (dec_bool_ptr j)
      else if k = ''ingest_media_metadata'' then
        map_option (\<lambda>v. r\<lparr>r_IngestMediaMetadata := v\<rparr>) (dec_bool_ptr j)
      else if k = ''copy_media'' then map_option (\<lambda>v. r\<lparr>r_CopyMedia := v\<rparr>) (dec_bool_ptr j)
      else if k = ''index_embeddings'' then
        map_option (\<lambda>v. r\<lparr>r_IndexEmbeddings := v\<rparr>) (dec_bool_ptr j)
      else if k = ''retention_days'' then
        map_option (\<lambda>v. r\<lparr>r_RetentionDays := v\<rparr>) (dec_int_ptr j)
      else Some r)"

fun dec_rawGroup :: "json \<Rightarrow> rawGroup option" where
  "dec_rawGroup JNull = Some zero_rawGroup"
| "dec_rawGroup (JObj kvs) = fold_opt set_group_member zero_rawGroup kvs"
| "dec_rawGroup _ = None"

fun dec_rawGroups :: "json \<Rightarrow> rawGroup list option" where
  "dec_rawGroups JNull = Some []"
| "dec_rawGroups (JArr js) = map_opt dec_rawGroup js"
| "dec_rawGroups _ = None"

definition set_config_member :: "fileConfig \<Rightarrow> string \<times> json \<Rightarrow> fileConfig option" where
  "set_config_member c kv =
     (let k = fold_key (fst kv); j = snd kv in
      if k = ''enabled'' then map_option (\<lambda>v. c\<lparr>fc_Enabled := v\<rparr>) (dec_bool (fc_Enabled c) j)
      else if k = ''groups'' then map_option (\<lambda>v. c\<lparr>fc_Groups := v\<rparr>) (dec_rawGroups j)
      else Some c)"

fun dec_fileConfig :: "json \<Rightarrow> fileConfig option" where
  "dec_fileConfig JNull = Some \<lparr>fc_Enabled = False, fc_Groups = []\<rparr>"
| "dec_fileConfig (JObj kvs) =
     fold_opt set_config_member \<lparr>fc_Enabled = False, fc_Groups = []\<rparr> kvs"
| "dec_fileConfig _ = None"

section \<open>Load\<close>

definition boolDefault :: "bool option \<Rightarrow> bool \<Rightarrow> bool" where
  "boolDefault v fallback = (case v of None \<Rightarrow> fallback | Some b \<Rightarrow> b)"

definition supportedChatJID :: "string \<Rightarrow> bool" where
  "supportedChatJID jid =
     (case strings_Split (CHR ''@'') jid of
        [user, server] \<Rightarrow>
          user \<noteq> [] \<and>
          (if server = ''g.us'' then True
           else if server = ''s.whatsapp.net'' \<or> server = ''lid'' then list_all is_digit user
           else False)
      | _ \<Rightarrow> False)"

fun normalize_tenants_from :: "string list \<Rightarrow> string list \<Rightarrow> tenants_error + string list" where
  "normalize_tenants_from seen [] = Inr []"
| "normalize_tenants_from seen (v # vs) =
     (let t = strings_TrimSpace v in
      if t = [] then Inl EmptyTenant
      else if t \<in> set seen then Inl (DuplicateTenant t)
      else case normalize_tenants_from (t # seen) vs of
             Inl e \<Rightarrow> Inl e
           | Inr ts \<Rightarrow> Inr (t # ts))"

definition normalizeTenants :: "string list \<Rightarrow> tenants_error + string list" where
  "normalizeTenants vs = (if vs = [] then Inl TenantsEmpty else normalize_tenants_from [] vs)"

definition load_group :: "string list \<Rightarrow> string list \<Rightarrow> rawGroup \<Rightarrow> config_error + group" where
  "load_group seenJID seenLabel raw =
     (let jid = strings_TrimSpace (r_JID raw); label = strings_TrimSpace (r_Label raw) in
      if jid = [] \<or> label = [] then Inl NeedsJidAndLabel
      else if \<not> supportedChatJID jid then Inl (UnsupportedJID jid)
      else if jid \<in> set seenJID then Inl (DuplicateJID jid)
      else if label \<in> set seenLabel then Inl (DuplicateLabel label)
      else case r_Tenants raw of
             None \<Rightarrow> Inl (TenantsNotSet jid)
           | Some vs \<Rightarrow>
               (case normalizeTenants vs of
                  Inl e \<Rightarrow> Inl (BadTenants jid e)
                | Inr tenants \<Rightarrow> Inr
                    \<lparr>g_JID = jid, g_Label = label, g_Tenants = tenants, g_Purpose = r_Purpose raw,
                     g_IngestText = boolDefault (r_IngestText raw) True,
                     g_IngestMediaMetadata = boolDefault (r_IngestMediaMetadata raw) True,
                     g_CopyMedia = boolDefault (r_CopyMedia raw) False,
                     g_IndexEmbeddings = boolDefault (r_IndexEmbeddings raw) False,
                     g_RetentionDays = r_RetentionDays raw\<rparr>))"

fun load_groups :: "string list \<Rightarrow> string list \<Rightarrow> rawGroup list \<Rightarrow> config_error + group list" where
  "load_groups seenJID seenLabel [] = Inr []"
| "load_groups seenJID seenLabel (raw # raws) =
     (case load_group seenJID seenLabel raw of
        Inl e \<Rightarrow> Inl e
      | Inr g \<Rightarrow>
          (case load_groups (g_JID g # seenJID) (g_Label g # seenLabel) raws of
             Inl e \<Rightarrow> Inl e
           | Inr gs \<Rightarrow> Inr (g # gs)))"

text \<open>
  What \<open>os.ReadFile\<close> and \<open>os.Stat\<close> return for the file; times are instants in nanoseconds.
\<close>

record config_file =
  cf_read :: "go_error + string"
  cf_stat :: "go_error + int"

definition Load ::
  "config_file \<Rightarrow> config_error + (group list \<times> int)" where
  "Load src =
     (case cf_read src of
        Inl e \<Rightarrow> Inl (ReadError e)
      | Inr b \<Rightarrow>
          (case Option.bind (json_Unmarshal b) dec_fileConfig of
             None \<Rightarrow> Inl JsonError
           | Some fc \<Rightarrow>
               (case load_groups [] [] (if fc_Enabled fc then fc_Groups fc else []) of
                  Inl e \<Rightarrow> Inl e
                | Inr out \<Rightarrow>
                    (case cf_stat src of
                       Inl e \<Rightarrow> Inl (StatError e)
                     | Inr mod_time \<Rightarrow> Inr (out, mod_time)))))"

section \<open>The manager\<close>

text \<open>A buffered channel with a non-blocking send is a list cut at its capacity.\<close>

definition try_send :: "nat \<Rightarrow> 'a \<Rightarrow> 'a list \<Rightarrow> 'a list" where
  "try_send cap x q = (if length q < cap then q @ [x] else q)"

record manager =
  m_groups :: "group list"
  m_modTime :: int
  m_subs :: "group list list list"

definition empty_manager :: manager where
  "empty_manager = \<lparr>m_groups = [], m_modTime = 0, m_subs = []\<rparr>"

definition HasTenant :: "group \<Rightarrow> string \<Rightarrow> bool" where
  "HasTenant g tenant = list_ex (\<lambda>t. t = tenant) (g_Tenants g)"

fun sameStrings :: "string list \<Rightarrow> string list \<Rightarrow> bool" where
  "sameStrings [] [] = True"
| "sameStrings (a # as) (b # bs) = (a = b \<and> sameStrings as bs)"
| "sameStrings _ _ = False"

definition sameGroup :: "group \<Rightarrow> group \<Rightarrow> bool" where
  "sameGroup a b =
     (if g_JID a \<noteq> g_JID b \<or> g_Label a \<noteq> g_Label b \<or> g_Purpose a \<noteq> g_Purpose b \<or>
         g_IngestText a \<noteq> g_IngestText b \<or> g_IngestMediaMetadata a \<noteq> g_IngestMediaMetadata b \<or>
         g_CopyMedia a \<noteq> g_CopyMedia b \<or> g_IndexEmbeddings a \<noteq> g_IndexEmbeddings b
      then False
      else if \<not> sameStrings (g_Tenants a) (g_Tenants b) then False
      else case (g_RetentionDays a, g_RetentionDays b) of
             (Some x, Some y) \<Rightarrow> x = y
           | (x, y) \<Rightarrow> x = None \<and> y = None)"

definition Group :: "manager \<Rightarrow> string \<Rightarrow> group option" where
  "Group m jid = row_of g_JID jid (m_groups m)"

definition IsAllowed :: "manager \<Rightarrow> string \<Rightarrow> bool" where
  "IsAllowed m jid = (case row_of g_JID jid (m_groups m) of None \<Rightarrow> False | Some _ \<Rightarrow> True)"

definition Groups :: "manager \<Rightarrow> group list" where
  "Groups m = m_groups m"

definition Count :: "manager \<Rightarrow> nat" where
  "Count m = length (m_groups m)"

definition Subscribe :: "manager \<Rightarrow> manager" where
  "Subscribe m = m\<lparr>m_subs := m_subs m @ [[]]\<rparr>"

text \<open>\<open>next[g.JID] = g\<close> for every group.\<close>

definition group_map :: "group list \<Rightarrow> group list" where
  "group_map gs = foldl (\<lambda>acc g. upsert g_JID (\<lambda>x y. x) g acc) [] gs"

definition added_groups :: "group list \<Rightarrow> group list \<Rightarrow> group list" where
  "added_groups old_groups next_groups =
     filter (\<lambda>g. row_of g_JID (g_JID g) old_groups = None) next_groups"

definition groups_changed :: "group list \<Rightarrow> group list \<Rightarrow> bool" where
  "groups_changed old_groups next_groups =
     (length next_groups \<noteq> length old_groups \<or>
      list_ex (\<lambda>g. case row_of g_JID (g_JID g) old_groups of
                      None \<Rightarrow> True | Some old \<Rightarrow> \<not> sameGroup old g) next_groups)"

definition Reload ::
  "config_file \<Rightarrow> manager \<Rightarrow> config_error option \<times> manager" where
  "Reload src m =
     (case Load src of
        Inl e \<Rightarrow> (Some e, m)
      | Inr (groups, mod_time) \<Rightarrow>
          let nxt = group_map groups;
              added = added_groups (m_groups m) nxt;
              subs = (if groups_changed (m_groups m) nxt
                      then map (try_send 4 added) (m_subs m) else m_subs m)
          in (None, \<lparr>m_groups = nxt, m_modTime = mod_time, m_subs = subs\<rparr>))"

text \<open>One tick of \<open>Watch\<close>: the stat of the tick and the reload it may start.\<close>

definition Watch_tick ::
  "go_error + int \<Rightarrow> config_file \<Rightarrow> manager \<Rightarrow> config_error option \<times> manager"
where
  "Watch_tick stat src m =
     (case stat of
        Inl e \<Rightarrow> (Some (StatError e), m)
      | Inr t \<Rightarrow> if t > m_modTime m then Reload src m else (None, m))"

definition New :: "config_file \<Rightarrow> config_error + manager" where
  "New src =
     (case Reload src empty_manager of (Some e, _) \<Rightarrow> Inl e | (None, m) \<Rightarrow> Inr m)"

section \<open>What Load accepts\<close>

text \<open>
  The promise of a loaded allowlist: every entry names a supported chat and a label, without
  surrounding white space, has at least one tenant, each distinct and not blank, and no
  two entries share a JID or a label.
\<close>

definition wf_group :: "group \<Rightarrow> bool" where
  "wf_group g \<longleftrightarrow>
     supportedChatJID (g_JID g) \<and> strings_TrimSpace (g_JID g) = g_JID g \<and>
     g_Label g \<noteq> [] \<and> strings_TrimSpace (g_Label g) = g_Label g \<and>
     g_Tenants g \<noteq> [] \<and> distinct (g_Tenants g) \<and>
     list_all (\<lambda>t. t \<noteq> [] \<and> strings_TrimSpace t = t) (g_Tenants g)"

definition wf_groups :: "group list \<Rightarrow> bool" where
  "wf_groups gs \<longleftrightarrow>
     list_all wf_group gs \<and> unique_key g_JID gs \<and> unique_key g_Label gs"

lemma supported_not_Nil [simp]: "supportedChatJID jid \<Longrightarrow> jid \<noteq> []"
  by (auto simp: supportedChatJID_def)

lemma normalize_tenants_from_sound:
  "normalize_tenants_from seen vs = Inr ts \<Longrightarrow>
    ts = map strings_TrimSpace vs \<and> distinct ts \<and> (\<forall>t \<in> set ts. t \<notin> set seen) \<and>
    list_all (\<lambda>t. t \<noteq> [] \<and> strings_TrimSpace t = t) ts"
proof (induction seen vs arbitrary: ts rule: normalize_tenants_from.induct)
  case (2 seen v vs)
  let ?t = "strings_TrimSpace v"
  from "2.prems" obtain us where t: "?t \<noteq> []" "?t \<notin> set seen"
    and us: "normalize_tenants_from (?t # seen) vs = Inr us" and ts: "ts = ?t # us"
    by (auto simp: Let_def split: if_splits sum.splits)
  from "2.IH" [OF refl t us] t ts show ?case by auto
qed simp

lemma normalizeTenants_sound:
  "normalizeTenants vs = Inr ts \<Longrightarrow>
    ts = map strings_TrimSpace vs \<and> ts \<noteq> [] \<and> distinct ts \<and>
    list_all (\<lambda>t. t \<noteq> [] \<and> strings_TrimSpace t = t) ts"
  using normalize_tenants_from_sound [of "[]" vs ts]
  by (auto simp: normalizeTenants_def split: if_splits)

lemma load_group_sound:
  assumes "load_group sj sl raw = Inr g"
  shows "wf_group g \<and> g_JID g \<notin> set sj \<and> g_Label g \<notin> set sl \<and>
    g_JID g = strings_TrimSpace (r_JID raw) \<and>
    (\<exists>vs. r_Tenants raw = Some vs \<and> g_Tenants g = map strings_TrimSpace vs)"
  using assms
  by (auto simp: load_group_def wf_group_def Let_def dest: normalizeTenants_sound
      split: if_splits option.splits sum.splits)

lemma load_groups_sound:
  "load_groups sj sl raws = Inr gs \<Longrightarrow>
    wf_groups gs \<and> set (map g_JID gs) \<inter> set sj = {} \<and> set (map g_Label gs) \<inter> set sl = {}"
proof (induction sj sl raws arbitrary: gs rule: load_groups.induct)
  case (2 sj sl raw raws)
  then obtain g hs where g: "load_group sj sl raw = Inr g"
    and hs: "load_groups (g_JID g # sj) (g_Label g # sl) raws = Inr hs" and gs: "gs = g # hs"
    by (auto split: sum.splits)
  show ?case
    using load_group_sound [OF g] "2.IH" [OF g hs] gs
    by (auto simp: wf_groups_def unique_key_def)
qed (auto simp: wf_groups_def)

lemma Load_sound: "Load src = Inr (gs, t) \<Longrightarrow> wf_groups gs"
  by (auto simp: Load_def split: sum.splits option.splits dest: load_groups_sound)

section \<open>The manager's invariant\<close>

definition manager_ok :: "manager \<Rightarrow> bool" where
  "manager_ok m \<longleftrightarrow> wf_groups (m_groups m)"

lemma wf_groups_unique: "wf_groups gs \<Longrightarrow> unique_key g_JID gs"
  by (simp add: wf_groups_def)

lemma upsert_append_fresh: "key x \<notin> key ` set rows \<Longrightarrow> upsert key merge x rows = rows @ [x]"
  by (induction rows) auto

lemma group_map_id: "unique_key g_JID gs \<Longrightarrow> group_map gs = gs"
proof -
  have "foldl (\<lambda>acc g. upsert g_JID (\<lambda>x y. x) g acc) acc gs = acc @ gs"
    if "unique_key g_JID (acc @ gs)" for acc
    using that
  proof (induction gs arbitrary: acc)
    case (Cons g gs)
    then show ?case
      using Cons.IH [of "acc @ [g]"] by (simp add: unique_key_def upsert_append_fresh)
  qed simp
  then show "unique_key g_JID gs \<Longrightarrow> group_map gs = gs"
    by (simp add: group_map_def)
qed

lemma manager_ok_empty [inv_intros]: "manager_ok empty_manager"
  by (simp add: manager_ok_def wf_groups_def empty_manager_def)

lemma manager_ok_Subscribe [inv_intros]: "manager_ok m \<Longrightarrow> manager_ok (Subscribe m)"
  by (simp add: manager_ok_def Subscribe_def)

lemma Reload_cases:
  fixes m :: manager
  obtains (failed) e where "Load src = Inl e" "Reload src m = (Some e, m)"
  | (loaded) gs t where "Load src = Inr (gs, t)" "wf_groups gs"
      "Reload src m = (None, \<lparr>m_groups = gs, m_modTime = t,
         m_subs = (if groups_changed (m_groups m) gs
                   then map (try_send 4 (added_groups (m_groups m) gs)) (m_subs m)
                   else m_subs m)\<rparr>)"
proof (cases "Load src")
  case (Inl e)
  then show thesis by (intro failed [of e]) (simp_all add: Reload_def)
next
  case (Inr r)
  obtain gs t where r: "r = (gs, t)" by (cases r)
  then have wf: "wf_groups gs" using Inr Load_sound by simp
  then have "group_map gs = gs" by (simp add: group_map_id wf_groups_unique)
  then show thesis
    using Inr r wf by (intro loaded [of gs t]) (simp_all add: Reload_def)
qed

lemma manager_ok_Reload [inv_intros]:
  "manager_ok m \<Longrightarrow> Reload src m = (r, m') \<Longrightarrow> manager_ok m'"
  by (cases rule: Reload_cases [where src = src and m = m])
    (auto simp: manager_ok_def)

lemma manager_ok_Watch_tick [inv_intros]:
  "manager_ok m \<Longrightarrow> Watch_tick stat src m = (r, m') \<Longrightarrow> manager_ok m'"
  by (auto simp: Watch_tick_def split: sum.splits if_splits dest: manager_ok_Reload)

lemma manager_ok_New: "New src = Inr m \<Longrightarrow> manager_ok m"
  by (auto simp: New_def split: prod.splits option.splits
      dest: manager_ok_Reload [OF manager_ok_empty])

section \<open>The allowlist as an interface\<close>

text \<open>
  What the listener, the history sync and the control socket rely on when they ask the
  manager about a chat: the answers of \<open>Group\<close> and \<open>IsAllowed\<close> agree, a group is found
  only under its own JID, and only supported chats with at least one tenant are listed.
\<close>

locale allowlist =
  fixes lookup :: "'m \<Rightarrow> string \<Rightarrow> group option"
    and allowed :: "'m \<Rightarrow> string \<Rightarrow> bool"
    and ok :: "'m \<Rightarrow> bool"
  assumes allowed_lookup: "allowed m jid \<longleftrightarrow> lookup m jid \<noteq> None"
    and lookup_jid: "lookup m jid = Some g \<Longrightarrow> g_JID g = jid"
    and lookup_wf: "ok m \<Longrightarrow> lookup m jid = Some g \<Longrightarrow> wf_group g"
begin

lemma default_deny: "\<not> allowed m jid \<Longrightarrow> lookup m jid = None"
  by (simp add: allowed_lookup)

lemma allowed_supported: "ok m \<Longrightarrow> allowed m jid \<Longrightarrow> supportedChatJID jid"
  using lookup_jid lookup_wf by (fastforce simp: allowed_lookup wf_group_def)

lemma blank_denied: "ok m \<Longrightarrow> \<not> allowed m []"
  using allowed_supported supported_not_Nil by blast

lemma lookup_has_owner: "ok m \<Longrightarrow> lookup m jid = Some g \<Longrightarrow> \<exists>t. HasTenant g t"
  using lookup_wf [of m jid g]
  by (cases "g_Tenants g") (auto simp: wf_group_def HasTenant_def)

end

interpretation cfg: allowlist Group IsAllowed manager_ok
  by unfold_locales
    (auto simp: Group_def IsAllowed_def manager_ok_def wf_groups_def list_all_iff
      split: option.splits dest: row_of_SomeD)

section \<open>Change detection\<close>

lemma sameStrings_iff: "sameStrings xs ys \<longleftrightarrow> xs = ys"
  by (induction xs ys rule: sameStrings.induct) auto

lemma sameGroup_iff: "sameGroup a b \<longleftrightarrow> a = b"
  by (cases a; cases b) (auto simp: sameGroup_def sameStrings_iff split: option.splits)

lemma groups_changed_iff:
  assumes "unique_key g_JID old_groups" "unique_key g_JID next_groups"
  shows "groups_changed old_groups next_groups \<longleftrightarrow>
    (\<exists>jid. row_of g_JID jid next_groups \<noteq> row_of g_JID jid old_groups)"
proof
  assume ch: "groups_changed old_groups next_groups"
  show "\<exists>jid. row_of g_JID jid next_groups \<noteq> row_of g_JID jid old_groups"
  proof (rule ccontr)
    assume "\<nexists>jid. row_of g_JID jid next_groups \<noteq> row_of g_JID jid old_groups"
    then have eq: "row_of g_JID jid next_groups = row_of g_JID jid old_groups" for jid by simp
    have "set (map g_JID next_groups) = set (map g_JID old_groups)"
    proof (rule set_eqI)
      fix j
      show "j \<in> set (map g_JID next_groups) \<longleftrightarrow> j \<in> set (map g_JID old_groups)"
        using eq [of j] row_of_None [of g_JID j] by (metis image_set)
    qed
    then have "length next_groups = length old_groups"
      using assms unfolding unique_key_def by (metis distinct_card length_map)
    then show False
      using ch row_of_Some_in [OF assms(2)] eq
      by (auto simp: groups_changed_def list_ex_iff sameGroup_iff split: option.splits)
  qed
next
  assume "\<exists>jid. row_of g_JID jid next_groups \<noteq> row_of g_JID jid old_groups"
  then obtain jid where ne: "row_of g_JID jid next_groups \<noteq> row_of g_JID jid old_groups" ..
  show "groups_changed old_groups next_groups"
  proof (rule ccontr)
    assume no: "\<not> groups_changed old_groups next_groups"
    have same: "row_of g_JID (g_JID g) old_groups = Some g" if "g \<in> set next_groups" for g
      using no that by (auto simp: groups_changed_def list_ex_iff sameGroup_iff split: option.splits)
    have "set next_groups \<subseteq> set old_groups" using same row_of_SomeD by fastforce
    moreover have "length next_groups = length old_groups"
      using no by (simp add: groups_changed_def)
    moreover have "distinct next_groups" "distinct old_groups"
      using assms by (auto simp: unique_key_def distinct_map)
    ultimately have "set next_groups = set old_groups"
      by (metis card_subset_eq distinct_card finite_set)
    then have "row_of g_JID jid next_groups = row_of g_JID jid old_groups"
    proof (cases "row_of g_JID jid next_groups")
      case None
      then show ?thesis
        using \<open>set next_groups = set old_groups\<close> by (metis row_of_None)
    next
      case (Some g)
      then show ?thesis using same row_of_SomeD by fastforce
    qed
    with ne show False ..
  qed
qed

section \<open>Properties\<close>

text \<open>
  What it means for a manager to hold the allowlist of a list of raw entries: each entry of
  the file, trimmed, is answered for its JID, and nothing else is.
\<close>

lemma load_groups_entries:
  "load_groups sj sl raws = Inr gs \<Longrightarrow>
    map g_JID gs = map (\<lambda>r. strings_TrimSpace (r_JID r)) raws \<and>
    map g_Label gs = map (\<lambda>r. strings_TrimSpace (r_Label r)) raws \<and>
    map g_IngestText gs = map (\<lambda>r. boolDefault (r_IngestText r) True) raws \<and>
    map g_CopyMedia gs = map (\<lambda>r. boolDefault (r_CopyMedia r) False) raws"
proof (induction sj sl raws arbitrary: gs rule: load_groups.induct)
  case (2 sj sl raw raws)
  then obtain g hs where g: "load_group sj sl raw = Inr g"
    and hs: "load_groups (g_JID g # sj) (g_Label g # sl) raws = Inr hs" and gs: "gs = g # hs"
    by (auto split: sum.splits)
  have "g_JID g = strings_TrimSpace (r_JID raw) \<and> g_Label g = strings_TrimSpace (r_Label raw) \<and>
    g_IngestText g = boolDefault (r_IngestText raw) True \<and>
    g_CopyMedia g = boolDefault (r_CopyMedia raw) False"
    using g by (auto simp: load_group_def Let_def split: if_splits option.splits sum.splits)
  then show ?case using "2.IH" [OF g hs] gs by simp
qed simp

text \<open>
  A run of the manager: it is created from the file, then reloads, ticks and subscriptions
  follow, with whatever the file and its modification time are each time.
\<close>

inductive manager_run :: "manager \<Rightarrow> bool" where
  mr_new: "New src = Inr m \<Longrightarrow> manager_run m"
| mr_reload: "manager_run m \<Longrightarrow> manager_run (snd (Reload src m))"
| mr_tick: "manager_run m \<Longrightarrow> manager_run (snd (Watch_tick stat src m))"
| mr_subscribe: "manager_run m \<Longrightarrow> manager_run (Subscribe m)"

lemma manager_run_ok: "manager_run m \<Longrightarrow> manager_ok m"
proof (induction rule: manager_run.induct)
  case (mr_new src m)
  then show ?case by (rule manager_ok_New)
next
  case (mr_reload m src)
  then show ?case by (metis manager_ok_Reload prod.collapse)
next
  case (mr_tick m stat src)
  then show ?case by (metis manager_ok_Watch_tick prod.collapse)
qed (rule manager_ok_Subscribe)

text \<open>
  C4. The allowlist is default-deny and well formed at every moment: whatever configuration
  files the daemon has read since it started, valid or not, an allowed chat has a supported
  JID (a group, or a direct chat with a numeric user), \<open>Group\<close> answers exactly for the
  allowed chats and with the entry of that chat, and the entry names at least one owner.
\<close>

theorem allowlist_default_deny:
  assumes "manager_run m"
  shows "(IsAllowed m jid \<longleftrightarrow> Group m jid \<noteq> None) \<and>
    (IsAllowed m jid \<longrightarrow> supportedChatJID jid) \<and>
    (\<forall>g. Group m jid = Some g \<longrightarrow> g_JID g = jid \<and> wf_group g \<and> (\<exists>t. HasTenant g t))"
  using manager_run_ok [OF assms] cfg.allowed_lookup cfg.allowed_supported cfg.lookup_jid
    cfg.lookup_wf cfg.lookup_has_owner
  by blast

definition sample_raw :: rawGroup where
  "sample_raw = zero_rawGroup\<lparr>r_JID := '' 7@lid '', r_Label := ''L'', r_Tenants := Some [''t'']\<rparr>"

definition sample_json :: json where
  "sample_json = JObj [(''enabled'', JBool True),
     (''groups'', JArr [JObj [(''jid'', JStr '' 7@lid ''), (''label'', JStr ''L''),
        (''tenants'', JArr [JStr ''t''])]])]"

definition sample_file :: config_file where
  "sample_file = \<lparr>cf_read = Inr (json_Marshal sample_json), cf_stat = Inr 5\<rparr>"

theorem allowlist_default_deny_witness:
  "\<exists>m. New sample_file = Inr m \<and> supportedChatJID ''7@lid'' \<and>
     \<not> IsAllowed m ''8@evil''"
proof -
  have "\<not> supportedChatJID ''8@evil''" by code_simp
  moreover obtain m where m: "New sample_file = Inr m" "IsAllowed m ''7@lid''"
  proof (cases "New sample_file")
    case (Inl e)
    moreover have "\<not> isl (New sample_file)" by code_simp
    ultimately show thesis by simp
  next
    case (Inr m)
    have "(case New sample_file of Inl _ \<Rightarrow> False | Inr m \<Rightarrow> IsAllowed m ''7@lid'')"
      by code_simp
    then show thesis using Inr that by simp
  qed
  ultimately show ?thesis
    using allowlist_default_deny [OF mr_new [OF m(1)], of "''7@lid''"]
      allowlist_default_deny [OF mr_new [OF m(1)], of "''8@evil''"] by blast
qed

text \<open>
  A reload is atomic and faithful. Where the file cannot be read, decoded or validated, the
  manager is unchanged; otherwise exactly the entries of the file, by their trimmed JIDs,
  are allowed afterwards, with the documented defaults for the flags that are absent, and
  none at all when the file says it is not enabled.
\<close>

lemma Reload_atomic:
  "case Reload src m of
     (Some e, m') \<Rightarrow> Load src = Inl e \<and> m' = m
   | (None, m') \<Rightarrow> (\<exists>b fc. cf_read src = Inr b \<and> Option.bind (json_Unmarshal b) dec_fileConfig = Some fc \<and>
       map g_JID (m_groups m') =
         (if fc_Enabled fc then map (\<lambda>r. strings_TrimSpace (r_JID r)) (fc_Groups fc) else []) \<and>
       map g_CopyMedia (m_groups m') =
         (if fc_Enabled fc then map (\<lambda>r. boolDefault (r_CopyMedia r) False) (fc_Groups fc) else []) \<and>
       map g_IngestText (m_groups m') =
         (if fc_Enabled fc then map (\<lambda>r. boolDefault (r_IngestText r) True) (fc_Groups fc) else []))"
proof (cases rule: Reload_cases [where src = src and m = m])
  case (failed e)
  then show ?thesis by simp
next
  case (loaded gs t)
  then obtain b fc where src: "cf_read src = Inr b" "Option.bind (json_Unmarshal b) dec_fileConfig = Some fc"
    and lg: "load_groups [] [] (if fc_Enabled fc then fc_Groups fc else []) = Inr gs"
    by (auto simp: Load_def split: sum.splits option.splits)
  show ?thesis
    using loaded(3) src load_groups_entries [OF lg] by simp
qed

text \<open>
  C39. Subscribers are told of every change and of nothing else: after a successful reload of
  a manager, each subscriber with room in its channel has one more notification, which
  lists exactly the entries whose JID was not allowed before, when some chat's answer
  changed; otherwise the channels are as they were. No channel grows beyond its capacity.
\<close>

theorem Reload_notifies:
  assumes "manager_ok m" "Reload src m = (None, m')"
  shows "(if \<exists>jid. Group m' jid \<noteq> Group m jid
      then m_subs m' = map (try_send 4 (added_groups (m_groups m) (m_groups m'))) (m_subs m) \<and>
        (\<forall>g. g \<in> set (added_groups (m_groups m) (m_groups m')) \<longleftrightarrow>
           Group m' (g_JID g) = Some g \<and> \<not> IsAllowed m (g_JID g))
      else m_subs m' = m_subs m) \<and>
    ((\<forall>q \<in> set (m_subs m). length q \<le> 4) \<longrightarrow> (\<forall>q \<in> set (m_subs m'). length q \<le> 4))"
proof (cases rule: Reload_cases [where src = src and m = m])
  case (failed e)
  then show ?thesis using assms(2) by simp
next
  case (loaded gs t)
  have m': "m_groups m' = gs" "m_subs m' = (if groups_changed (m_groups m) gs
      then map (try_send 4 (added_groups (m_groups m) gs)) (m_subs m) else m_subs m)"
    using loaded(3) assms(2) by auto
  have u: "unique_key g_JID (m_groups m)" "unique_key g_JID gs"
    using assms(1) loaded(2) by (simp_all add: manager_ok_def wf_groups_unique)
  have added: "g \<in> set (added_groups (m_groups m) gs) \<longleftrightarrow>
      Group m' (g_JID g) = Some g \<and> \<not> IsAllowed m (g_JID g)" for g
    using row_of_Some_in [OF u(2), of g] row_of_SomeD [of g_JID "g_JID g" gs g]
    by (auto simp: added_groups_def Group_def IsAllowed_def m'(1) split: option.splits)
  show ?thesis
    using groups_changed_iff [OF u] added m'
    by (auto simp: Group_def try_send_def)
qed

theorem Reload_notifies_witness:
  "\<exists>m'. Reload sample_file (Subscribe empty_manager) = (None, m') \<and>
     (\<forall>q \<in> set (m_subs m'). length q \<le> 4)"
proof -
  let ?R = "Reload sample_file (Subscribe empty_manager)"
  have "fst ?R = None" by code_simp
  then have R: "?R = (None, snd ?R)" by (metis prod.collapse)
  have "\<forall>q \<in> set (m_subs (Subscribe empty_manager)). length q \<le> 4"
    by (simp add: Subscribe_def empty_manager_def)
  then show ?thesis
    using Reload_notifies [OF manager_ok_Subscribe [OF manager_ok_empty] R] R by blast
qed

end
