(* ===== verification/Paths.thy ===== *)
theory Paths
  imports Go_Strings
begin

text \<open>
  \<open>internal/paths/paths.go\<close> over the lexical path functions of Go's \<open>path/filepath\<close> on
  Unix (\<open>Clean\<close>, \<open>Join\<close>, \<open>Ext\<close>, \<open>Base\<close>, \<open>Dir\<close>). A cleaned path is a flag (rooted or not)
  and the stack of its components; \<open>path_parts\<close> is that stack read from the root, so
  confinement of a path to a directory is the prefix order on \<open>path_parts\<close>.
\<close>

section \<open>filepath\<close>

definition path_rooted :: "string \<Rightarrow> bool" where
  "path_rooted p \<longleftrightarrow> (case p of [] \<Rightarrow> False | c # _ \<Rightarrow> c = CHR ''/'')"

definition clean_step :: "bool \<Rightarrow> string list \<Rightarrow> string \<Rightarrow> string list" where
  "clean_step rooted stk p =
     (if p = [] \<or> p = ''.'' then stk
      else if p = ''..'' then
        (case stk of
           [] \<Rightarrow> if rooted then [] else [p]
         | q # qs \<Rightarrow> if q = ''..'' then p # stk else qs)
      else p # stk)"

definition clean_stack :: "string \<Rightarrow> string list" where
  "clean_stack p = foldl (clean_step (path_rooted p)) [] (strings_Split (CHR ''/'') p)"

definition path_parts :: "string \<Rightarrow> string list" where
  "path_parts p = rev (clean_stack p)"

definition render_path :: "bool \<Rightarrow> string list \<Rightarrow> string" where
  "render_path rooted parts =
     (if rooted then ''/'' @ strings_Join parts ''/''
      else if parts = [] then ''.'' else strings_Join parts ''/'')"

definition filepath_Clean :: "string \<Rightarrow> string" where
  "filepath_Clean p = render_path (path_rooted p) (path_parts p)"

definition filepath_Join :: "string list \<Rightarrow> string" where
  "filepath_Join es =
     (case dropWhile (\<lambda>e. e = []) es of
        [] \<Rightarrow> []
      | rest \<Rightarrow> filepath_Clean (strings_Join rest ''/''))"

definition filepath_Ext :: "string \<Rightarrow> string" where
  "filepath_Ext p =
     (let r = rev p; stem = takeWhile (\<lambda>c. c \<noteq> CHR ''.'' \<and> c \<noteq> CHR ''/'') r
      in case drop (length stem) r of
           c # _ \<Rightarrow> if c = CHR ''.'' then CHR ''.'' # rev stem else []
         | [] \<Rightarrow> [])"

definition filepath_Dir :: "string \<Rightarrow> string" where
  "filepath_Dir p = filepath_Clean (rev (dropWhile (\<lambda>c. c \<noteq> CHR ''/'') (rev p)))"

definition filepath_Base :: "string \<Rightarrow> string" where
  "filepath_Base p =
     (if p = [] then ''.''
      else let r = dropWhile (\<lambda>c. c = CHR ''/'') (rev p)
           in if r = [] then ''/'' else rev (takeWhile (\<lambda>c. c \<noteq> CHR ''/'') r))"

text \<open>A component that no step of \<open>Clean\<close> removes or interprets.\<close>

definition plain_part :: "string \<Rightarrow> bool" where
  "plain_part p \<longleftrightarrow> p \<noteq> [] \<and> p \<noteq> ''.'' \<and> p \<noteq> ''..'' \<and> CHR ''/'' \<notin> set p"

lemma clean_step_plain [simp]: "plain_part p \<Longrightarrow> clean_step rooted stk p = p # stk"
  by (simp add: clean_step_def plain_part_def)

lemma Split_single: "sep \<notin> set p \<Longrightarrow> strings_Split sep p = [p]"
  by (induction p) auto

lemma Split_append_sep:
  "strings_Split sep (s @ sep # t) = strings_Split sep s @ strings_Split sep t"
proof (induction s)
  case (Cons c s)
  then show ?case by (cases "strings_Split sep s") auto
qed simp

lemma path_rooted_append [simp]: "s \<noteq> [] \<Longrightarrow> path_rooted (s @ t) = path_rooted s"
  by (cases s) (auto simp: path_rooted_def)

lemma clean_stack_snoc:
  assumes "s \<noteq> []" "plain_part p"
  shows "clean_stack (s @ ''/'' @ p) = p # clean_stack s"
proof -
  have "strings_Split (CHR ''/'') (s @ ''/'' @ p) = strings_Split (CHR ''/'') s @ [p]"
    using assms(2) Split_append_sep [of "CHR ''/''" s p]
    by (simp add: plain_part_def Split_single)
  then show ?thesis using assms by (simp add: clean_stack_def)
qed

text \<open>The components of a cleaned path: cleaning its rendering gives the same stack.\<close>

fun good_stack :: "bool \<Rightarrow> string list \<Rightarrow> bool" where
  "good_stack rooted [] = True"
| "good_stack rooted (p # ps) =
     (good_stack rooted ps \<and>
      (plain_part p \<or> (p = ''..'' \<and> \<not> rooted \<and> list_all (\<lambda>q. q = ''..'') ps)))"

lemma good_stack_step:
  "good_stack rooted stk \<Longrightarrow> CHR ''/'' \<notin> set p \<Longrightarrow> good_stack rooted (clean_step rooted stk p)"
  by (cases stk) (auto simp: clean_step_def plain_part_def)

lemma good_stack_foldl:
  "good_stack rooted stk \<Longrightarrow> \<forall>p \<in> set ps. CHR ''/'' \<notin> set p \<Longrightarrow>
    good_stack rooted (foldl (clean_step rooted) stk ps)"
  by (induction ps arbitrary: stk) (auto simp: good_stack_step)

lemma good_stack_clean: "good_stack (path_rooted p) (clean_stack p)"
  unfolding clean_stack_def using strings_Split_parts by (intro good_stack_foldl) auto

lemma good_stack_no_slash: "good_stack rooted stk \<Longrightarrow> p \<in> set stk \<Longrightarrow> CHR ''/'' \<notin> set p \<and> p \<noteq> []"
  by (induction stk) (auto simp: plain_part_def)

lemma foldl_good_stack: "good_stack rooted stk \<Longrightarrow> foldl (clean_step rooted) [] (rev stk) = stk"
proof (induction stk)
  case (Cons p ps)
  then show ?case
    by (cases ps) (auto simp: clean_step_def plain_part_def)
qed simp

lemma Split_Join:
  "ps \<noteq> [] \<Longrightarrow> \<forall>p \<in> set ps. sep \<notin> set p \<Longrightarrow> strings_Split sep (strings_Join ps [sep]) = ps"
  by (induction ps rule: induct_list012) (auto simp: Split_single Split_append_sep)

lemma path_rooted_Join:
  "\<forall>p \<in> set ps. CHR ''/'' \<notin> set p \<and> p \<noteq> [] \<Longrightarrow> \<not> path_rooted (strings_Join ps ''/'')"
  by (induction ps rule: induct_list012)
    (auto simp: path_rooted_def neq_Nil_conv split: list.splits)

lemma render_good_stack:
  assumes "good_stack rooted stk"
  shows "path_rooted (render_path rooted (rev stk)) = rooted"
    and "clean_stack (render_path rooted (rev stk)) = stk"
proof -
  have parts: "\<forall>p \<in> set (rev stk). CHR ''/'' \<notin> set p \<and> p \<noteq> []"
    using good_stack_no_slash [OF assms] by auto
  show root: "path_rooted (render_path rooted (rev stk)) = rooted"
    using path_rooted_Join [OF parts] by (auto simp: render_path_def path_rooted_def)
  have split: "foldl (clean_step rooted) []
      (strings_Split (CHR ''/'') (render_path rooted (rev stk))) = stk"
  proof (cases "stk = []")
    case True
    then show ?thesis by (simp add: render_path_def clean_step_def)
  next
    case False
    then have "strings_Split (CHR ''/'') (strings_Join (rev stk) ''/'') = rev stk"
      using Split_Join [of "rev stk" "CHR ''/''"] parts by auto
    then show ?thesis
      using False foldl_good_stack [OF assms]
      by (auto simp: render_path_def clean_step_def)
  qed
  show "clean_stack (render_path rooted (rev stk)) = stk"
    unfolding clean_stack_def root by (rule split)
qed

lemma Clean_parts [simp]:
  "path_rooted (filepath_Clean p) = path_rooted p"
  "path_parts (filepath_Clean p) = path_parts p"
  using render_good_stack [OF good_stack_clean [of p]]
  by (simp_all add: filepath_Clean_def path_parts_def)

lemma Clean_idem: "filepath_Clean (filepath_Clean p) = filepath_Clean p"
  using Clean_parts [of p] unfolding filepath_Clean_def [of "filepath_Clean p"]
  by (simp add: filepath_Clean_def)

lemma Clean_not_Nil [simp]: "filepath_Clean p \<noteq> []"
proof -
  have "strings_Join ps ''/'' \<noteq> []" if "ps \<noteq> []" "\<forall>p \<in> set ps. p \<noteq> []" for ps
    using that by (cases ps; cases "tl ps") auto
  moreover have "\<forall>q \<in> set (path_parts p). q \<noteq> []"
    using good_stack_no_slash [OF good_stack_clean [of p]] by (auto simp: path_parts_def)
  ultimately show ?thesis by (auto simp: filepath_Clean_def render_path_def)
qed

text \<open>Joining a plain component descends exactly one level below the directory.\<close>

lemma Join_plain:
  assumes "plain_part p"
  shows "path_parts (filepath_Join [dir, p]) = path_parts dir @ [p]"
    and "dir \<noteq> [] \<Longrightarrow> path_rooted (filepath_Join [dir, p]) = path_rooted dir"
proof -
  have p: "p \<noteq> []" using assms by (simp add: plain_part_def)
  show "path_parts (filepath_Join [dir, p]) = path_parts dir @ [p]"
  proof (cases "dir = []")
    case True
    have "clean_stack p = [p]" "clean_stack [] = []"
      using assms Split_single [of "CHR ''/''" p]
      by (simp_all add: clean_stack_def plain_part_def clean_step_def)
    then show ?thesis
      using True p Clean_parts(2) [of p] by (simp add: filepath_Join_def path_parts_def)
  next
    case False
    then show ?thesis
      using clean_stack_snoc [OF False assms] Clean_parts(2) [of "dir @ ''/'' @ p"]
      by (simp add: filepath_Join_def path_parts_def)
  qed
  show "path_rooted (filepath_Join [dir, p]) = path_rooted dir" if "dir \<noteq> []"
    using that p by (simp add: filepath_Join_def)
qed

lemma Join_plain_not_Nil: "plain_part p \<Longrightarrow> filepath_Join [dir, p] \<noteq> []"
  by (auto simp: filepath_Join_def plain_part_def split: list.splits)

lemma Join_snoc_append: "strings_Join (ps @ [p]) sep @ t = strings_Join (ps @ [p @ t]) sep"
  by (induction ps rule: induct_list012) simp_all

lemma filepath_Join_plain_append:
  assumes "plain_part p" "plain_part (p @ t)" "dir \<noteq> []"
  shows "filepath_Join [dir, p] @ t = filepath_Join [dir, p @ t]"
proof -
  have *: "filepath_Join [dir, q] = render_path (path_rooted dir) (path_parts dir @ [q])"
    if "plain_part q" for q
  proof -
    have "filepath_Join [dir, q] = filepath_Clean (dir @ ''/'' @ q)"
      using assms(3) by (simp add: filepath_Join_def)
    then show ?thesis
      using clean_stack_snoc [OF assms(3) that] assms(3) by (simp add: filepath_Clean_def path_parts_def)
  qed
  show ?thesis
    using Join_snoc_append by (simp add: * [OF assms(1)] * [OF assms(2)] render_path_def)
qed

section \<open>paths.go\<close>

definition DefaultDBName :: string where
  "DefaultDBName = ''wa_pipeline.db''"

definition cleanRoot :: "string \<Rightarrow> string \<Rightarrow> string" where
  "cleanRoot val home =
     (if val = ''~'' then home
      else if strings_HasPrefix val ''~/'' then filepath_Join [home, drop 2 val]
      else filepath_Clean val)"

text \<open>\<open>env\<close> is the value of \<open>WA_AGENT_PIPELINE_HOME\<close>, empty when it is not set.\<close>

definition Root :: "string \<Rightarrow> string \<Rightarrow> string" where
  "Root env home =
     (let v = strings_TrimSpace env
      in if v \<noteq> [] then cleanRoot v home
         else filepath_Join [home, ''wa-agent-pipeline''])"

definition DefaultDB :: "string \<Rightarrow> string" where
  "DefaultDB root = filepath_Join [root, ''db'', DefaultDBName]"

definition DefaultPath :: "string \<Rightarrow> string \<Rightarrow> string" where
  "DefaultPath env home = filepath_Join [Root env home, ''config'', ''whatsapp_groups.json'']"

definition DefaultSocketPath :: "string \<Rightarrow> string \<Rightarrow> string" where
  "DefaultSocketPath env home = filepath_Join [Root env home, ''whatsapp-daemon'', ''control.sock'']"

definition DefaultStatePath :: "string \<Rightarrow> string \<Rightarrow> string" where
  "DefaultStatePath root tenant = filepath_Join [root, ''state'', ''whatsapp_seen_ts.'' @ tenant]"

lemma Root_default: "strings_TrimSpace env = [] \<Longrightarrow>
    path_parts (Root env home) = path_parts home @ [''wa-agent-pipeline'']"
  by (simp add: Root_def Join_plain plain_part_def)

end
