(* ===== verification/Sqlite.thy ===== *)
theory Sqlite
  imports Prelude
begin

text \<open>
  \<open>internal/sqlite/sqlite.go\<close>: one connection to a SQLite database, as the transaction
  wrapper \<open>WithTx\<close> uses it. The connection's \<open>view\<close> is what its own statements read and
  write; while a transaction is open, \<open>saved\<close> is the committed state it began from. What
  other connections see, and what survives a crash, is the durable state. SQLite itself is
  not part of the sources: which of \<open>begin\<close> and \<open>commit\<close> fail, and whether a failed commit
  leaves the transaction open (\<open>SQLITE_BUSY\<close>) or rolled back, comes from the environment.
\<close>

record 't conn =
  view :: 't
  saved :: "'t option"

definition durable :: "'t conn \<Rightarrow> 't" where
  "durable c = (case saved c of None \<Rightarrow> view c | Some t \<Rightarrow> t)"

definition idle :: "'t conn \<Rightarrow> bool" where
  "idle c \<longleftrightarrow> saved c = None"

definition opened :: "'t \<Rightarrow> 't conn" where
  "opened t = \<lparr>view = t, saved = None\<rparr>"

datatype commit_outcome = CommitOk | CommitBusy go_error | CommitRolledBack go_error

record tx_env =
  begin_err :: "go_error option"
  commit_out :: commit_outcome

definition no_fault :: tx_env where
  "no_fault = \<lparr>begin_err = None, commit_out = CommitOk\<rparr>"

definition exec_begin :: "tx_env \<Rightarrow> 't conn \<Rightarrow> go_error option \<times> 't conn" where
  "exec_begin e c =
     (case begin_err e of
        Some er \<Rightarrow> (Some er, c)
      | None \<Rightarrow>
          (case saved c of
             Some _ \<Rightarrow> (Some (ErrMsg ''cannot start a transaction within a transaction''), c)
           | None \<Rightarrow> (None, c\<lparr>saved := Some (view c)\<rparr>)))"

definition exec_rollback :: "'t conn \<Rightarrow> 't conn" where
  "exec_rollback c = (case saved c of None \<Rightarrow> c | Some t \<Rightarrow> \<lparr>view = t, saved = None\<rparr>)"

definition exec_commit :: "tx_env \<Rightarrow> 't conn \<Rightarrow> go_error option \<times> 't conn" where
  "exec_commit e c =
     (case saved c of
        None \<Rightarrow> (Some (ErrMsg ''cannot commit - no transaction is active''), c)
      | Some t \<Rightarrow>
          (case commit_out e of
             CommitOk \<Rightarrow> (None, c\<lparr>saved := None\<rparr>)
           | CommitBusy er \<Rightarrow> (Some er, c)
           | CommitRolledBack er \<Rightarrow> (Some er, exec_rollback c)))"

text \<open>
  \<open>WithTx(fn)\<close>. The closure \<open>fn\<close> works on the tables and on the variables it captures;
  \<open>vars\<close> is their value before the call, which is what remains when \<open>begin\<close> fails.
\<close>

definition WithTx ::
  "tx_env \<Rightarrow> 'v \<Rightarrow> ('t \<Rightarrow> 'v \<times> 't \<times> go_error option) \<Rightarrow> 't conn \<Rightarrow> 'v \<times> go_error option \<times> 't conn"
where
  "WithTx e vars fn c =
     (case exec_begin e c of
        (Some er, c1) \<Rightarrow> (vars, Some er, c1)
      | (None, c1) \<Rightarrow>
          (case fn (view c1) of
             (v, t, Some er) \<Rightarrow> (v, Some er, exec_rollback (c1\<lparr>view := t\<rparr>))
           | (v, t, None) \<Rightarrow>
               (case exec_commit e (c1\<lparr>view := t\<rparr>) of (r, c2) \<Rightarrow> (v, r, c2))))"

lemma durable_opened [simp]: "durable (opened t) = t" "idle (opened t)" "view (opened t) = t"
  by (simp_all add: durable_def idle_def opened_def)

lemma durable_idle: "idle c \<Longrightarrow> durable c = view c"
  by (simp add: durable_def idle_def)

text \<open>The four ways a call of \<open>WithTx\<close> can end.\<close>

lemma WithTx_cases:
  obtains (not_begun) er where "WithTx e vars fn c = (vars, Some er, c)"
  | (fn_failed) v t er where "idle c" "fn (view c) = (v, t, Some er)"
      "WithTx e vars fn c = (v, Some er, c)"
  | (committed) v t where "idle c" "fn (view c) = (v, t, None)" "begin_err e = None"
      "commit_out e = CommitOk" "WithTx e vars fn c = (v, None, opened t)"
  | (commit_failed) v t er where "idle c" "fn (view c) = (v, t, None)"
      "WithTx e vars fn c = (v, Some er, \<lparr>view = t, saved = Some (view c)\<rparr>)"
  | (rolled_back) v t er where "idle c" "fn (view c) = (v, t, None)"
      "WithTx e vars fn c = (v, Some er, c)"
proof (cases "begin_err e = None \<and> saved c = None")
  case False
  then show thesis
    by (cases "begin_err e"; cases "saved c")
      (auto simp: WithTx_def exec_begin_def intro: not_begun)
next
  case True
  then have c: "c = \<lparr>view = view c, saved = None\<rparr>" "idle c" by (simp_all add: idle_def)
  have b: "exec_begin e c = (None, \<lparr>view = view c, saved = Some (view c)\<rparr>)"
    using True c(1) by (simp add: exec_begin_def)
  obtain v t r where fn: "fn (view c) = (v, t, r)" by (cases "fn (view c)")
  show thesis
  proof (cases r)
    case (Some er)
    then show thesis
      using fn b c by (intro fn_failed [of v t er]) (auto simp: WithTx_def exec_rollback_def)
  next
    case None
    show thesis
    proof (cases "commit_out e")
      case CommitOk
      then show thesis
        using fn b c None True
        by (intro committed [of v t]) (auto simp: WithTx_def exec_commit_def opened_def)
    next
      case (CommitBusy er)
      then show thesis
        using fn b c None
        by (intro commit_failed [of v t er]) (auto simp: WithTx_def exec_commit_def)
    next
      case (CommitRolledBack er)
      then show thesis
        using fn b c None
        by (intro rolled_back [of v t er])
          (auto simp: WithTx_def exec_commit_def exec_rollback_def)
    qed
  qed
qed

section \<open>The contract of a transactional store\<close>

text \<open>
  What the writer relies on: a transaction that reports an error has not changed the durable
  state, one that reports success has made exactly the closure's effect durable. The
  client's lemmas follow: an invariant of the tables kept by the closure is kept by the store.
\<close>

locale transactional =
  fixes tx :: "'e \<Rightarrow> 'v \<Rightarrow> ('t \<Rightarrow> 'v \<times> 't \<times> go_error option) \<Rightarrow> 'c \<Rightarrow> 'v \<times> go_error option \<times> 'c"
    and dur :: "'c \<Rightarrow> 't"
    and ready :: "'c \<Rightarrow> bool"
  assumes tx_error: "tx e v0 fn c = (v, Some er, c') \<Longrightarrow> dur c' = dur c"
    and tx_ok: "tx e v0 fn c = (v, None, c') \<Longrightarrow>
      ready c \<and> ready c' \<and> fn (dur c) = (v, dur c', None)"
begin

lemma tx_atomic: "tx e v0 fn c = (v, r, c') \<Longrightarrow>
    dur c' = dur c \<or> (r = None \<and> dur c' = fst (snd (fn (dur c))))"
  by (cases r) (auto dest: tx_error tx_ok)

lemma tx_invariant:
  assumes "tx e v0 fn c = (v, r, c')" "P (dur c)"
    and "\<And>v' t. fn (dur c) = (v', t, None) \<Longrightarrow> P t"
  shows "P (dur c')"
  using assms tx_error tx_ok by (cases r) fastforce+

lemma tx_not_ready: "\<not> ready c \<Longrightarrow> tx e v0 fn c = (v, r, c') \<Longrightarrow> r \<noteq> None \<and> dur c' = dur c"
  by (cases r) (auto dest: tx_error tx_ok)

end

interpretation tx: transactional WithTx durable idle
proof
  fix e v0 v er and fn :: "'b \<Rightarrow> 'a \<times> 'b \<times> go_error option" and c c' :: "'b conn"
  assume "WithTx e v0 fn c = (v, Some er, c')"
  then show "durable c' = durable c"
    by (cases rule: WithTx_cases [of e v0 fn c]) (auto simp: durable_def idle_def)
next
  fix e v0 v and fn :: "'b \<Rightarrow> 'a \<times> 'b \<times> go_error option" and c c' :: "'b conn"
  assume "WithTx e v0 fn c = (v, None, c')"
  then show "idle c \<and> idle c' \<and> fn (durable c) = (v, durable c', None)"
    by (cases rule: WithTx_cases [of e v0 fn c]) (auto simp: durable_idle)
qed

text \<open>Without faults, on an idle connection, the closure alone decides.\<close>

lemma WithTx_no_fault:
  assumes "idle c" "begin_err e = None" "commit_out e = CommitOk"
  shows "WithTx e v0 fn c =
    (case fn (view c) of (v, t, None) \<Rightarrow> (v, None, opened t) | (v, t, Some er) \<Rightarrow> (v, Some er, c))"
  using assms
  by (auto simp: WithTx_def exec_begin_def exec_commit_def exec_rollback_def opened_def idle_def
      split: prod.splits option.splits)

end
