(* ===== verification/Writer.thy ===== *)
theory Writer
  imports Config Paths Sqlite
begin

text \<open>
  \<open>internal/writer/writer.go\<close> over the tables of \<open>internal/writer/schema.sql\<close>: the message
  store. A row of a table is a record with one field per column (NULL is \<open>None\<close>), a table
  is the list of its rows, and the SQL statements of the source are the functions that do
  to these lists what the statements do, the foreign key of \<open>whatsapp_messages\<close> included.
  SHA-256 in hexadecimal is the parameter \<open>H\<close> of the definitions that hash; the
  environment record says which system calls and statements fail.
\<close>

section \<open>Data\<close>

record event =
  ev_ChatJID :: string
  ev_ChatLabel :: string
  ev_MsgID :: string
  ev_SenderJID :: string
  ev_SenderName :: string
  ev_Timestamp :: int64
  ev_FromMe :: bool
  ev_Text :: string
  ev_RawType :: int
  ev_MessageType :: string
  ev_MediaType :: string
  ev_MediaTitle :: string
  ev_MediaPath :: string
  ev_MediaURL :: string
  ev_MediaSize :: int64
  ev_MediaBytes :: string
  ev_MediaExt :: string
  ev_MediaHydrationStatus :: string
  ev_MediaHydrationAttempts :: int
  ev_SourcePK :: int64

record result =
  res_ID :: string
  res_Inserted :: bool
  res_Updated :: bool
  res_MediaPath :: string

definition zero_result :: result where
  "zero_result = \<lparr>res_ID = [], res_Inserted = False, res_Updated = False, res_MediaPath = []\<rparr>"

record group_row =
  gr_jid :: string
  gr_label :: string
  gr_purpose :: string
  gr_ingest_text :: bool
  gr_ingest_media_metadata :: bool
  gr_copy_media :: bool
  gr_index_embeddings :: bool
  gr_retention_days :: "int64 option"
  gr_updated_at :: int64

record message_row =
  mr_id :: string
  mr_source_pk :: int64
  mr_chat_jid :: string
  mr_chat_label :: string
  mr_msg_id :: string
  mr_sender_jid :: "string option"
  mr_sender_name :: "string option"
  mr_ts :: int64
  mr_from_me :: bool
  mr_text :: "string option"
  mr_raw_type :: int
  mr_message_type :: "string option"
  mr_media_type :: "string option"
  mr_media_title :: "string option"
  mr_media_path :: "string option"
  mr_media_url :: "string option"
  mr_media_size :: "int64 option"
  mr_text_hash :: string
  mr_ingested_at :: int64
  mr_deleted_or_missing :: int
  mr_media_local_path :: "string option"
  mr_media_extracted_text :: "string option"
  mr_media_extracted_by :: "string option"
  mr_media_hydrated_at :: "int64 option"
  mr_media_hydration_status :: "string option"
  mr_media_hydration_attempts :: int
  mr_media_surfaced_at :: "int64 option"

record run_row =
  rn_run_id :: string
  rn_started_at :: int64
  rn_finished_at :: "int64 option"
  rn_mode :: string
  rn_dry_run :: int
  rn_allowed_group_count :: nat
  rn_scanned :: int
  rn_inserted :: int
  rn_updated :: int
  rn_skipped :: int
  rn_media_copied :: int
  rn_status :: string

record fts_row =
  ft_id :: string
  ft_text :: string
  ft_chat_label :: string
  ft_sender_name :: string
  ft_media_title :: string

text \<open>\<open>t_fts\<close> is \<open>None\<close> where the FTS5 table does not exist.\<close>

record tables =
  t_groups :: "group_row list"
  t_messages :: "message_row list"
  t_runs :: "run_row list"
  t_fts :: "fts_row list option"

type_synonym files = "string \<Rightarrow> string option"

record writer =
  w_db :: "tables conn"
  w_mediaRoot :: string
  w_allowedGroupCount :: nat
  w_ftsUnavailable :: bool
  w_files :: files

text \<open>What the environment decides during one call of \<open>Write\<close>.\<close>

record media_io =
  mio_mkdir :: "go_error option"
  mio_open :: "go_error option"
  mio_write :: "(go_error \<times> nat) option"
  mio_sync :: "go_error option"
  mio_close :: "go_error option"
  mio_rename :: "go_error option"

record write_env =
  we_ctx :: "go_error option"
  we_now :: int64
  we_pk_query :: "go_error option"
  we_tx :: tx_env
  we_select :: "go_error option"
  we_upsert :: "go_error option"
  we_fts_delete :: "go_error option"
  we_fts_insert :: "go_error option"
  we_run :: "go_error option"
  we_media :: media_io
  we_mark_now :: int64
  we_mark_tx :: tx_env
  we_mark_message :: "go_error option"
  we_mark_run :: "go_error option"

section \<open>Hashes and keys\<close>

definition StableMessageID ::
  "(string \<Rightarrow> string) \<Rightarrow> string \<Rightarrow> string \<Rightarrow> string \<Rightarrow> int64 \<Rightarrow> int64 \<Rightarrow> string" where
  "StableMessageID H chatJID msgID senderJID ts sourcePK =
     H (strings_Join [chatJID, msgID, senderJID, strconv_FormatInt ts, strconv_FormatInt sourcePK]
          [CHR 0x00])"

definition TextHash :: "(string \<Rightarrow> string) \<Rightarrow> string \<Rightarrow> string \<Rightarrow> string" where
  "TextHash H text mediaTitle = H (text @ [CHR 0x00] @ mediaTitle)"

definition StableRunID :: "(string \<Rightarrow> string) \<Rightarrow> string \<Rightarrow> int64 \<Rightarrow> string" where
  "StableRunID H messageID now = take 32 (H (strconv_FormatInt now @ [CHR 0x00] @ messageID))"

definition nullEmpty :: "string \<Rightarrow> string option" where
  "nullEmpty v = (if v = [] then None else Some v)"

definition nullZero :: "int64 \<Rightarrow> int64 option" where
  "nullZero v = (if v = 0 then None else Some v)"

definition coalesce_empty :: "string option \<Rightarrow> string" where
  "coalesce_empty v = (case v of None \<Rightarrow> [] | Some s \<Rightarrow> s)"

lemma coalesce_nullEmpty [simp]: "coalesce_empty (nullEmpty s) = s"
  by (simp add: coalesce_empty_def nullEmpty_def)

section \<open>Media paths\<close>

definition safe_char :: "char \<Rightarrow> bool" where
  "safe_char c \<longleftrightarrow>
     (65 \<le> byte c \<and> byte c \<le> 90) \<or> (97 \<le> byte c \<and> byte c \<le> 122) \<or> is_digit c \<or>
     c \<in> set ''@._-''"

text \<open>
  \<open>unsafePath.ReplaceAllString(v, "_")\<close>: a maximal run of bytes outside the class becomes
  one underscore (a rune outside ASCII is a run of such bytes). The flag says whether the
  scan is inside a run.
\<close>

fun collapse_unsafe :: "bool \<Rightarrow> string \<Rightarrow> string" where
  "collapse_unsafe inside [] = []"
| "collapse_unsafe inside (c # s) =
     (if safe_char c then c # collapse_unsafe False s
      else if inside then collapse_unsafe True s
      else CHR ''_'' # collapse_unsafe True s)"

definition safePathPart :: "string \<Rightarrow> string" where
  "safePathPart v =
     (let t = strings_Trim (collapse_unsafe False v) ''._''
      in if t = [] then ''unknown'' else t)"

definition cleanExt :: "(string \<Rightarrow> string) \<Rightarrow> string \<Rightarrow> string" where
  "cleanExt ulower ext =
     (if ext = [] then []
      else let e = (if strings_HasPrefix ext ''.'' then ext else CHR ''.'' # ext)
           in if CHR ''/'' \<in> set e \<or> CHR 0x5C \<in> set e \<or> length e > 12 then []
              else strings_ToLower ulower e)"

definition extForType :: "(string \<Rightarrow> string) \<Rightarrow> string \<Rightarrow> string" where
  "extForType ulower t =
     (let l = strings_ToLower ulower t in
      if l = ''image'' then ''.jpg''
      else if l = ''video'' then ''.mp4''
      else if l = ''audio'' \<or> l = ''ptt'' then ''.ogg''
      else if l = ''sticker'' then ''.webp''
      else ''.bin'')"

definition media_dir :: "string \<Rightarrow> event \<Rightarrow> string" where
  "media_dir root ev = filepath_Join [root, safePathPart (ev_ChatJID ev)]"

definition media_final :: "(string \<Rightarrow> string) \<Rightarrow> string \<Rightarrow> event \<Rightarrow> string" where
  "media_final ulower root ev =
     (let e = cleanExt ulower (ev_MediaExt ev);
          ext = (if e = [] then extForType ulower (ev_MessageType ev) else e)
      in filepath_Join [media_dir root ev, safePathPart (ev_MsgID ev) @ ext])"

definition writeMedia ::
  "(string \<Rightarrow> string) \<Rightarrow> media_io \<Rightarrow> string \<Rightarrow> event \<Rightarrow> files \<Rightarrow> (go_error + string) \<times> files" where
  "writeMedia ulower io root ev fs =
     (let final = media_final ulower root ev; tmp = final @ ''.tmp'' in
      case mio_mkdir io of Some e \<Rightarrow> (Inl e, fs) | None \<Rightarrow>
      case mio_open io of Some e \<Rightarrow> (Inl e, fs) | None \<Rightarrow>
      case mio_write io of
        Some (e, n) \<Rightarrow> (Inl e, fs(tmp \<mapsto> take n (ev_MediaBytes ev))) | None \<Rightarrow>
      let written = fs(tmp \<mapsto> ev_MediaBytes ev) in
      case mio_sync io of Some e \<Rightarrow> (Inl e, written) | None \<Rightarrow>
      case mio_close io of Some e \<Rightarrow> (Inl e, written) | None \<Rightarrow>
      case mio_rename io of Some e \<Rightarrow> (Inl e, written) | None \<Rightarrow>
      (Inr final, (written(tmp := None))(final \<mapsto> ev_MediaBytes ev)))"

section \<open>Statements\<close>

definition message_of ::
  "string \<Rightarrow> int64 \<Rightarrow> string \<Rightarrow> string option \<Rightarrow> int \<Rightarrow> event \<Rightarrow> message_row" where
  "message_of i now thash status attempts ev =
     \<lparr>mr_id = i, mr_source_pk = ev_SourcePK ev, mr_chat_jid = ev_ChatJID ev,
      mr_chat_label = ev_ChatLabel ev, mr_msg_id = ev_MsgID ev,
      mr_sender_jid = nullEmpty (ev_SenderJID ev), mr_sender_name = nullEmpty (ev_SenderName ev),
      mr_ts = ev_Timestamp ev, mr_from_me = ev_FromMe ev, mr_text = nullEmpty (ev_Text ev),
      mr_raw_type = ev_RawType ev, mr_message_type = nullEmpty (ev_MessageType ev),
      mr_media_type = nullEmpty (ev_MediaType ev), mr_media_title = nullEmpty (ev_MediaTitle ev),
      mr_media_path = nullEmpty (ev_MediaPath ev), mr_media_url = nullEmpty (ev_MediaURL ev),
      mr_media_size = nullZero (ev_MediaSize ev), mr_text_hash = thash, mr_ingested_at = now,
      mr_deleted_or_missing = 0, mr_media_local_path = None, mr_media_extracted_text = None,
      mr_media_extracted_by = None, mr_media_hydrated_at = None,
      mr_media_hydration_status = status, mr_media_hydration_attempts = attempts,
      mr_media_surfaced_at = None\<rparr>"

text \<open>The \<open>on conflict(id) do update set\<close> clause; \<open>x\<close> is the row \<open>excluded\<close>.\<close>

definition merge_message :: "message_row \<Rightarrow> message_row \<Rightarrow> message_row" where
  "merge_message x old =
     old\<lparr>mr_sender_name := mr_sender_name x, mr_text := mr_text x,
         mr_message_type := mr_message_type x, mr_media_type := mr_media_type x,
         mr_media_title := mr_media_title x, mr_media_path := mr_media_path x,
         mr_media_url := mr_media_url x, mr_media_size := mr_media_size x,
         mr_text_hash := mr_text_hash x, mr_ingested_at := mr_ingested_at x,
         mr_deleted_or_missing := 0,
         mr_media_hydration_status :=
           (if mr_media_hydration_status x \<noteq> None then mr_media_hydration_status x
            else mr_media_hydration_status old),
         mr_media_hydration_attempts :=
           (if mr_media_hydration_status x \<noteq> None
            then mr_media_hydration_attempts old + mr_media_hydration_attempts x
            else mr_media_hydration_attempts old)\<rparr>"

text \<open>
  The insert into \<open>whatsapp_messages\<close>: a new row needs its chat in \<open>whatsapp_groups\<close>
  (\<open>pragma foreign_keys = on\<close>); the update of an existing row does not touch the key.
\<close>

definition exec_upsert_message ::
  "go_error option \<Rightarrow> message_row \<Rightarrow> tables \<Rightarrow> go_error + tables" where
  "exec_upsert_message fault row t =
     (case fault of
        Some e \<Rightarrow> Inl e
      | None \<Rightarrow>
          if row_of mr_id (mr_id row) (t_messages t) = None \<and>
             mr_chat_jid row \<notin> gr_jid ` set (t_groups t)
          then Inl (ErrMsg ''FOREIGN KEY constraint failed'')
          else Inr (t\<lparr>t_messages := upsert mr_id merge_message row (t_messages t)\<rparr>))"

definition no_fts_table :: go_error where
  "no_fts_table = ErrMsg ''no such table: whatsapp_messages_fts''"

definition exec_fts_delete :: "go_error option \<Rightarrow> string \<Rightarrow> tables \<Rightarrow> go_error + tables" where
  "exec_fts_delete fault i t =
     (case t_fts t of
        None \<Rightarrow> Inl no_fts_table
      | Some rows \<Rightarrow>
          (case fault of Some e \<Rightarrow> Inl e
           | None \<Rightarrow> Inr (t\<lparr>t_fts := Some (filter (\<lambda>r. ft_id r \<noteq> i) rows)\<rparr>)))"

definition exec_fts_insert :: "go_error option \<Rightarrow> fts_row \<Rightarrow> tables \<Rightarrow> go_error + tables" where
  "exec_fts_insert fault r t =
     (case t_fts t of
        None \<Rightarrow> Inl no_fts_table
      | Some rows \<Rightarrow>
          (case fault of Some e \<Rightarrow> Inl e | None \<Rightarrow> Inr (t\<lparr>t_fts := Some (rows @ [r])\<rparr>)))"

definition isFTSUnavailable :: "go_error \<Rightarrow> bool" where
  "isFTSUnavailable e \<longleftrightarrow>
     strings_Contains (Error e) ''no such module: fts5'' \<or>
     strings_Contains (Error e) ''no such table: whatsapp_messages_fts''"

text \<open>The flag \<open>w.ftsUnavailable\<close> after the call, and the error that is passed on.\<close>

definition handleFTSError :: "go_error \<Rightarrow> bool \<times> go_error option" where
  "handleFTSError e = (if isFTSUnavailable e then (True, None) else (False, Some e))"

definition refreshFTSTx ::
  "write_env \<Rightarrow> bool \<Rightarrow> string \<Rightarrow> event \<Rightarrow> tables \<Rightarrow> bool \<times> tables \<times> go_error option" where
  "refreshFTSTx env unavailable i ev t =
     (if unavailable then (True, t, None)
      else case exec_fts_delete (we_fts_delete env) i t of
             Inl e \<Rightarrow> (case handleFTSError e of (u, r) \<Rightarrow> (u, t, r))
           | Inr t1 \<Rightarrow>
               (case exec_fts_insert (we_fts_insert env)
                       \<lparr>ft_id = i, ft_text = ev_Text ev, ft_chat_label = ev_ChatLabel ev,
                        ft_sender_name = ev_SenderName ev, ft_media_title = ev_MediaTitle ev\<rparr> t1 of
                  Inl e \<Rightarrow> (case handleFTSError e of (u, r) \<Rightarrow> (u, t1, r))
                | Inr t2 \<Rightarrow> (False, t2, None)))"

definition merge_run :: "run_row \<Rightarrow> run_row \<Rightarrow> run_row" where
  "merge_run x old =
     old\<lparr>rn_finished_at := rn_finished_at x,
         rn_scanned := rn_scanned old + rn_scanned x,
         rn_inserted := rn_inserted old + rn_inserted x,
         rn_updated := rn_updated old + rn_updated x,
         rn_skipped := rn_skipped old + rn_skipped x,
         rn_status := rn_status x\<rparr>"

definition run_row_of ::
  "(string \<Rightarrow> string) \<Rightarrow> nat \<Rightarrow> string \<Rightarrow> int64 \<Rightarrow> result \<Rightarrow> bool \<Rightarrow> run_row" where
  "run_row_of H group_count i now res mediaPending =
     \<lparr>rn_run_id = StableRunID H i now, rn_started_at = now, rn_finished_at = Some now,
      rn_mode = ''whatsmeow-live'', rn_dry_run = 0,
      rn_allowed_group_count = group_count, rn_scanned = 1,
      rn_inserted = (if res_Inserted res then 1 else 0),
      rn_updated = (if \<not> res_Inserted res \<and> res_Updated res then 1 else 0),
      rn_skipped = (if \<not> res_Inserted res \<and> \<not> res_Updated res then 1 else 0),
      rn_media_copied = 0, rn_status = (if mediaPending then ''pending'' else ''ok'')\<rparr>"

definition recordRun ::
  "(string \<Rightarrow> string) \<Rightarrow> go_error option \<Rightarrow> nat \<Rightarrow> string \<Rightarrow> int64 \<Rightarrow> result \<Rightarrow> bool \<Rightarrow> tables \<Rightarrow>
     string \<times> tables \<times> go_error option" where
  "recordRun H fault group_count i now res mediaPending t =
     (let runID = StableRunID H i now in
      case fault of
        Some e \<Rightarrow> (runID, t, Some e)
      | None \<Rightarrow>
          (runID,
           t\<lparr>t_runs := upsert rn_run_id merge_run
                (run_row_of H group_count i now res mediaPending) (t_runs t)\<rparr>, None))"

section \<open>Write\<close>

text \<open>The natural key of a message, as \<open>sourcePKFor\<close> looks it up.\<close>

definition natural_key :: "message_row \<Rightarrow> string \<times> string \<times> string \<times> int64" where
  "natural_key r = (mr_chat_jid r, mr_msg_id r, coalesce_empty (mr_sender_jid r), mr_ts r)"

definition event_key :: "event \<Rightarrow> string \<times> string \<times> string \<times> int64" where
  "event_key ev = (ev_ChatJID ev, ev_MsgID ev, ev_SenderJID ev, ev_Timestamp ev)"

definition sourcePKFor :: "go_error option \<Rightarrow> event \<Rightarrow> tables \<Rightarrow> int64" where
  "sourcePKFor query_err ev t =
     (if ev_SourcePK ev \<noteq> 0 then ev_SourcePK ev
      else case query_err of
             Some _ \<Rightarrow> 0
           | None \<Rightarrow>
               (case sort_key (\<lambda>r. - mr_source_pk r)
                       (filter (\<lambda>r. natural_key r = event_key ev) (t_messages t)) of
                  [] \<Rightarrow> 0
                | r # _ \<Rightarrow> mr_source_pk r))"

text \<open>The closure \<open>Write\<close> runs in its transaction, with the variables it captures.\<close>

definition write_tx ::
  "(string \<Rightarrow> string) \<Rightarrow> write_env \<Rightarrow> nat \<Rightarrow> event \<Rightarrow> string \<Rightarrow> string \<Rightarrow>
     result \<times> string \<times> bool \<Rightarrow> tables \<Rightarrow> (result \<times> string \<times> bool) \<times> tables \<times> go_error option" where
  "write_tx H env group_count ev i thash vars t =
     (case vars of (res0, run0, fts0) \<Rightarrow>
      case we_select env of
        Some e \<Rightarrow> (vars, t, Some e)
      | None \<Rightarrow>
          let existing = row_of mr_id i (t_messages t);
              status = nullEmpty (ev_MediaHydrationStatus ev);
              attempts = (if status = None then 0 else ev_MediaHydrationAttempts ev);
              res = res0\<lparr>res_Inserted := existing = None,
                        res_Updated :=
                          (case existing of
                             None \<Rightarrow> False
                           | Some r \<Rightarrow> mr_text_hash r \<noteq> thash \<or> status \<noteq> None)\<rparr>
          in case exec_upsert_message (we_upsert env)
                    (message_of i (we_now env) thash status attempts ev) t of
               Inl e \<Rightarrow> ((res, run0, fts0), t, Some e)
             | Inr t1 \<Rightarrow>
                 (case refreshFTSTx env fts0 i ev t1 of
                    (fts1, t2, Some e) \<Rightarrow> ((res, run0, fts1), t2, Some e)
                  | (fts1, t2, None) \<Rightarrow>
                      (case recordRun H (we_run env) group_count i (we_now env) res
                              (ev_MediaBytes ev \<noteq> []) t2 of
                         (runID, t3, r) \<Rightarrow> ((res, runID, fts1), t3, r))))"

definition mark_tx ::
  "go_error option \<Rightarrow> go_error option \<Rightarrow> (message_row \<Rightarrow> message_row) \<Rightarrow> (run_row \<Rightarrow> run_row) \<Rightarrow>
     string \<Rightarrow> string \<Rightarrow> tables \<Rightarrow> unit \<times> tables \<times> go_error option" where
  "mark_tx message_fault run_fault fm fr i runID t =
     (case message_fault of
        Some e \<Rightarrow> ((), t, Some e)
      | None \<Rightarrow>
          let t1 = t\<lparr>t_messages := update_where (\<lambda>r. mr_id r = i) fm (t_messages t)\<rparr>
          in case run_fault of
               Some e \<Rightarrow> ((), t1, Some e)
             | None \<Rightarrow> ((), t1\<lparr>t_runs := update_where (\<lambda>r. rn_run_id r = runID) fr (t_runs t1)\<rparr>, None))"

definition hydrate_message :: "string \<Rightarrow> int64 \<Rightarrow> message_row \<Rightarrow> message_row" where
  "hydrate_message path now r =
     r\<lparr>mr_media_local_path := Some path, mr_media_hydrated_at := Some now,
       mr_media_hydration_status := Some ''ok'',
       mr_media_hydration_attempts := mr_media_hydration_attempts r + 1,
       mr_media_surfaced_at := None\<rparr>"

definition fail_message :: "message_row \<Rightarrow> message_row" where
  "fail_message r =
     r\<lparr>mr_media_hydration_status := Some ''failed'',
       mr_media_hydration_attempts := mr_media_hydration_attempts r + 1\<rparr>"

definition markMediaOK ::
  "write_env \<Rightarrow> string \<Rightarrow> string \<Rightarrow> string \<Rightarrow> writer \<Rightarrow> go_error option \<times> writer" where
  "markMediaOK env i runID path w =
     (case WithTx (we_mark_tx env) ()
             (mark_tx (we_mark_message env) (we_mark_run env)
                (hydrate_message path (we_mark_now env))
                (\<lambda>r. r\<lparr>rn_status := ''ok'', rn_media_copied := rn_media_copied r + 1\<rparr>) i runID)
             (w_db w) of
        (_, r, c) \<Rightarrow> (r, w\<lparr>w_db := c\<rparr>))"

definition markMediaFailure ::
  "write_env \<Rightarrow> string \<Rightarrow> string \<Rightarrow> writer \<Rightarrow> go_error option \<times> writer" where
  "markMediaFailure env i runID w =
     (case WithTx (we_mark_tx env) ()
             (mark_tx (we_mark_message env) (we_mark_run env) fail_message
                (\<lambda>r. r\<lparr>rn_status := ''ok''\<rparr>) i runID)
             (w_db w) of
        (_, r, c) \<Rightarrow> (r, w\<lparr>w_db := c\<rparr>))"

text \<open>
  The block \<open>if len(ev.MediaBytes) > 0\<close> that follows the committed transaction.
\<close>

definition write_media_step ::
  "(string \<Rightarrow> string) \<Rightarrow> write_env \<Rightarrow> event \<Rightarrow> string \<Rightarrow> string \<Rightarrow> result \<Rightarrow> writer \<Rightarrow>
     (result \<times> go_error option) \<times> writer" where
  "write_media_step ulower env ev i runID res w =
     (if ev_MediaBytes ev = [] then ((res, None), w)
      else
        case writeMedia ulower (we_media env) (w_mediaRoot w) ev (w_files w) of
          (Inl e, fs) \<Rightarrow>
            (case markMediaFailure env i runID (w\<lparr>w_files := fs\<rparr>) of
               (Some m, w2) \<Rightarrow>
                 ((res, Some (ErrWrap ''write media: '' e (''; mark media failure: '' @ Error m))), w2)
             | (None, w2) \<Rightarrow> ((res, Some e), w2))
        | (Inr path, fs) \<Rightarrow>
            let res1 = res\<lparr>res_MediaPath := path,
                          res_Updated := res_Updated res \<or> \<not> res_Inserted res\<rparr>
            in (case markMediaOK env i runID path (w\<lparr>w_files := fs\<rparr>) of
                  (r, w2) \<Rightarrow> ((res1, r), w2)))"

definition Write ::
  "(string \<Rightarrow> string) \<Rightarrow> (string \<Rightarrow> string) \<Rightarrow> write_env \<Rightarrow> event \<Rightarrow> writer \<Rightarrow>
     (result \<times> go_error option) \<times> writer" where
  "Write H ulower env ev0 w =
     (case we_ctx env of
        Some e \<Rightarrow> ((zero_result, Some e), w)
      | None \<Rightarrow>
          if ev_ChatJID ev0 = [] \<or> ev_MsgID ev0 = [] \<or> ev_Timestamp ev0 = 0
          then ((zero_result, Some (ErrMsg ''event missing chat_jid, msg_id, or timestamp'')), w)
          else
            let pk = sourcePKFor (we_pk_query env) ev0 (view (w_db w));
                ev = ev0\<lparr>ev_SourcePK := pk\<rparr>;
                i = StableMessageID H (ev_ChatJID ev) (ev_MsgID ev) (ev_SenderJID ev)
                      (ev_Timestamp ev) (ev_SourcePK ev);
                thash = TextHash H (ev_Text ev) (ev_MediaTitle ev);
                vars0 = (zero_result\<lparr>res_ID := i\<rparr>, [], w_ftsUnavailable w)
            in case WithTx (we_tx env) vars0
                      (write_tx H env (w_allowedGroupCount w) ev i thash vars0) (w_db w) of
                 ((res, runID, fts), Some e, c) \<Rightarrow>
                   ((zero_result, Some e), w\<lparr>w_db := c, w_ftsUnavailable := fts\<rparr>)
               | ((res, runID, fts), None, c) \<Rightarrow>
                   write_media_step ulower env ev i runID res
                     (w\<lparr>w_db := c, w_ftsUnavailable := fts\<rparr>))"

section \<open>EnsureGroups\<close>

definition group_row_of :: "int64 \<Rightarrow> group \<Rightarrow> group_row" where
  "group_row_of now g =
     \<lparr>gr_jid = g_JID g, gr_label = g_Label g, gr_purpose = g_Purpose g,
      gr_ingest_text = g_IngestText g, gr_ingest_media_metadata = g_IngestMediaMetadata g,
      gr_copy_media = g_CopyMedia g, gr_index_embeddings = g_IndexEmbeddings g,
      gr_retention_days = g_RetentionDays g, gr_updated_at = now\<rparr>"

definition merge_group :: "group_row \<Rightarrow> group_row \<Rightarrow> group_row" where
  "merge_group x old =
     old\<lparr>gr_label := gr_label x, gr_purpose := gr_purpose x, gr_ingest_text := gr_ingest_text x,
         gr_ingest_media_metadata := gr_ingest_media_metadata x,
         gr_copy_media := gr_copy_media x, gr_index_embeddings := gr_index_embeddings x,
         gr_retention_days := gr_retention_days x, gr_updated_at := gr_updated_at x\<rparr>"

text \<open>\<open>fault jid\<close> is the error of the statement for that group, if it fails.\<close>

fun ensure_groups_tx ::
  "(string \<Rightarrow> go_error option) \<Rightarrow> int64 \<Rightarrow> group list \<Rightarrow> tables \<Rightarrow> unit \<times> tables \<times> go_error option" where
  "ensure_groups_tx fault now [] t = ((), t, None)"
| "ensure_groups_tx fault now (g # gs) t =
     (case fault (g_JID g) of
        Some e \<Rightarrow> ((), t, Some e)
      | None \<Rightarrow> ensure_groups_tx fault now gs
          (t\<lparr>t_groups := upsert gr_jid merge_group (group_row_of now g) (t_groups t)\<rparr>))"

definition EnsureGroups ::
  "tx_env \<Rightarrow> (string \<Rightarrow> go_error option) \<Rightarrow> int64 \<Rightarrow> group list \<Rightarrow> writer \<Rightarrow> go_error option \<times> writer"
where
  "EnsureGroups e fault now gs w =
     (case WithTx e () (ensure_groups_tx fault now gs) (w_db w) of
        (_, r, c) \<Rightarrow> (r, w\<lparr>w_allowedGroupCount := length gs, w_db := c\<rparr>))"

end
