(* ===== verification/Go_Time.thy ===== *)
theory Go_Time
  imports Go_Strings
begin

text \<open>
  The part of Go's \<open>time\<close> package the daemon uses on UTC times given in Unix seconds: the
  calendar date of an instant (\<open>Time.Date\<close>), its weekday, and the three layouts of
  \<open>Time.Format\<close> in the sources. The calendar is the proleptic Gregorian one, computed with
  Go's decomposition into cycles of 400, 100, 4 and 1 years. Go's internal
  representation overflows only for instants billions of years away; that is not modelled.
\<close>

section \<open>Civil dates\<close>

definition unix_day :: "int64 \<Rightarrow> int" where
  "unix_day t = t div 86400"

definition is_leap :: "int \<Rightarrow> bool" where
  "is_leap y \<longleftrightarrow> y mod 4 = 0 \<and> (y mod 100 \<noteq> 0 \<or> y mod 400 = 0)"

text \<open>Year and zero-based day of the year, from the days since 0001-01-01.\<close>

definition year_day :: "int \<Rightarrow> int \<times> int" where
  "year_day d =
     (let n400 = d div 146097; d1 = d mod 146097;
          n100 = min 3 (d1 div 36524); d2 = d1 - 36524 * n100;
          n4 = d2 div 1461; d3 = d2 mod 1461;
          n1 = min 3 (d3 div 365)
      in (400 * n400 + 100 * n100 + 4 * n4 + n1 + 1, d3 - 365 * n1))"

definition month_lengths :: "bool \<Rightarrow> int list" where
  "month_lengths leap = [31, if leap then 29 else 28, 31, 30, 31, 30, 31, 31, 30, 31, 30, 31]"

fun month_day :: "nat \<Rightarrow> int list \<Rightarrow> int \<Rightarrow> nat \<times> int" where
  "month_day m [] d = (m, d + 1)"
| "month_day m (l # ls) d = (if d < l then (m, d + 1) else month_day (Suc m) ls (d - l))"

definition civil_date :: "int \<Rightarrow> int \<times> nat \<times> int" where
  "civil_date d =
     (let (y, yd) = year_day d; (m, md) = month_day 1 (month_lengths (is_leap y)) yd
      in (y, m, md))"

text \<open>
  The seconds from the epoch of the time that \<open>time.Unix(t, 0)\<close> denotes. A \<open>Time\<close> counts its
  seconds from the year 1 in 64 bits, so the last 1969 years before \<open>2 ^ 63\<close> wrap around.
\<close>

definition time_Unix :: "int64 \<Rightarrow> int64" where
  "time_Unix t = wrap64 (t + 62135596800) - 62135596800"

text \<open>\<open>time.Unix(t, 0).UTC().Date()\<close>; 719162 days separate 0001-01-01 and 1970-01-01.\<close>

definition utc_Date :: "int64 \<Rightarrow> int \<times> nat \<times> int" where
  "utc_Date t = civil_date (unix_day t + 719162)"

lemma div_between:
  fixes x k :: int
  assumes "0 < k"
  shows "k * (x div k) \<le> x" "x < k * (x div k) + k"
  using mult_div_mod_eq [of k x] pos_mod_sign [OF assms, of x] pos_mod_bound [OF assms, of x]
  by linarith+

lemma year_day_decomp:
  obtains n400 n100 n4 n1 yd where
    "year_day d = (400 * n400 + 100 * n100 + 4 * n4 + n1 + 1, yd)"
    "d = 146097 * n400 + 36524 * n100 + 1461 * n4 + 365 * n1 + yd"
    "0 \<le> n100" "n100 \<le> 3" "0 \<le> n4" "n4 \<le> 24" "0 \<le> n1" "n1 \<le> 3"
proof -
  define n400 where "n400 = d div 146097"
  define d1 where "d1 = d mod 146097"
  define n100 where "n100 = min 3 (d1 div 36524)"
  define d2 where "d2 = d1 - 36524 * n100"
  define n4 where "n4 = d2 div 1461"
  define d3 where "d3 = d2 mod 1461"
  define n1 where "n1 = min 3 (d3 div 365)"
  have d1: "0 \<le> d1" "d1 < 146097" "d = 146097 * n400 + d1"
    unfolding d1_def n400_def by (simp_all only: mult_div_mod_eq pos_mod_sign pos_mod_bound zero_less_numeral)
  have d2: "0 \<le> n100" "n100 \<le> 3" "0 \<le> d2" "d2 < 36525"
  proof -
    note q = div_between [of 36524 d1, simplified]
    have q0: "0 \<le> d1 div 36524" using d1(1) by (simp add: pos_imp_zdiv_nonneg_iff)
    show "0 \<le> n100" "n100 \<le> 3" using q0 by (simp_all add: n100_def)
    show "0 \<le> d2" "d2 < 36525"
    proof (atomize (full), cases "d1 div 36524 \<le> 3")
      case True
      then have "n100 = d1 div 36524" by (simp add: n100_def)
      then show "0 \<le> d2 \<and> d2 < 36525" using q by (simp add: d2_def)
    next
      case False
      then have "n100 = 3" by (simp add: n100_def)
      then show "0 \<le> d2 \<and> d2 < 36525" using q False d1(2) by (simp add: d2_def)
    qed
  qed
  have d3: "0 \<le> n4" "n4 \<le> 24" "0 \<le> d3" "d3 < 1461" "d2 = 1461 * n4 + d3"
  proof -
    note q = div_between [of 1461 d2, simplified]
    show "0 \<le> n4" using d2(3) by (simp add: n4_def pos_imp_zdiv_nonneg_iff)
    show "n4 \<le> 24" using q d2(4) unfolding n4_def by linarith
    show "0 \<le> d3" "d3 < 1461" "d2 = 1461 * n4 + d3" by (simp_all add: d3_def n4_def)
  qed
  have n1: "0 \<le> n1" "n1 \<le> 3"
    using d3(3) by (simp_all add: n1_def pos_imp_zdiv_nonneg_iff)
  have "year_day d = (400 * n400 + 100 * n100 + 4 * n4 + n1 + 1, d3 - 365 * n1)"
    unfolding year_day_def Let_def n400_def d1_def n100_def d2_def n4_def d3_def n1_def
    by (rule refl)
  moreover have "d = 146097 * n400 + 36524 * n100 + 1461 * n4 + 365 * n1 + (d3 - 365 * n1)"
    using d1(3) d3(5) unfolding d2_def by linarith
  ultimately show thesis using d2(1,2) d3(1,2) n1 by (rule that)
qed

lemma year_day_inj: "year_day d = year_day e \<Longrightarrow> d = e"
proof -
  assume eq: "year_day d = year_day e"
  obtain a b c f yd where d:
    "year_day d = (400 * a + 100 * b + 4 * c + f + 1, yd)"
    "d = 146097 * a + 36524 * b + 1461 * c + 365 * f + yd"
    "0 \<le> b" "b \<le> 3" "0 \<le> c" "c \<le> 24" "0 \<le> f" "f \<le> 3"
    by (rule year_day_decomp [of d])
  obtain a' b' c' f' yd' where e:
    "year_day e = (400 * a' + 100 * b' + 4 * c' + f' + 1, yd')"
    "e = 146097 * a' + 36524 * b' + 1461 * c' + 365 * f' + yd'"
    "0 \<le> b'" "b' \<le> 3" "0 \<le> c'" "c' \<le> 24" "0 \<le> f'" "f' \<le> 3"
    by (rule year_day_decomp [of e])
  have y: "400 * a + 100 * b + 4 * c + f = 400 * a' + 100 * b' + 4 * c' + f'" and "yd = yd'"
    using eq d(1) e(1) by auto
  moreover have "a = a'"
  proof -
    have "0 \<le> 100 * b + 4 * c + f" "100 * b + 4 * c + f < 400"
      "0 \<le> 100 * b' + 4 * c' + f'" "100 * b' + 4 * c' + f' < 400"
      using d(3-) e(3-) by simp_all
    with y show ?thesis by linarith
  qed
  moreover have "b = b'"
  proof -
    have "0 \<le> 4 * c + f" "4 * c + f < 100" "0 \<le> 4 * c' + f'" "4 * c' + f' < 100"
      using d(5-) e(5-) by simp_all
    with y \<open>a = a'\<close> show ?thesis by linarith
  qed
  moreover have "c = c'"
    using y \<open>a = a'\<close> \<open>b = b'\<close> d(7,8) e(7,8) by linarith
  ultimately show "d = e" using d(2) e(2) by simp
qed

lemma month_day_ge: "fst (month_day m ls d) \<ge> m"
  by (induction m ls d rule: month_day.induct) auto

lemma month_day_inj: "month_day m ls d = month_day m ls e \<Longrightarrow> d = e"
proof (induction m ls d arbitrary: e rule: month_day.induct)
  case (2 m l ls d)
  have ge: "fst (month_day (Suc m) ls x) \<noteq> m" for x
    using month_day_ge [of "Suc m" ls x] by simp
  show ?case
  proof (cases "d < l \<or> e < l")
    case True
    then show ?thesis
      using "2.prems" ge [of "d - l"] ge [of "e - l"]
      by (auto split: if_splits dest: arg_cong [where f = fst])
  next
    case False
    then have "d - l = e - l" using "2.IH" [of "e - l"] "2.prems" by simp
    then show ?thesis by simp
  qed
qed simp

lemma civil_date_inj: "civil_date d = civil_date e \<Longrightarrow> d = e"
proof -
  assume "civil_date d = civil_date e"
  then have "fst (year_day d) = fst (year_day e)"
    "month_day 1 (month_lengths (is_leap (fst (year_day d)))) (snd (year_day d)) =
     month_day 1 (month_lengths (is_leap (fst (year_day e)))) (snd (year_day e))"
    by (auto simp: civil_date_def Let_def split: prod.splits)
  then have "year_day d = year_day e"
    using month_day_inj by (metis prod.expand)
  then show "d = e" by (rule year_day_inj)
qed

lemma utc_Date_eq_iff: "utc_Date s = utc_Date t \<longleftrightarrow> unix_day s = unix_day t"
  using civil_date_inj by (fastforce simp: utc_Date_def)

section \<open>Formatting\<close>

text \<open>\<open>appendInt(x, width)\<close>: a minus sign, then the digits padded with zeros.\<close>

definition pad_int :: "nat \<Rightarrow> int \<Rightarrow> string" where
  "pad_int w x =
     (if x < 0 then ''-'' else []) @
     (let ds = show_nat (nat \<bar>x\<bar>) in replicate (w - length ds) (CHR ''0'') @ ds)"

definition month_names :: "string list" where
  "month_names = [''Jan'', ''Feb'', ''Mar'', ''Apr'', ''May'', ''Jun'',
     ''Jul'', ''Aug'', ''Sep'', ''Oct'', ''Nov'', ''Dec'']"

definition day_names :: "string list" where
  "day_names = [''Sun'', ''Mon'', ''Tue'', ''Wed'', ''Thu'', ''Fri'', ''Sat'']"

text \<open>1970-01-01 was a Thursday.\<close>

definition weekday_name :: "int64 \<Rightarrow> string" where
  "weekday_name t = day_names ! nat ((unix_day t + 4) mod 7)"

definition clock_hm :: "int64 \<Rightarrow> string" where
  "clock_hm t = pad_int 2 ((t mod 86400) div 3600) @ '':'' @ pad_int 2 ((t mod 3600) div 60)"

definition date_ymd :: "int64 \<Rightarrow> string" where
  "date_ymd t =
     (case utc_Date t of (y, m, d) \<Rightarrow> pad_int 4 y @ ''-'' @ pad_int 2 (int m) @ ''-'' @ pad_int 2 d)"

text \<open>Layout \<open>2006-01-02 15:04 UTC\<close>.\<close>

definition format_utc_minute :: "int64 \<Rightarrow> string" where
  "format_utc_minute t = date_ymd t @ '' '' @ clock_hm t @ '' UTC''"

text \<open>Layout \<open>Mon 02 Jan 2006 15:04\<close>.\<close>

definition format_day_time :: "int64 \<Rightarrow> string" where
  "format_day_time t =
     (case utc_Date t of (y, m, d) \<Rightarrow>
        weekday_name t @ '' '' @ pad_int 2 d @ '' '' @ (month_names ! (m - 1)) @ '' '' @
        pad_int 4 y @ '' '' @ clock_hm t)"

text \<open>Layout \<open>time.RFC3339\<close> of a UTC time.\<close>

definition format_rfc3339 :: "int64 \<Rightarrow> string" where
  "format_rfc3339 t = date_ymd t @ ''T'' @ clock_hm t @ '':'' @ pad_int 2 (t mod 60) @ ''Z''"

section \<open>Durations\<close>

text \<open>
  \<open>Duration.String\<close> over nanoseconds, and \<open>Round\<close> for positive durations, halves up.
\<close>

definition fraction :: "nat \<Rightarrow> int \<Rightarrow> string" where
  "fraction w x =
     (let ds = rev (dropWhile (\<lambda>c. c = CHR ''0'') (rev (pad_int w x)))
      in if ds = [] then [] else ''.'' @ ds)"

definition duration_String :: "int \<Rightarrow> string" where
  "duration_String d =
     (let u = \<bar>d\<bar>; sign = (if d < 0 then ''-'' else []) in
      if u = 0 then ''0s''
      else if u < 1000 then sign @ pad_int 1 u @ ''ns''
      else if u < 1000000 then sign @ pad_int 1 (u div 1000) @ fraction 3 (u mod 1000) @ [CHR 0xC2, CHR 0xB5] @ ''s''
      else if u < 1000000000 then sign @ pad_int 1 (u div 1000000) @ fraction 6 (u mod 1000000) @ ''ms''
      else
        let secs = u div 1000000000; mins = secs div 60; hours = mins div 60;
            tail = pad_int 1 (secs mod 60) @ fraction 9 (u mod 1000000000) @ ''s''
        in if mins = 0 then sign @ tail
           else if hours = 0 then sign @ pad_int 1 mins @ ''m'' @ tail
           else sign @ pad_int 1 hours @ ''h'' @ pad_int 1 (mins mod 60) @ ''m'' @ tail)"

definition duration_Round :: "int \<Rightarrow> int \<Rightarrow> int" where
  "duration_Round d m = (let r = d mod m in if r + r < m then d - r else d + m - r)"

end
