(* ===== verification/Go_Float.thy ===== *)
theory Go_Float
  imports Go_Strings
begin

text \<open>
  Go's \<open>float64\<close> as far as the reader computes with it: a finite value is \<open>m * 2 ^ e\<close> with
  an integer mantissa (the sign of zero is not kept, nothing here depends on it), rounding
  is to nearest, ties to even, on 53 bits, with gradual underflow and overflow to infinity.
\<close>

datatype float64 = Finite int int | Infinite bool | NotANumber

fun bit_count :: "nat \<Rightarrow> nat" where
  "bit_count n = (if n = 0 then 0 else Suc (bit_count (n div 2)))"

declare bit_count.simps [simp del]

lemma bit_count_bound: "n < 2 ^ bit_count n"
proof (induction n rule: bit_count.induct)
  case (1 n)
  show ?case
  proof (cases "n = 0")
    case False
    then have "n div 2 < 2 ^ bit_count (n div 2)" using 1 by simp
    then show ?thesis using False by (simp add: bit_count.simps [of n])
  qed (simp add: bit_count.simps)
qed

lemma bit_count_least: "n < 2 ^ k \<Longrightarrow> bit_count n \<le> k"
proof (induction n arbitrary: k rule: bit_count.induct)
  case (1 n)
  show ?case
  proof (cases "n = 0")
    case False
    then obtain j where "k = Suc j" using "1.prems" by (cases k) auto
    then have "n div 2 < 2 ^ j" using "1.prems" by auto
    then show ?thesis
      using "1.IH" [OF False] False \<open>k = Suc j\<close> by (simp add: bit_count.simps [of n])
  qed (simp add: bit_count.simps)
qed

text \<open>\<open>m div 2 ^ s\<close> rounded to nearest, ties to even.\<close>

definition round_half_even :: "nat \<Rightarrow> nat \<Rightarrow> nat" where
  "round_half_even m d =
     (let q = m div d; r = m mod d
      in if 2 * r > d \<or> (2 * r = d \<and> odd q) then q + 1 else q)"

definition round64 :: "int \<Rightarrow> int \<Rightarrow> float64" where
  "round64 m e =
     (let a = nat \<bar>m\<bar>;
          s = nat (max (int (bit_count a) - 53) (- 1074 - e));
          q = round_half_even a (2 ^ s)
      in if int (bit_count q) + e + int s > 1024 then Infinite (m < 0)
         else Finite (sgn m * int q) (e + int s))"

definition float_of_int64 :: "int64 \<Rightarrow> float64" where
  "float_of_int64 n = round64 n 0"

fun float_times :: "float64 \<Rightarrow> float64 \<Rightarrow> float64" where
  "float_times (Finite m e) (Finite n f) = round64 (m * n) (e + f)"
| "float_times NotANumber _ = NotANumber"
| "float_times _ NotANumber = NotANumber"
| "float_times (Infinite s) (Infinite t) = Infinite (s \<noteq> t)"
| "float_times (Infinite s) (Finite n f) = (if n = 0 then NotANumber else Infinite (s \<noteq> (n < 0)))"
| "float_times (Finite m e) (Infinite t) = (if m = 0 then NotANumber else Infinite (t \<noteq> (m < 0)))"

text \<open>\<open>m * 2 ^ e - n * 2 ^ f\<close> as mantissa and exponent, exactly.\<close>

definition exact_minus :: "int \<Rightarrow> int \<Rightarrow> int \<Rightarrow> int \<Rightarrow> int \<times> int" where
  "exact_minus m e n f =
     (let g = min e f in (m * 2 ^ nat (e - g) - n * 2 ^ nat (f - g), g))"

fun float_minus :: "float64 \<Rightarrow> float64 \<Rightarrow> float64" where
  "float_minus (Finite m e) (Finite n f) = (case exact_minus m e n f of (p, g) \<Rightarrow> round64 p g)"
| "float_minus NotANumber _ = NotANumber"
| "float_minus _ NotANumber = NotANumber"
| "float_minus (Infinite s) (Infinite t) = (if s = t then NotANumber else Infinite s)"
| "float_minus (Infinite s) (Finite n f) = Infinite s"
| "float_minus (Finite m e) (Infinite t) = Infinite (\<not> t)"

text \<open>
  \<open>x - y * z\<close>. A Go compiler may fuse the two operations into one rounding, as it does on
  arm64; \<open>fused\<close> says which was done.
\<close>

fun float_minus_times :: "bool \<Rightarrow> float64 \<Rightarrow> float64 \<Rightarrow> float64 \<Rightarrow> float64" where
  "float_minus_times True (Finite m e) (Finite n f) (Finite p g) =
     (case exact_minus m e (n * p) (f + g) of (q, h) \<Rightarrow> round64 q h)"
| "float_minus_times fused x y z = float_minus x (float_times y z)"

text \<open>
  \<open>int64(f)\<close> truncates toward zero; outside the range of \<open>int64\<close> Go leaves the result to
  the implementation, the parameter \<open>oob\<close>.
\<close>

definition int64_of_float :: "(float64 \<Rightarrow> int64) \<Rightarrow> float64 \<Rightarrow> int64" where
  "int64_of_float oob x =
     (case x of
        Finite m e \<Rightarrow>
          let v = (if e \<ge> 0 then m * 2 ^ nat e else sgn m * (\<bar>m\<bar> div 2 ^ nat (- e)))
          in if is_int64 v then v else oob x
      | _ \<Rightarrow> oob x)"

section \<open>Exact cases\<close>

lemma round_half_even_1 [simp]: "round_half_even m (Suc 0) = m"
  by (simp add: round_half_even_def)

lemma round64_exact:
  assumes "\<bar>m\<bar> < 2 ^ 53"
  shows "round64 m 0 = Finite m 0"
proof -
  have "nat \<bar>m\<bar> < 2 ^ 53" using assms by (simp add: nat_less_iff)
  then have "bit_count (nat \<bar>m\<bar>) \<le> 53" by (rule bit_count_least)
  then show ?thesis by (simp add: round64_def Let_def sgn_mult_abs)
qed

lemma float_minus_times_exact:
  assumes "\<bar>a\<bar> < 2 ^ 53" "\<bar>b * c\<bar> < 2 ^ 53" "\<bar>a - b * c\<bar> < 2 ^ 53"
  shows "float_minus_times fused (Finite a 0) (Finite b 0) (Finite c 0) = Finite (a - b * c) 0"
  using assms by (cases fused) (simp_all add: exact_minus_def round64_exact)

lemma int64_of_float_exact: "is_int64 m \<Longrightarrow> int64_of_float oob (Finite m 0) = m"
  by (simp add: int64_of_float_def)

section \<open>Printing with one decimal\<close>

text \<open>\<open>fmt.Sprintf("%.1f", float64(n) / 2 ^ k)\<close>: dividing by a power of two is exact here.\<close>

definition format_tenths :: "int64 \<Rightarrow> nat \<Rightarrow> string" where
  "format_tenths n k =
     (case float_of_int64 n of
        Finite m e \<Rightarrow>
          let t = (if e - int k \<ge> 0 then nat \<bar>m\<bar> * 10 * 2 ^ nat (e - int k)
                   else round_half_even (nat \<bar>m\<bar> * 10) (2 ^ nat (int k - e)))
          in (if n < 0 then ''-'' else []) @ show_nat (t div 10) @ ''.'' @ show_nat (t mod 10)
      | _ \<Rightarrow> [])"

end
