(* ===== verification/Unseen.thy ===== *)
theory Unseen
  imports Writer Go_Time Go_Float
begin

text \<open>
  \<open>internal/unseen/unseen.go\<close>: the reader that prints what a tenant has not seen and moves
  the tenant's cursor. It reads the configuration file on its own, the messages and the
  ingest runs of the store, and its state file; it writes its report, the state file and
  the surfaced mark of hydrated media. The daemon may write to the store between two of the
  reader's statements: the environment record says what it does there.
\<close>

section \<open>Options and rows\<close>

definition DefaultOverlap :: int64 where "DefaultOverlap = 1800"
definition IngestMargin :: int64 where "IngestMargin = 60"
definition HydratedSnippetChars :: nat where "HydratedSnippetChars = 600"

definition skipTypes :: "string list" where
  "skipTypes = [''reaction'', ''sticker'', ''system'', ''group_event'', ''type_46'', ''type_66'', ''ptt'']"

definition mediaTypes :: "string list" where
  "mediaTypes = [''image'', ''document'', ''video'', ''audio'']"

record options =
  o_DBPath :: string
  o_ConfigPath :: string
  o_Tenant :: string
  o_StatePath :: string
  o_SinceHours :: "float64 option"
  o_NoAdvance :: bool

record messageRow =
  u_ID :: string
  u_ChatJID :: string
  u_ChatLabel :: string
  u_SenderName :: "string option"
  u_TS :: int64
  u_MessageType :: "string option"
  u_MediaType :: "string option"
  u_MediaTitle :: "string option"
  u_MediaPath :: "string option"
  u_MediaLocalPath :: "string option"
  u_MediaSize :: "int64 option"
  u_MediaExtractedText :: "string option"
  u_MediaExtractedBy :: "string option"
  u_MediaHydratedAt :: "int64 option"
  u_MediaHydrationStatus :: "string option"
  u_MediaSurfacedAt :: "int64 option"
  u_Text :: string
  u_Display :: string
  u_NeedsSurfaceMark :: bool

definition nullString :: "string option \<Rightarrow> string" where
  "nullString v = (case v of None \<Rightarrow> [] | Some s \<Rightarrow> s)"

definition nullInt :: "int64 option \<Rightarrow> int64" where
  "nullInt v = (case v of None \<Rightarrow> 0 | Some n \<Rightarrow> n)"

section \<open>The tenant's chats\<close>

record configFile =
  cg_Enabled :: bool
  cg_Groups :: "(string \<times> json) list list"

definition set_configFile_member :: "configFile \<Rightarrow> string \<times> json \<Rightarrow> configFile option" where
  "set_configFile_member c kv =
     (let k = fold_key (fst kv); j = snd kv in
      if k = ''enabled'' then map_option (\<lambda>v. c\<lparr>cg_Enabled := v\<rparr>) (dec_bool (cg_Enabled c) j)
      else if k = ''groups'' then
        map_option (\<lambda>v. c\<lparr>cg_Groups := v\<rparr>)
          (case j of JNull \<Rightarrow> Some [] | JArr js \<Rightarrow> map_opt dec_raw_map js | _ \<Rightarrow> None)
      else Some c)"

fun dec_configFile :: "json \<Rightarrow> configFile option" where
  "dec_configFile JNull = Some \<lparr>cg_Enabled = False, cg_Groups = []\<rparr>"
| "dec_configFile (JObj kvs) =
     fold_opt set_configFile_member \<lparr>cg_Enabled = False, cg_Groups = []\<rparr> kvs"
| "dec_configFile _ = None"

definition rawString :: "json option \<Rightarrow> string \<Rightarrow> string" where
  "rawString raw fallback =
     (case raw of
        None \<Rightarrow> fallback
      | Some j \<Rightarrow> (case dec_string [] j of None \<Rightarrow> fallback | Some s \<Rightarrow> s))"

definition invalidTenantsError :: "(string \<times> json) list \<Rightarrow> go_error" where
  "invalidTenantsError grp =
     ErrMsg (''invalid or missing tenants for group '' @
       rawString (map_of grp ''jid'') ''<missing jid>'' @ '': expected non-empty list of strings'')"

definition tenant_value :: "json \<Rightarrow> string option" where
  "tenant_value j =
     (case j of
        JStr s \<Rightarrow> (let t = strings_TrimSpace s in if t = [] then None else Some t)
      | _ \<Rightarrow> None)"

definition groupTenants :: "(string \<times> json) list \<Rightarrow> go_error + string list" where
  "groupTenants grp =
     (case map_of grp ''tenants'' of
        None \<Rightarrow> Inl (invalidTenantsError grp)
      | Some raw \<Rightarrow>
          (case raw of
             JArr vs \<Rightarrow>
               if vs = [] then Inl (invalidTenantsError grp)
               else (case map_opt tenant_value vs of
                       None \<Rightarrow> Inl (invalidTenantsError grp)
                     | Some out \<Rightarrow> Inr out)
           | _ \<Rightarrow> Inl (invalidTenantsError grp)))"

fun tenant_jids :: "string \<Rightarrow> (string \<times> json) list list \<Rightarrow> go_error + string list" where
  "tenant_jids tenant [] = Inr []"
| "tenant_jids tenant (g # gs) =
     (case groupTenants g of
        Inl e \<Rightarrow> Inl e
      | Inr tenants \<Rightarrow>
          let jid = strings_TrimSpace (rawString (map_of g ''jid'') []) in
          (case tenant_jids tenant gs of
             Inl e \<Rightarrow> Inl e
           | Inr jids \<Rightarrow> Inr (if jid \<noteq> [] \<and> tenant \<in> set tenants then jid # jids else jids)))"

definition TenantGroupJIDs ::
  "go_error + string \<Rightarrow> string \<Rightarrow> go_error + string list" where
  "TenantGroupJIDs content tenant =
     (case content of
        Inl e \<Rightarrow> Inl e
      | Inr b \<Rightarrow>
          (case Option.bind (json_Unmarshal b) dec_configFile of
             None \<Rightarrow> Inl (ErrMsg ''json'')
           | Some cfg \<Rightarrow> if cg_Enabled cfg then tenant_jids tenant (cg_Groups cfg) else Inr []))"

section \<open>The cursor\<close>

text \<open>What \<open>os.ReadFile\<close> makes of the state file.\<close>

datatype state_file = NotExist | Unreadable go_error | Contents string

definition cutoffFor ::
  "bool \<Rightarrow> (float64 \<Rightarrow> int64) \<Rightarrow> int64 \<Rightarrow> state_file \<Rightarrow> float64 option \<Rightarrow> go_error + int64" where
  "cutoffFor fused oob now st sinceHours =
     (case sinceHours of
        Some h \<Rightarrow>
          (case h of
             Finite m e \<Rightarrow> if m = 0 then Inr 0
               else Inr (int64_of_float oob
                      (float_minus_times fused (float_of_int64 now) h (Finite 3600 0)))
           | _ \<Rightarrow> Inr (int64_of_float oob
                      (float_minus_times fused (float_of_int64 now) h (Finite 3600 0))))
      | None \<Rightarrow>
          (case st of
             Contents b \<Rightarrow>
               (case strconv_ParseInt (strings_TrimSpace b) of
                  None \<Rightarrow> Inr (wrap64 (now - 24 * 3600))
                | Some prior \<Rightarrow>
                    let cutoff = wrap64 (prior - DefaultOverlap)
                    in Inr (if cutoff < 0 then 0 else cutoff))
           | NotExist \<Rightarrow> Inr (wrap64 (now - 24 * 3600))
           | Unreadable e \<Rightarrow> Inl e))"

definition priorCursor :: "state_file \<Rightarrow> go_error + int64" where
  "priorCursor st =
     (case st of
        NotExist \<Rightarrow> Inr 0
      | Unreadable e \<Rightarrow> Inl e
      | Contents b \<Rightarrow>
          (case strconv_ParseInt (strings_TrimSpace b) of None \<Rightarrow> Inr 0 | Some n \<Rightarrow> Inr n))"

section \<open>The query\<close>

text \<open>The sort key of \<open>order by chat_label, ts\<close>: the label bytewise, then the time.\<close>

datatype row_key = RowKey string int64

instantiation row_key :: linorder
begin

fun less_eq_row_key :: "row_key \<Rightarrow> row_key \<Rightarrow> bool" where
  "less_eq_row_key (RowKey l t) (RowKey m u) \<longleftrightarrow> l < m \<or> (l = m \<and> t \<le> u)"

fun less_row_key :: "row_key \<Rightarrow> row_key \<Rightarrow> bool" where
  "less_row_key (RowKey l t) (RowKey m u) \<longleftrightarrow> l < m \<or> (l = m \<and> t < u)"

instance
proof
  fix x y z :: row_key
  show "x < y \<longleftrightarrow> x \<le> y \<and> \<not> y \<le> x" by (cases x; cases y) auto
  show "x \<le> x" by (cases x) simp
  show "x \<le> y \<Longrightarrow> y \<le> z \<Longrightarrow> x \<le> z" by (cases x; cases y; cases z) auto
  show "x \<le> y \<Longrightarrow> y \<le> x \<Longrightarrow> x = y" by (cases x; cases y) auto
  show "x \<le> y \<or> y \<le> x" by (cases x; cases y) auto
qed

end

definition scan_row :: "message_row \<Rightarrow> messageRow" where
  "scan_row r =
     \<lparr>u_ID = mr_id r, u_ChatJID = mr_chat_jid r, u_ChatLabel = mr_chat_label r,
      u_SenderName = mr_sender_name r, u_TS = mr_ts r, u_MessageType = mr_message_type r,
      u_MediaType = mr_media_type r, u_MediaTitle = mr_media_title r,
      u_MediaPath = mr_media_path r, u_MediaLocalPath = mr_media_local_path r,
      u_MediaSize = mr_media_size r, u_MediaExtractedText = mr_media_extracted_text r,
      u_MediaExtractedBy = mr_media_extracted_by r, u_MediaHydratedAt = mr_media_hydrated_at r,
      u_MediaHydrationStatus = mr_media_hydration_status r,
      u_MediaSurfacedAt = mr_media_surfaced_at r, u_Text = coalesce_empty (mr_text r),
      u_Display = [], u_NeedsSurfaceMark = False\<rparr>"

definition selected :: "string list \<Rightarrow> int64 \<Rightarrow> message_row \<Rightarrow> bool" where
  "selected jids cutoff r \<longleftrightarrow>
     \<not> mr_from_me r \<and> mr_chat_jid r \<in> set jids \<and>
     (mr_ts r \<ge> cutoff \<or> (mr_media_hydrated_at r \<noteq> None \<and> mr_media_surfaced_at r = None))"

text \<open>
  The order in which SQLite finds rows with equal sort keys is not specified: \<open>scan\<close> is the
  permutation of the table it happens to take.
\<close>

definition fetchRows ::
  "go_error option \<Rightarrow> (message_row list \<Rightarrow> message_row list) \<Rightarrow> string list \<Rightarrow> int64 \<Rightarrow> tables \<Rightarrow>
     go_error + messageRow list" where
  "fetchRows fault scan jids cutoff t =
     (case fault of
        Some e \<Rightarrow> Inl e
      | None \<Rightarrow> Inr (map scan_row
          (sort_key (\<lambda>r. RowKey (mr_chat_label r) (mr_ts r))
             (filter (selected jids cutoff) (scan (t_messages t))))))"

section \<open>Display\<close>

text \<open>The characters of the report outside ASCII, in UTF-8.\<close>

definition ellipsis :: string where "ellipsis = [CHR 0xE2, CHR 0x80, CHR 0xA6]"
definition arrow :: string where "arrow = [CHR 0xE2, CHR 0x86, CHR 0x92]"
definition middle_dot :: string where "middle_dot = [CHR 0xC2, CHR 0xB7]"
definition em_dash :: string where "em_dash = [CHR 0xE2, CHR 0x80, CHR 0x94]"
definition newline :: char where "newline = CHR 0x0A"

definition truncateRunes :: "string \<Rightarrow> nat \<Rightarrow> string \<times> bool" where
  "truncateRunes val limit =
     (if length (runes val) \<le> limit then (val, False)
      else (concat (take limit (runes val)), True))"

definition humanSize :: "int64 \<Rightarrow> string" where
  "humanSize n =
     (if n < 1048576 then format_tenths n 10 @ ''KB''
      else if n < 1073741824 then format_tenths n 20 @ ''MB''
      else format_tenths n 30 @ ''GB'')"

definition media_detail :: "messageRow \<Rightarrow> string list" where
  "media_detail row =
     (let title = strings_TrimSpace (nullString (u_MediaTitle row)) in
      if title \<noteq> [] \<and> strings_Contains title ''.'' \<and> utf8_RuneCountInString title \<le> 200 \<and>
         \<not> strings_Contains title ''/'' \<and> \<not> strings_Contains title ''+''
      then [title]
      else let path = nullString (u_MediaPath row); ext = filepath_Ext path
           in if path \<noteq> [] \<and> ext \<noteq> [] then [CHR ''*'' # ext] else [])"

definition mediaPlaceholder :: "(string \<Rightarrow> string) \<Rightarrow> messageRow \<Rightarrow> string" where
  "mediaPlaceholder ulower row =
     (let m = strings_ToLower ulower (nullString (u_MessageType row));
          mtype = (if m = [] then ''media'' else m);
          size = nullInt (u_MediaSize row);
          parts = [mtype] @ media_detail row @ (if size \<noteq> 0 then [humanSize size] else [])
      in case parts of
           [a, b, c] \<Rightarrow> ''['' @ a @ '': '' @ b @ '' '' @ middle_dot @ '' '' @ c @ '']''
         | [a, b] \<Rightarrow> ''['' @ a @ '': '' @ b @ '']''
         | _ \<Rightarrow> ''['' @ mtype @ '']'')"

definition base_display :: "(string \<Rightarrow> string) \<Rightarrow> messageRow \<Rightarrow> string" where
  "base_display ulower row =
     (let mtype = strings_ToLower ulower (nullString (u_MessageType row));
          text = strings_TrimSpace (u_Text row)
      in if text \<noteq> [] then text
         else if mtype \<in> set mediaTypes then mediaPlaceholder ulower row
         else ''['' @ (if mtype = [] then ''unknown'' else mtype) @ '']'')"

definition displayFor :: "(string \<Rightarrow> string) \<Rightarrow> messageRow \<Rightarrow> string" where
  "displayFor ulower row =
     (let display = base_display ulower row;
          extracted = strings_TrimSpace (nullString (u_MediaExtractedText row));
          extractedBy = strings_TrimSpace (nullString (u_MediaExtractedBy row));
          localPath = nullString (u_MediaLocalPath row)
      in if nullInt (u_MediaHydratedAt row) = 0 \<or> u_MediaSurfacedAt row \<noteq> None then display
         else if extracted \<noteq> [] then
           (case truncateRunes extracted HydratedSnippetChars of
              (s, truncated) \<Rightarrow>
                let snippet = replace_char newline '' / '' s @ (if truncated then ellipsis else []);
                    tag = (if extractedBy \<noteq> [] then ''extracted ('' @ extractedBy @ '')'' else ''extracted'')
                in display @ '' '' @ arrow @ '' '' @ tag @ '': '' @ snippet)
         else if localPath \<noteq> [] then
           display @ '' '' @ arrow @ '' file: '' @ localPath @ '' (id: '' @ u_ID row @
             ''; open with `read` if action-relevant)''
         else display)"

section \<open>The report\<close>

text \<open>
  \<open>byGroup\<close> and \<open>groupOrder\<close> in one list: the labels in the order in which they first
  appear, each with its messages in their order.
\<close>

fun add_to_group :: "messageRow \<Rightarrow> (string \<times> messageRow list) list \<Rightarrow> (string \<times> messageRow list) list" where
  "add_to_group m [] = [(u_ChatLabel m, [m])]"
| "add_to_group m ((l, ms) # gs) =
     (if l = u_ChatLabel m then (l, ms @ [m]) # gs else (l, ms) # add_to_group m gs)"

definition group_messages :: "messageRow list \<Rightarrow> (string \<times> messageRow list) list" where
  "group_messages msgs = foldl (\<lambda>gs m. add_to_group m gs) [] msgs"

definition message_line :: "messageRow \<Rightarrow> string" where
  "message_line m =
     (let display = replace_char (CHR 0x0D) '' '' (replace_char newline '' / '' (u_Display m));
          s = nullString (u_SenderName m); sender = (if s = [] then ''?'' else s)
      in ''- ['' @ format_day_time (u_TS m) @ ''] ['' @ sender @ ''] '' @ display @ [newline])"

definition group_block :: "string \<times> messageRow list \<Rightarrow> string" where
  "group_block g =
     (case g of (label, ms) \<Rightarrow>
        ''## '' @ label @ '' '' @ em_dash @ '' jid: `'' @ u_ChatJID (hd ms) @ ''`  ('' @
        show_nat (length ms) @ '' messages)'' @ [newline, newline] @
        concat (map message_line ms) @ [newline])"

definition writeOutput :: "int64 \<Rightarrow> messageRow list \<Rightarrow> string" where
  "writeOutput cutoff msgs =
     (let groups = group_messages msgs in
      ''# Unseen parent-group messages since '' @ format_utc_minute cutoff @ [newline] @
      ''# '' @ show_nat (length msgs) @ '' messages across '' @ show_nat (length groups) @
      '' group(s)'' @ [newline, newline] @
      (if msgs = [] then ''(no new messages)'' @ [newline] else []) @
      concat (map group_block groups))"

section \<open>Advancing the cursor\<close>

definition ok_finished :: "tables \<Rightarrow> int64 list" where
  "ok_finished t =
     map (\<lambda>r. the (rn_finished_at r))
       (filter (\<lambda>r. rn_status r = ''ok'' \<and> rn_dry_run r = 0 \<and> rn_finished_at r \<noteq> None) (t_runs t))"

definition latestOKIngestFinishedAt :: "go_error option \<Rightarrow> tables \<Rightarrow> go_error + int64 option" where
  "latestOKIngestFinishedAt fault t =
     (case fault of
        Some e \<Rightarrow> Inl e
      | None \<Rightarrow> Inr (case ok_finished t of [] \<Rightarrow> None | x # xs \<Rightarrow> Some (foldl max x xs)))"

definition markSurfaced :: "go_error option \<Rightarrow> messageRow list \<Rightarrow> int64 \<Rightarrow> tables \<Rightarrow> go_error option \<times> tables" where
  "markSurfaced fault msgs now t =
     (let ids = map u_ID (filter u_NeedsSurfaceMark msgs) in
      if ids = [] then (None, t)
      else case fault of
             Some e \<Rightarrow> (Some e, t)
           | None \<Rightarrow> (None, t\<lparr>t_messages :=
               update_where (\<lambda>r. mr_id r \<in> set ids) (\<lambda>r. r\<lparr>mr_media_surfaced_at := Some now\<rparr>)
                 (t_messages t)\<rparr>))"

record text_io =
  tio_mkdir :: "go_error option"
  tio_open :: "go_error option"
  tio_write :: "(go_error \<times> nat) option"
  tio_sync :: "go_error option"
  tio_close :: "go_error option"
  tio_rename :: "go_error option"
  tio_remove :: "go_error option"

text \<open>The temporary file, and what the deferred clean-up leaves of it.\<close>

definition text_tmp :: "nat \<Rightarrow> string \<Rightarrow> string" where
  "text_tmp pid path =
     filepath_Join [filepath_Dir path, ''.'' @ filepath_Base path @ ''.tmp.'' @ show_nat pid]"

definition cleanup_tmp :: "text_io \<Rightarrow> string \<Rightarrow> files \<Rightarrow> files" where
  "cleanup_tmp io tmp fs = (if tio_remove io = None then fs(tmp := None) else fs)"

definition atomicWriteText ::
  "text_io \<Rightarrow> nat \<Rightarrow> string \<Rightarrow> string \<Rightarrow> files \<Rightarrow> go_error option \<times> files" where
  "atomicWriteText io pid path body fs =
     (let tmp = text_tmp pid path in
      case tio_mkdir io of Some e \<Rightarrow> (Some e, fs) | None \<Rightarrow>
      case tio_open io of Some e \<Rightarrow> (Some e, fs) | None \<Rightarrow>
      case tio_write io of
        Some (e, n) \<Rightarrow> (Some e, cleanup_tmp io tmp (fs(tmp \<mapsto> take n body))) | None \<Rightarrow>
      let written = fs(tmp \<mapsto> body) in
      case tio_sync io of Some e \<Rightarrow> (Some e, cleanup_tmp io tmp written) | None \<Rightarrow>
      case tio_close io of Some e \<Rightarrow> (Some e, cleanup_tmp io tmp written) | None \<Rightarrow>
      case tio_rename io of Some e \<Rightarrow> (Some e, cleanup_tmp io tmp written) | None \<Rightarrow>
      (None, (written(tmp := None))(path \<mapsto> body)))"

section \<open>The run\<close>

text \<open>
  What the reader's environment decides: the clock, the configuration file, faults, and
  what the daemon does to the tables after the reader's query and after its second one.
\<close>

record reader_env =
  ue_now :: int64
  ue_config :: "go_error + string"
  ue_read1 :: "go_error option"
  ue_read2 :: "go_error option"
  ue_fetch :: "go_error option"
  ue_scan :: "message_row list \<Rightarrow> message_row list"
  ue_daemon1 :: "tables \<Rightarrow> tables"
  ue_latest :: "go_error option"
  ue_daemon2 :: "tables \<Rightarrow> tables"
  ue_mark :: "go_error option"
  ue_text_io :: text_io
  ue_pid :: nat

record reader =
  rd_tables :: tables
  rd_files :: files
  rd_out :: string
  rd_err :: string

definition read_state :: "go_error option \<Rightarrow> string \<Rightarrow> files \<Rightarrow> state_file" where
  "read_state fault path fs =
     (case fault of
        Some e \<Rightarrow> Unreadable e
      | None \<Rightarrow> (case fs path of None \<Rightarrow> NotExist | Some b \<Rightarrow> Contents b))"

definition shown_rows :: "(string \<Rightarrow> string) \<Rightarrow> messageRow list \<Rightarrow> messageRow list" where
  "shown_rows ulower rows =
     map (\<lambda>row. row\<lparr>u_Display := displayFor ulower row,
               u_NeedsSurfaceMark :=
                 (nullInt (u_MediaHydratedAt row) \<noteq> 0 \<and> u_MediaSurfacedAt row = None)\<rparr>)
       (filter (\<lambda>row. strings_ToLower ulower (nullString (u_MessageType row)) \<notin> set skipTypes) rows)"

definition warning_none :: string where
  "warning_none = ''# WARNING: no successful ingest run on record; cursor unchanged.'' @ [newline]"

definition warning_stale :: "int64 \<Rightarrow> int64 \<Rightarrow> string" where
  "warning_stale ingest prior =
     ''# WARNING: latest OK ingest ('' @ strconv_FormatInt ingest @ '') is not newer than cursor ('' @
     strconv_FormatInt prior @ ''); cursor unchanged.'' @ [newline]"

definition mark_step :: "reader_env \<Rightarrow> messageRow list \<Rightarrow> int64 \<Rightarrow> reader \<Rightarrow> go_error option \<times> reader" where
  "mark_step env msgs now rd =
     (case markSurfaced (ue_mark env) msgs now (ue_daemon2 env (rd_tables rd)) of
        (r, t) \<Rightarrow> (r, rd\<lparr>rd_tables := t\<rparr>))"

text \<open>\<open>runWithDB\<close> from \<open>latestOKIngestFinishedAt\<close> on.\<close>

definition advance ::
  "reader_env \<Rightarrow> options \<Rightarrow> messageRow list \<Rightarrow> reader \<Rightarrow> go_error option \<times> reader" where
  "advance env opts msgs rd0 =
     (let now = ue_now env; rd = rd0\<lparr>rd_tables := ue_daemon1 env (rd_tables rd0)\<rparr> in
      case latestOKIngestFinishedAt (ue_latest env) (rd_tables rd) of
        Inl e \<Rightarrow> (Some e, rd)
      | Inr None \<Rightarrow> (None, rd\<lparr>rd_err := rd_err rd @ warning_none\<rparr>)
      | Inr (Some ingestTS) \<Rightarrow>
          let maxAdvance = wrap64 (ingestTS - IngestMargin) in
          (case priorCursor (read_state (ue_read2 env) (o_StatePath opts) (rd_files rd)) of
             Inl e \<Rightarrow> (Some e, rd)
           | Inr prior \<Rightarrow>
               if maxAdvance \<le> prior
               then mark_step env msgs now (rd\<lparr>rd_err := rd_err rd @ warning_stale ingestTS prior\<rparr>)
               else
                 let newCursor = (if now < maxAdvance then now else maxAdvance) in
                 (case atomicWriteText (ue_text_io env) (ue_pid env) (o_StatePath opts)
                         (strconv_FormatInt newCursor) (rd_files rd) of
                    (Some e, fs) \<Rightarrow> (Some e, rd\<lparr>rd_files := fs\<rparr>)
                  | (None, fs) \<Rightarrow> mark_step env msgs now (rd\<lparr>rd_files := fs\<rparr>))))"

definition runWithDB ::
  "(string \<Rightarrow> string) \<Rightarrow> bool \<Rightarrow> (float64 \<Rightarrow> int64) \<Rightarrow> reader_env \<Rightarrow> options \<Rightarrow>
     reader \<Rightarrow> go_error option \<times> reader" where
  "runWithDB ulower fused oob env opts rd =
     (if o_Tenant opts = [] then (Some (ErrMsg ''unseen requires --tenant <name>''), rd)
      else if o_ConfigPath opts = [] then (Some (ErrMsg ''missing config path''), rd)
      else if o_StatePath opts = [] then (Some (ErrMsg ''missing state path''), rd)
      else
        case TenantGroupJIDs (ue_config env) (o_Tenant opts) of
          Inl e \<Rightarrow> (Some e, rd)
        | Inr jids \<Rightarrow>
            (case cutoffFor fused oob (ue_now env)
                    (read_state (ue_read1 env) (o_StatePath opts) (rd_files rd)) (o_SinceHours opts) of
               Inl e \<Rightarrow> (Some e, rd)
             | Inr cutoff \<Rightarrow>
                 (case fetchRows (ue_fetch env) (ue_scan env) jids cutoff (rd_tables rd) of
                    Inl e \<Rightarrow> (Some e, rd)
                  | Inr rows \<Rightarrow>
                      let msgs = shown_rows ulower rows;
                          rd1 = rd\<lparr>rd_out := rd_out rd @ writeOutput cutoff msgs\<rparr>
                      in if o_NoAdvance opts then (None, rd1)
                         else advance env opts msgs rd1)))"

text \<open>\<open>Run\<close>: \<open>open_err\<close> and \<open>pragma_err\<close> are the errors of opening the database.\<close>

definition Run ::
  "go_error option \<Rightarrow> go_error option \<Rightarrow> (string \<Rightarrow> string) \<Rightarrow> bool \<Rightarrow>
     (float64 \<Rightarrow> int64) \<Rightarrow> reader_env \<Rightarrow> options \<Rightarrow> reader \<Rightarrow> go_error option \<times> reader" where
  "Run open_err pragma_err ulower fused oob env opts rd =
     (if o_DBPath opts = [] then (Some (ErrMsg ''missing db path''), rd)
      else case open_err of Some e \<Rightarrow> (Some e, rd) | None \<Rightarrow>
        (case pragma_err of Some e \<Rightarrow> (Some e, rd)
         | None \<Rightarrow> runWithDB ulower fused oob env opts rd))"

end
