(* ===== verification/Unseen_Laws.thy ===== *)
theory Unseen_Laws
  imports Unseen "HOL-Library.Multiset"
begin

text \<open>
  The reader's lemmas: grouping keeps every message and the order of the query, the query
  returns exactly the selected rows, the state file is replaced atomically, and the case
  analysis of how a run that advances can end.
\<close>

section \<open>Grouping\<close>

lemma add_to_group_keys:
  "set (map fst (add_to_group m gs)) = insert (u_ChatLabel m) (set (map fst gs))"
  "distinct (map fst gs) \<Longrightarrow> distinct (map fst (add_to_group m gs))"
  by (induction gs rule: add_to_group.induct [of _ m]) auto

lemma add_to_group_lookup:
  "map_of (add_to_group m gs) l =
    (if l = u_ChatLabel m then Some ((case map_of gs l of None \<Rightarrow> [] | Some ms \<Rightarrow> ms) @ [m])
     else map_of gs l)"
  by (induction gs rule: add_to_group.induct [of _ m]) auto

lemma group_messages_snoc:
  "group_messages (ms @ [m]) = add_to_group m (group_messages ms)"
  by (simp add: group_messages_def)

lemma group_messages_distinct: "distinct (map fst (group_messages ms))"
  by (induction ms rule: rev_induct)
    (simp_all add: group_messages_snoc add_to_group_keys group_messages_def [of "[]"])

lemma group_messages_lookup:
  "map_of (group_messages ms) l =
    (let xs = filter (\<lambda>m. u_ChatLabel m = l) ms in if xs = [] then None else Some xs)"
  by (induction ms rule: rev_induct)
    (auto simp: group_messages_snoc add_to_group_lookup group_messages_def [of "[]"] Let_def)

lemma add_to_group_last:
  "sorted_wrt (<) (map fst gs) \<Longrightarrow> \<forall>l \<in> set (map fst gs). l \<le> u_ChatLabel m \<Longrightarrow>
    concat (map snd (add_to_group m gs)) = concat (map snd gs) @ [m] \<and>
    sorted_wrt (<) (map fst (add_to_group m gs))"
proof (induction gs)
  case (Cons g gs)
  obtain l ms where g: "g = (l, ms)" by (cases g)
  show ?case
  proof (cases "l = u_ChatLabel m")
    case True
    have "gs = []"
    proof (rule ccontr)
      assume "gs \<noteq> []"
      then obtain k where "k \<in> set (map fst gs)" by (cases gs) auto
      then show False using Cons.prems g True by fastforce
    qed
    then show ?thesis using g True by simp
  next
    case False
    have "l < u_ChatLabel m" using Cons.prems(2) g False by (simp add: order.strict_iff_order)
    then show ?thesis
      using Cons.IH Cons.prems g False add_to_group_keys(1) [of m gs] by simp
  qed
qed simp

lemma group_messages_sorted:
  "sorted (map u_ChatLabel ms) \<Longrightarrow>
    concat (map snd (group_messages ms)) = ms \<and> sorted_wrt (<) (map fst (group_messages ms))"
proof (induction ms rule: rev_induct)
  case (snoc m ms)
  have "\<forall>l \<in> set (map fst (group_messages ms)). l \<le> u_ChatLabel m"
  proof
    fix l assume "l \<in> set (map fst (group_messages ms))"
    then have "map_of (group_messages ms) l \<noteq> None" by (simp add: map_of_eq_None_iff)
    then have "l \<in> set (map u_ChatLabel ms)"
      by (auto simp: group_messages_lookup Let_def filter_empty_conv split: if_splits)
    then show "l \<le> u_ChatLabel m" using snoc.prems by (auto simp: sorted_append)
  qed
  then show ?case
    using snoc add_to_group_last by (simp add: group_messages_snoc sorted_append)
qed (simp add: group_messages_def)

section \<open>Lookups in the query's result\<close>

definition scan_ok :: "(message_row list \<Rightarrow> message_row list) \<Rightarrow> bool" where
  "scan_ok scan \<longleftrightarrow> (\<forall>rows. mset (scan rows) = mset rows)"

lemma set_scan: "scan_ok scan \<Longrightarrow> set (scan rows) = set rows"
  unfolding scan_ok_def by (metis set_mset_mset)

lemma RowKey_le_label: "RowKey l t \<le> RowKey m u \<Longrightarrow> l \<le> m"
  by auto

lemma fetchRows_result:
  assumes "scan_ok scan" "fetchRows fault scan jids cutoff t = Inr rows"
  obtains xs where "rows = map scan_row xs" "set xs = {r \<in> set (t_messages t). selected jids cutoff r}"
    "mset xs = filter_mset (selected jids cutoff) (mset (t_messages t))"
    "sorted (map (\<lambda>r. RowKey (mr_chat_label r) (mr_ts r)) xs)"
proof -
  let ?key = "\<lambda>r. RowKey (mr_chat_label r) (mr_ts r)"
  let ?sel = "filter (selected jids cutoff) (scan (t_messages t))"
  have rows: "rows = map scan_row (sort_key ?key ?sel)"
    using assms(2) by (auto simp: fetchRows_def split: option.splits)
  show thesis
    by (rule that [OF rows])
      (use set_scan [OF assms(1)] assms(1) in \<open>auto simp: scan_ok_def\<close>)
qed

definition is_skipped :: "(string \<Rightarrow> string) \<Rightarrow> message_row \<Rightarrow> bool" where
  "is_skipped ulower r \<longleftrightarrow> strings_ToLower ulower (nullString (mr_message_type r)) \<in> set skipTypes"

definition needs_mark :: "message_row \<Rightarrow> bool" where
  "needs_mark r \<longleftrightarrow> nullInt (mr_media_hydrated_at r) \<noteq> 0 \<and> mr_media_surfaced_at r = None"

definition shown_row :: "(string \<Rightarrow> string) \<Rightarrow> message_row \<Rightarrow> messageRow" where
  "shown_row ulower r =
     (scan_row r)\<lparr>u_Display := displayFor ulower (scan_row r), u_NeedsSurfaceMark := needs_mark r\<rparr>"

lemma shown_row_fields [simp]:
  "u_ID (shown_row ulower r) = mr_id r" "u_ChatJID (shown_row ulower r) = mr_chat_jid r"
  "u_NeedsSurfaceMark (shown_row ulower r) = needs_mark r" "u_TS (shown_row ulower r) = mr_ts r"
  "u_ChatLabel (shown_row ulower r) = mr_chat_label r"
  by (simp_all add: shown_row_def scan_row_def)

lemma shown_rows_map:
  "shown_rows ulower (map scan_row xs) = map (shown_row ulower) (filter (\<lambda>r. \<not> is_skipped ulower r) xs)"
  by (induction xs)
    (auto simp: shown_rows_def shown_row_def is_skipped_def needs_mark_def scan_row_def)

lemma sorted_labels:
  "sorted (map (\<lambda>r. RowKey (mr_chat_label r) (mr_ts r)) xs) \<Longrightarrow> sorted (map mr_chat_label xs)"
  by (induction xs) (auto dest: RowKey_le_label)

section \<open>The outcomes of a run\<close>

lemma runWithDB_reported:
  assumes "runWithDB ulower fused oob env opts rd = (r, rd')" "rd_out rd' \<noteq> rd_out rd"
  obtains jids cutoff rows where
    "TenantGroupJIDs (ue_config env) (o_Tenant opts) = Inr jids"
    "cutoffFor fused oob (ue_now env)
       (read_state (ue_read1 env) (o_StatePath opts) (rd_files rd)) (o_SinceHours opts) = Inr cutoff"
    "fetchRows (ue_fetch env) (ue_scan env) jids cutoff (rd_tables rd) = Inr rows"
    "if o_NoAdvance opts
     then (r, rd') = (None, rd\<lparr>rd_out := rd_out rd @ writeOutput cutoff (shown_rows ulower rows)\<rparr>)
     else (r, rd') = advance env opts (shown_rows ulower rows)
            (rd\<lparr>rd_out := rd_out rd @ writeOutput cutoff (shown_rows ulower rows)\<rparr>)"
  using assms unfolding runWithDB_def Let_def
  by (auto split: if_splits sum.splits)


section \<open>The state file\<close>

lemma Join_snoc_shape: "\<exists>pre. strings_Join (ps @ [p]) ''/'' = pre @ p \<and> (pre = [] \<or> last pre = CHR ''/'')"
proof (induction ps)
  case (Cons q qs)
  then obtain pre where pre: "strings_Join (qs @ [p]) ''/'' = pre @ p" "pre = [] \<or> last pre = CHR ''/''"
    by blast
  have "strings_Join ((q # qs) @ [p]) ''/'' = q @ ''/'' @ strings_Join (qs @ [p]) ''/''"
    by (cases qs) auto
  then show ?case
    using pre by (intro exI [of _ "q @ ''/'' @ pre"]) auto
qed simp

lemma Base_suffix:
  assumes "plain_part p" "pre = [] \<or> last pre = CHR ''/''"
  shows "filepath_Base (pre @ p) = p"
proof -
  have ns: "CHR ''/'' \<notin> set p" "p \<noteq> []" using assms(1) by (simp_all add: plain_part_def)
  then have d: "dropWhile (\<lambda>c. c = CHR ''/'') (rev (pre @ p)) = rev (pre @ p)"
    by (cases p rule: rev_cases) auto
  have "takeWhile (\<lambda>c. c \<noteq> CHR ''/'') (rev p @ rev pre) = rev p"
  proof (cases pre rule: rev_cases)
    case Nil
    then show ?thesis using ns by (auto simp: takeWhile_eq_all_conv)
  next
    case (snoc ys y)
    then have "rev pre = CHR ''/'' # rev ys" using assms(2) by simp
    moreover have "takeWhile (\<lambda>c. c \<noteq> CHR ''/'') (rev p @ rev pre) =
        rev p @ takeWhile (\<lambda>c. c \<noteq> CHR ''/'') (rev pre)"
      using ns by (intro takeWhile_append2) auto
    ultimately show ?thesis by simp
  qed
  then show ?thesis using ns d by (simp add: filepath_Base_def Let_def)
qed

lemma Base_Join_plain:
  assumes "plain_part p" "dir \<noteq> []"
  shows "filepath_Base (filepath_Join [dir, p]) = p"
proof -
  have "filepath_Join [dir, p] = filepath_Clean (dir @ ''/'' @ p)"
    using assms(2) by (simp add: filepath_Join_def)
  then have j: "filepath_Join [dir, p] = render_path (path_rooted dir) (path_parts dir @ [p])"
    using clean_stack_snoc [OF assms(2,1)] assms(2) by (simp add: filepath_Clean_def path_parts_def)
  obtain pre where pre: "strings_Join (path_parts dir @ [p]) ''/'' = pre @ p"
    "pre = [] \<or> last pre = CHR ''/''"
    using Join_snoc_shape by blast
  show ?thesis
    using j pre Base_suffix [OF assms(1) pre(2)]
      Base_suffix [OF assms(1), of "CHR ''/'' # pre"]
    by (auto simp: render_path_def)
qed

lemma Base_no_slash: "filepath_Base p \<noteq> ''/'' \<Longrightarrow> CHR ''/'' \<notin> set (filepath_Base p)"
  by (auto simp: filepath_Base_def Let_def dest: set_takeWhileD split: if_splits)

lemma text_tmp_other:
  assumes "filepath_Base path \<noteq> ''/''"
  shows "text_tmp pid path \<noteq> path"
proof -
  let ?n = "''.'' @ filepath_Base path @ ''.tmp.'' @ show_nat pid"
  have "CHR ''/'' \<notin> set (show_nat pid)"
    using show_nat_digits [of pid] by (auto simp: list_all_iff is_digit_def byte_def)
  then have plain: "plain_part ?n" using Base_no_slash [OF assms] by (auto simp: plain_part_def)
  have "filepath_Base (text_tmp pid path) = ?n"
    unfolding text_tmp_def by (rule Base_Join_plain [OF plain]) (simp add: filepath_Dir_def)
  moreover have "?n \<noteq> filepath_Base path"
  proof
    assume "?n = filepath_Base path"
    then have "length ?n = length (filepath_Base path)" by simp
    then show False by simp
  qed
  ultimately show ?thesis by metis
qed

lemma atomicWriteText_cases:
  assumes "atomicWriteText io pid path body fs = (r, fs')" "filepath_Base path \<noteq> ''/''"
  shows "(\<forall>p. p \<noteq> path \<longrightarrow> p \<noteq> text_tmp pid path \<longrightarrow> fs' p = fs p) \<and>
    (case r of None \<Rightarrow> fs' path = Some body \<and> fs' (text_tmp pid path) = None
     | Some e \<Rightarrow> fs' path = fs path)"
  using assms(1) text_tmp_other [OF assms(2), of pid] unfolding atomicWriteText_def Let_def
  by (auto simp: cleanup_tmp_def split: option.splits prod.splits if_splits)

section \<open>Advancing\<close>

lemma foldl_max: "foldl max (x::int) xs \<in> set (x # xs) \<and> (\<forall>m \<in> set (x # xs). m \<le> foldl max x xs)"
proof (induction xs arbitrary: x)
  case (Cons y ys)
  have "max x y = x \<or> max x y = y" "x \<le> max x y" "y \<le> max x y" by auto
  then show ?case using Cons.IH [of "max x y"] by fastforce
qed simp

lemma latestOK_Some:
  "latestOKIngestFinishedAt fault t = Inr (Some n) \<Longrightarrow>
    n \<in> set (ok_finished t) \<and> (\<forall>m \<in> set (ok_finished t). m \<le> n)"
proof -
  assume "latestOKIngestFinishedAt fault t = Inr (Some n)"
  then obtain x xs where "ok_finished t = x # xs" "n = foldl max x xs"
    by (auto simp: latestOKIngestFinishedAt_def split: option.splits list.splits)
  then show ?thesis using foldl_max [of x xs] by simp
qed

definition mark_rows :: "go_error option \<Rightarrow> messageRow list \<Rightarrow> int64 \<Rightarrow> tables \<Rightarrow> tables" where
  "mark_rows fault msgs now t =
     (if fault = None
      then t\<lparr>t_messages := update_where
         (\<lambda>r. mr_id r \<in> u_ID ` {m \<in> set msgs. u_NeedsSurfaceMark m})
         (\<lambda>r. r\<lparr>mr_media_surfaced_at := Some now\<rparr>) (t_messages t)\<rparr>
      else t)"

lemma markSurfaced_result:
  "markSurfaced fault msgs now t = (r, t') \<Longrightarrow>
    t' = mark_rows fault msgs now t \<and> (fault = None \<longrightarrow> r = None)"
proof -
  assume m: "markSurfaced fault msgs now t = (r, t')"
  have ids: "set (map u_ID (filter u_NeedsSurfaceMark msgs)) = u_ID ` {m \<in> set msgs. u_NeedsSurfaceMark m}"
    by auto
  show ?thesis
  proof (cases "filter u_NeedsSurfaceMark msgs = []")
    case True
    then have "{m \<in> set msgs. u_NeedsSurfaceMark m} = {}" by (auto simp: filter_empty_conv)
    then have "update_where (\<lambda>r. mr_id r \<in> u_ID ` {m \<in> set msgs. u_NeedsSurfaceMark m}) f rows = rows"
      for f and rows :: "message_row list" by (simp only: image_empty) (rule update_where_id, simp)
    then have "mark_rows fault msgs now t = t" by (simp only: mark_rows_def) simp
    then show ?thesis using m True by (simp add: markSurfaced_def)
  next
    case False
    then show ?thesis
      using m ids by (auto simp: markSurfaced_def mark_rows_def Let_def split: option.splits)
  qed
qed

lemma advance_cases:
  assumes "advance env opts msgs rd = (r, rd')" "filepath_Base (o_StatePath opts) \<noteq> ''/''"
  obtains (stopped) "rd_files rd' (o_StatePath opts) = rd_files rd (o_StatePath opts)"
      "rd_tables rd' = ue_daemon1 env (rd_tables rd)"
      "r = None \<Longrightarrow> ok_finished (ue_daemon1 env (rd_tables rd)) = []"
  | (stale) ingest prior where "rd_files rd' (o_StatePath opts) = rd_files rd (o_StatePath opts)"
      "latestOKIngestFinishedAt (ue_latest env) (ue_daemon1 env (rd_tables rd)) = Inr (Some ingest)"
      "priorCursor (read_state (ue_read2 env) (o_StatePath opts) (rd_files rd)) = Inr prior"
      "wrap64 (ingest - IngestMargin) \<le> prior"
      "rd_tables rd' = mark_rows (ue_mark env) msgs (ue_now env)
         (ue_daemon2 env (ue_daemon1 env (rd_tables rd)))" "ue_mark env = None \<longrightarrow> r = None"
  | (advanced) ingest prior c where "rd_files rd' (o_StatePath opts) = Some (strconv_FormatInt c)"
      "latestOKIngestFinishedAt (ue_latest env) (ue_daemon1 env (rd_tables rd)) = Inr (Some ingest)"
      "priorCursor (read_state (ue_read2 env) (o_StatePath opts) (rd_files rd)) = Inr prior"
      "prior < wrap64 (ingest - IngestMargin)" "c = min (ue_now env) (wrap64 (ingest - IngestMargin))"
      "rd_tables rd' = mark_rows (ue_mark env) msgs (ue_now env)
         (ue_daemon2 env (ue_daemon1 env (rd_tables rd)))" "ue_mark env = None \<longrightarrow> r = None"
proof (cases "latestOKIngestFinishedAt (ue_latest env) (ue_daemon1 env (rd_tables rd))")
  case (Inl e)
  then show thesis using assms(1) by (intro stopped) (auto simp: advance_def Let_def)
next
  case l: (Inr o')
  show thesis
  proof (cases o')
    case None
    have "ok_finished (ue_daemon1 env (rd_tables rd)) = []"
      using l None by (auto simp: latestOKIngestFinishedAt_def split: option.splits list.splits)
    then show thesis using assms(1) l None by (intro stopped) (auto simp: advance_def Let_def)
  next
    case (Some ingest)
    let ?m = "wrap64 (ingest - IngestMargin)"
    show thesis
    proof (cases "priorCursor (read_state (ue_read2 env) (o_StatePath opts) (rd_files rd))")
      case (Inl e)
      then show thesis using assms(1) l Some by (intro stopped) (auto simp: advance_def Let_def)
    next
      case p: (Inr prior)
      show thesis
      proof (cases "?m \<le> prior")
        case True
        then show thesis
          using assms(1) l Some p by (intro stale [of ingest prior])
            (auto simp: advance_def Let_def mark_step_def split: prod.splits dest: markSurfaced_result)
      next
        case False
        let ?c = "if ue_now env < ?m then ue_now env else ?m"
        obtain w fs where w: "atomicWriteText (ue_text_io env) (ue_pid env) (o_StatePath opts)
            (strconv_FormatInt ?c) (rd_files rd) = (w, fs)"
          by (rule prod.exhaust)
        note aw = atomicWriteText_cases [OF w assms(2)]
        show thesis
        proof (cases w)
          case None
          then show thesis
            using assms(1) l Some p False w aw
            by (intro advanced [of ?c ingest prior])
              (auto simp: advance_def Let_def mark_step_def min_def split: prod.splits
                dest: markSurfaced_result)
        next
          case (Some e)
          then show thesis
            using assms(1) l \<open>o' = Some ingest\<close> p False w aw
            by (intro stopped) (auto simp: advance_def Let_def)
        qed
      qed
    qed
  qed
qed

lemma advance_out: "advance env opts msgs rd = (r, rd') \<Longrightarrow> rd_out rd' = rd_out rd"
  by (auto simp: advance_def mark_step_def Let_def
      split: sum.splits option.splits if_splits prod.splits)

lemma runWithDB_rows:
  assumes "runWithDB ulower fused oob env opts rd = (r, rd')" "rd_out rd' \<noteq> rd_out rd"
    and "scan_ok (ue_scan env)"
  obtains jids cutoff xs where
    "TenantGroupJIDs (ue_config env) (o_Tenant opts) = Inr jids"
    "cutoffFor fused oob (ue_now env)
       (read_state (ue_read1 env) (o_StatePath opts) (rd_files rd)) (o_SinceHours opts) = Inr cutoff"
    "mset xs = filter_mset (\<lambda>q. selected jids cutoff q \<and> \<not> is_skipped ulower q) (mset (t_messages (rd_tables rd)))"
    "sorted (map (\<lambda>q. RowKey (mr_chat_label q) (mr_ts q)) xs)"
    "rd_out rd' = rd_out rd @ writeOutput cutoff (map (shown_row ulower) xs)"
    "if o_NoAdvance opts then (r, rd') = (None, rd\<lparr>rd_out := rd_out rd'\<rparr>)
     else (r, rd') = advance env opts (map (shown_row ulower) xs) (rd\<lparr>rd_out := rd_out rd'\<rparr>)"
proof -
  obtain jids cutoff rows where
    jids: "TenantGroupJIDs (ue_config env) (o_Tenant opts) = Inr jids"
    and cutoff: "cutoffFor fused oob (ue_now env)
       (read_state (ue_read1 env) (o_StatePath opts) (rd_files rd)) (o_SinceHours opts) = Inr cutoff"
    and fetch: "fetchRows (ue_fetch env) (ue_scan env) jids cutoff (rd_tables rd) = Inr rows"
    and rest: "if o_NoAdvance opts
     then (r, rd') = (None, rd\<lparr>rd_out := rd_out rd @ writeOutput cutoff (shown_rows ulower rows)\<rparr>)
     else (r, rd') = advance env opts (shown_rows ulower rows)
            (rd\<lparr>rd_out := rd_out rd @ writeOutput cutoff (shown_rows ulower rows)\<rparr>)"
    by (rule runWithDB_reported [OF assms(1,2)])
  obtain xs where xs: "rows = map scan_row xs"
    "mset xs = filter_mset (selected jids cutoff) (mset (t_messages (rd_tables rd)))"
    "sorted (map (\<lambda>q. RowKey (mr_chat_label q) (mr_ts q)) xs)"
    by (rule fetchRows_result [OF assms(3) fetch])
  let ?ys = "filter (\<lambda>q. \<not> is_skipped ulower q) xs"
  have shown: "shown_rows ulower rows = map (shown_row ulower) ?ys"
    by (simp add: xs(1) shown_rows_map)
  have out: "rd_out rd' = rd_out rd @ writeOutput cutoff (map (shown_row ulower) ?ys)"
    using rest shown advance_out [of env opts "shown_rows ulower rows" _ r rd']
    by (cases "o_NoAdvance opts") simp_all
  show thesis
  proof (rule that [OF jids cutoff _ _ out])
    show "mset ?ys = filter_mset (\<lambda>q. selected jids cutoff q \<and> \<not> is_skipped ulower q)
        (mset (t_messages (rd_tables rd)))"
      by (simp add: xs(2) filter_filter_mset conj_commute)
    show "sorted (map (\<lambda>q. RowKey (mr_chat_label q) (mr_ts q)) ?ys)"
      using xs(3) by (rule sorted_filter)
    show "if o_NoAdvance opts then (r, rd') = (None, rd\<lparr>rd_out := rd_out rd'\<rparr>)
       else (r, rd') = advance env opts (map (shown_row ulower) ?ys) (rd\<lparr>rd_out := rd_out rd'\<rparr>)"
      using rest shown out by simp
  qed
qed

lemma runWithDB_state:
  assumes "runWithDB ulower fused oob env opts rd = (r, rd')" "scan_ok (ue_scan env)"
    and "filepath_Base (o_StatePath opts) \<noteq> ''/''"
  obtains (kept) "rd_files rd' (o_StatePath opts) = rd_files rd (o_StatePath opts)"
  | (moved) c ingest prior where "rd_files rd' (o_StatePath opts) = Some (strconv_FormatInt c)"
      "latestOKIngestFinishedAt (ue_latest env) (ue_daemon1 env (rd_tables rd)) = Inr (Some ingest)"
      "priorCursor (read_state (ue_read2 env) (o_StatePath opts) (rd_files rd)) = Inr prior"
      "prior < wrap64 (ingest - IngestMargin)" "c = min (ue_now env) (wrap64 (ingest - IngestMargin))"
proof (cases "rd_out rd' = rd_out rd")
  case True
  have "writeOutput c ms \<noteq> []" for c ms by (simp add: writeOutput_def Let_def)
  then have "rd' = rd"
    using assms(1) True advance_out unfolding runWithDB_def Let_def
    by (fastforce split: if_splits sum.splits)
  then show thesis by (intro kept) simp
next
  case False
  obtain jids cutoff xs where *:
    "if o_NoAdvance opts then (r, rd') = (None, rd\<lparr>rd_out := rd_out rd'\<rparr>)
     else (r, rd') = advance env opts (map (shown_row ulower) xs) (rd\<lparr>rd_out := rd_out rd'\<rparr>)"
    by (rule runWithDB_rows [OF assms(1) False assms(2)])
  show thesis
  proof (cases "o_NoAdvance opts")
    case True
    then have "rd' = rd\<lparr>rd_out := rd_out rd'\<rparr>" using * by simp
    then show thesis by (intro kept) (metis reader.ext_inject reader.surjective reader.update_convs(3))
  next
    case False
    then have "advance env opts (map (shown_row ulower) xs) (rd\<lparr>rd_out := rd_out rd'\<rparr>) = (r, rd')"
      using * by simp
    from this assms(3) show thesis
      by (cases rule: advance_cases) (use kept moved in auto)
  qed
qed

end
