(* ===== verification/Store_Laws.thy ===== *)
theory Store_Laws
  imports Writer
begin

text \<open>
  What the message store of \<open>Writer\<close> guarantees: the contracts of its three upserts, the
  invariant of its tables, the case analysis of every way a call of \<open>Write\<close> can end, and
  the properties of the store that follow.
\<close>

section \<open>The tables' contract: no upsert changes a primary key\<close>

interpretation groups_tab: keyed_upsert gr_jid merge_group
  by unfold_locales (simp add: merge_group_def)

interpretation messages_tab: keyed_upsert mr_id merge_message
  by unfold_locales (simp add: merge_message_def)

interpretation runs_tab: keyed_upsert rn_run_id merge_run
  by unfold_locales (simp add: merge_run_def)

lemma merge_message_frame [simp]:
  "mr_id (merge_message x old) = mr_id old"
  "mr_source_pk (merge_message x old) = mr_source_pk old"
  "mr_chat_jid (merge_message x old) = mr_chat_jid old"
  "mr_chat_label (merge_message x old) = mr_chat_label old"
  "mr_msg_id (merge_message x old) = mr_msg_id old"
  "mr_sender_jid (merge_message x old) = mr_sender_jid old"
  "mr_ts (merge_message x old) = mr_ts old"
  "mr_from_me (merge_message x old) = mr_from_me old"
  "mr_media_local_path (merge_message x old) = mr_media_local_path old"
  "mr_media_extracted_text (merge_message x old) = mr_media_extracted_text old"
  "mr_media_extracted_by (merge_message x old) = mr_media_extracted_by old"
  "mr_media_hydrated_at (merge_message x old) = mr_media_hydrated_at old"
  "mr_media_surfaced_at (merge_message x old) = mr_media_surfaced_at old"
  "natural_key (merge_message x old) = natural_key old"
  by (simp_all add: merge_message_def natural_key_def)

lemma mark_frame [simp]:
  "mr_id (hydrate_message p n r) = mr_id r" "mr_id (fail_message r) = mr_id r"
  "mr_chat_jid (hydrate_message p n r) = mr_chat_jid r" "mr_chat_jid (fail_message r) = mr_chat_jid r"
  "natural_key (hydrate_message p n r) = natural_key r" "natural_key (fail_message r) = natural_key r"
  by (simp_all add: hydrate_message_def fail_message_def natural_key_def)

section \<open>The store's invariant\<close>

text \<open>
  \<open>id_ok\<close>: the primary key of a message is the stable hash of its own columns. \<open>run_ok\<close>:
  every message an ingest run scanned is counted exactly once. \<open>db_ok\<close> adds the primary keys
  of the three tables and the foreign key.
\<close>

definition id_ok :: "(string \<Rightarrow> string) \<Rightarrow> message_row \<Rightarrow> bool" where
  "id_ok H r \<longleftrightarrow> mr_id r = StableMessageID H (mr_chat_jid r) (mr_msg_id r)
     (coalesce_empty (mr_sender_jid r)) (mr_ts r) (mr_source_pk r)"

definition run_ok :: "run_row \<Rightarrow> bool" where
  "run_ok r \<longleftrightarrow> rn_scanned r = rn_inserted r + rn_updated r + rn_skipped r \<and>
     0 \<le> rn_inserted r \<and> 0 \<le> rn_updated r \<and> 0 \<le> rn_skipped r \<and>
     0 \<le> rn_media_copied r \<and> 1 \<le> rn_scanned r"

definition db_ok :: "(string \<Rightarrow> string) \<Rightarrow> tables \<Rightarrow> bool" where
  "db_ok H t \<longleftrightarrow>
     unique_key gr_jid (t_groups t) \<and> unique_key mr_id (t_messages t) \<and>
     unique_key rn_run_id (t_runs t) \<and>
     (\<forall>r \<in> set (t_messages t). mr_chat_jid r \<in> gr_jid ` set (t_groups t)) \<and>
     (\<forall>r \<in> set (t_messages t). id_ok H r) \<and> (\<forall>r \<in> set (t_runs t). run_ok r)"

definition empty_tables :: tables where
  "empty_tables = \<lparr>t_groups = [], t_messages = [], t_runs = [], t_fts = Some []\<rparr>"

lemma db_ok_empty [inv_intros]: "db_ok H empty_tables"
  by (simp add: db_ok_def empty_tables_def)

section \<open>The closure of Write\<close>

definition status_of :: "event \<Rightarrow> string option" where
  "status_of ev = nullEmpty (ev_MediaHydrationStatus ev)"

definition attempts_of :: "event \<Rightarrow> int" where
  "attempts_of ev = (if status_of ev = None then 0 else ev_MediaHydrationAttempts ev)"

text \<open>
  What a successful closure leaves: the message upserted, a run row upserted, the groups
  untouched, and a result that says whether the row is new or its content changed.
\<close>

definition write_effect ::
  "(string \<Rightarrow> string) \<Rightarrow> write_env \<Rightarrow> nat \<Rightarrow> event \<Rightarrow> string \<Rightarrow> string \<Rightarrow> result \<Rightarrow> string \<Rightarrow>
     tables \<Rightarrow> tables \<Rightarrow> bool" where
  "write_effect H env n ev i thash res runID t t1 \<longleftrightarrow>
     t_groups t1 = t_groups t \<and>
     t_messages t1 = upsert mr_id merge_message
       (message_of i (we_now env) thash (status_of ev) (attempts_of ev) ev) (t_messages t) \<and>
     (row_of mr_id i (t_messages t) = None \<longrightarrow> ev_ChatJID ev \<in> gr_jid ` set (t_groups t)) \<and>
     res_Inserted res = (row_of mr_id i (t_messages t) = None) \<and>
     res_Updated res = (case row_of mr_id i (t_messages t) of None \<Rightarrow> False
        | Some r \<Rightarrow> mr_text_hash r \<noteq> thash \<or> status_of ev \<noteq> None) \<and>
     runID = StableRunID H i (we_now env) \<and>
     (\<exists>run. rn_run_id run = runID \<and> run_ok run \<and> rn_started_at run = we_now env \<and>
        rn_finished_at run = Some (we_now env) \<and> rn_dry_run run = 0 \<and> rn_scanned run = 1 \<and>
        rn_status run = (if ev_MediaBytes ev \<noteq> [] then ''pending'' else ''ok'') \<and>
        t_runs t1 = upsert rn_run_id merge_run run (t_runs t))"

lemma exec_fts_frame:
  "exec_fts_delete f i t = Inr t' \<Longrightarrow>
    t_groups t' = t_groups t \<and> t_messages t' = t_messages t \<and> t_runs t' = t_runs t"
  "exec_fts_insert f r t = Inr t' \<Longrightarrow>
    t_groups t' = t_groups t \<and> t_messages t' = t_messages t \<and> t_runs t' = t_runs t"
  by (auto simp: exec_fts_delete_def exec_fts_insert_def split: option.splits)

lemma refreshFTSTx_frame:
  "refreshFTSTx env u i ev t = (u', t', r) \<Longrightarrow>
    t_groups t' = t_groups t \<and> t_messages t' = t_messages t \<and> t_runs t' = t_runs t"
  by (auto simp: refreshFTSTx_def split: if_splits sum.splits prod.splits dest!: exec_fts_frame)

lemma message_of_fields [simp]:
  "mr_id (message_of i now h s a ev) = i"
  "mr_source_pk (message_of i now h s a ev) = ev_SourcePK ev"
  "mr_chat_jid (message_of i now h s a ev) = ev_ChatJID ev"
  "mr_chat_label (message_of i now h s a ev) = ev_ChatLabel ev"
  "mr_msg_id (message_of i now h s a ev) = ev_MsgID ev"
  "mr_sender_jid (message_of i now h s a ev) = nullEmpty (ev_SenderJID ev)"
  "mr_ts (message_of i now h s a ev) = ev_Timestamp ev"
  "mr_from_me (message_of i now h s a ev) = ev_FromMe ev"
  "mr_text_hash (message_of i now h s a ev) = h"
  "mr_ingested_at (message_of i now h s a ev) = now"
  "natural_key (message_of i now h s a ev) = event_key ev"
  by (simp_all add: message_of_def natural_key_def event_key_def)

lemma run_row_of_fields [simp]:
  "rn_run_id (run_row_of H n i now res pending) = StableRunID H i now"
  "run_ok (run_row_of H n i now res pending)"
  "rn_started_at (run_row_of H n i now res pending) = now"
  "rn_finished_at (run_row_of H n i now res pending) = Some now"
  "rn_dry_run (run_row_of H n i now res pending) = 0"
  "rn_scanned (run_row_of H n i now res pending) = 1"
  "rn_status (run_row_of H n i now res pending) = (if pending then ''pending'' else ''ok'')"
  by (simp_all add: run_row_of_def run_ok_def)

lemma recordRun_ok:
  assumes "recordRun H fault n i now res pending t = (runID, t', None)"
  shows "runID = StableRunID H i now \<and> t_groups t' = t_groups t \<and> t_messages t' = t_messages t \<and>
    (\<exists>run. rn_run_id run = runID \<and> run_ok run \<and> rn_started_at run = now \<and>
        rn_finished_at run = Some now \<and> rn_dry_run run = 0 \<and> rn_scanned run = 1 \<and>
        rn_status run = (if pending then ''pending'' else ''ok'') \<and>
        t_runs t' = upsert rn_run_id merge_run run (t_runs t))"
proof (cases fault)
  case None
  then show ?thesis
    using assms run_row_of_fields
    by (auto simp: recordRun_def Let_def intro!: exI [of _ "run_row_of H n i now res pending"])
next
  case (Some e)
  then show ?thesis using assms by (simp add: recordRun_def Let_def)
qed

lemma write_tx_ok:
  assumes "write_tx H env n ev i thash (res0, run0, fts0) t = ((res, runID, fts), t1, None)"
  shows "write_effect H env n ev i thash res runID t t1 \<and>
    res = res0\<lparr>res_Inserted := res_Inserted res, res_Updated := res_Updated res\<rparr>"
proof -
  let ?ex = "row_of mr_id i (t_messages t)"
  let ?res = "res0\<lparr>res_Inserted := ?ex = None, res_Updated := (case ?ex of None \<Rightarrow> False
      | Some r \<Rightarrow> mr_text_hash r \<noteq> thash \<or> status_of ev \<noteq> None)\<rparr>"
  let ?row = "message_of i (we_now env) thash (status_of ev) (attempts_of ev) ev"
  have sel: "we_select env = None"
    using assms by (cases "we_select env") (simp_all add: write_tx_def)
  note tx = assms [unfolded write_tx_def Let_def, folded status_of_def, folded attempts_of_def]
  obtain ta where up: "exec_upsert_message (we_upsert env) ?row t = Inr ta"
    using tx sel by (cases "exec_upsert_message (we_upsert env) ?row t") simp_all
  obtain fts1 tb r1 where ft1: "refreshFTSTx env fts0 i ev ta = (fts1, tb, r1)"
    by (rule prod_cases3)
  have r1: "r1 = None"
    using tx sel up ft1 by (cases r1) simp_all
  obtain run1 tc r2 where rr1: "recordRun H (we_run env) n i (we_now env) ?res
      (ev_MediaBytes ev \<noteq> []) tb = (run1, tc, r2)"
    by (rule prod_cases3)
  have ft: "refreshFTSTx env fts0 i ev ta = (fts, tb, None)"
    and rr: "recordRun H (we_run env) n i (we_now env) ?res (ev_MediaBytes ev \<noteq> []) tb =
      (runID, t1, None)" and res: "res = ?res"
    using tx sel up ft1 r1 rr1 by simp_all
  have up': "t_groups ta = t_groups t" "t_runs ta = t_runs t"
    "t_messages ta = upsert mr_id merge_message ?row (t_messages t)"
    "?ex = None \<longrightarrow> ev_ChatJID ev \<in> gr_jid ` set (t_groups t)"
    using up by (auto simp: exec_upsert_message_def split: option.splits if_splits)
  show ?thesis
    using refreshFTSTx_frame [OF ft] recordRun_ok [OF rr] up' res
    by (auto simp: write_effect_def)
qed

section \<open>The outcomes of Write\<close>

text \<open>What the second transaction does to the message and to the run, if it commits.\<close>

datatype mark = NoMark | Hydrated string int64 | HydrationFailed

fun mark_message :: "mark \<Rightarrow> message_row \<Rightarrow> message_row" where
  "mark_message NoMark r = r"
| "mark_message (Hydrated path now) r = hydrate_message path now r"
| "mark_message HydrationFailed r = fail_message r"

fun mark_run :: "mark \<Rightarrow> run_row \<Rightarrow> run_row" where
  "mark_run NoMark r = r"
| "mark_run (Hydrated path now) r = r\<lparr>rn_status := ''ok'', rn_media_copied := rn_media_copied r + 1\<rparr>"
| "mark_run HydrationFailed r = r\<lparr>rn_status := ''ok''\<rparr>"

definition mark_tables :: "mark \<Rightarrow> string \<Rightarrow> string \<Rightarrow> tables \<Rightarrow> tables" where
  "mark_tables m i runID t =
     t\<lparr>t_messages := update_where (\<lambda>r. mr_id r = i) (mark_message m) (t_messages t),
       t_runs := update_where (\<lambda>r. rn_run_id r = runID) (mark_run m) (t_runs t)\<rparr>"

lemma mark_message_frame [simp]:
  "mr_id (mark_message m r) = mr_id r"
  "mr_chat_jid (mark_message m r) = mr_chat_jid r"
  "mr_chat_label (mark_message m r) = mr_chat_label r"
  "natural_key (mark_message m r) = natural_key r"
  "mr_media_extracted_text (mark_message m r) = mr_media_extracted_text r"
  "mr_media_extracted_by (mark_message m r) = mr_media_extracted_by r"
  "mr_text (mark_message m r) = mr_text r"
  "mr_text_hash (mark_message m r) = mr_text_hash r"
  "mr_ts (mark_message m r) = mr_ts r"
  "id_ok H (mark_message m r) = id_ok H r"
  by (cases m; simp add: hydrate_message_def fail_message_def natural_key_def id_ok_def)+

lemma mark_run_frame [simp]:
  "rn_run_id (mark_run m r) = rn_run_id r"
  "run_ok r \<Longrightarrow> run_ok (mark_run m r)"
  by (cases m; simp add: run_ok_def)+

lemma mark_tables_NoMark [simp]: "mark_tables NoMark i runID t = t"
proof -
  have "update_where p (mark_message NoMark) xs = xs" "update_where q (mark_run NoMark) ys = ys"
    for p q xs ys by (auto simp: update_where_def intro: map_idI)
  then show ?thesis by (simp add: mark_tables_def)
qed

lemma mark_tx_ok:
  assumes "mark_tx mf rf fm fr i runID t = (u, t', None)"
  shows "t' = t\<lparr>t_messages := update_where (\<lambda>r. mr_id r = i) fm (t_messages t),
    t_runs := update_where (\<lambda>r. rn_run_id r = runID) fr (t_runs t)\<rparr>"
  using assms by (auto simp: mark_tx_def Let_def split: option.splits)

lemma markMediaOK_effect:
  assumes "markMediaOK env i runID path w = (r, w')"
  shows "w_files w' = w_files w \<and>
    (case r of Some e \<Rightarrow> durable (w_db w') = durable (w_db w)
     | None \<Rightarrow> durable (w_db w') =
         mark_tables (Hydrated path (we_mark_now env)) i runID (durable (w_db w)))"
proof -
  obtain u c where tx: "WithTx (we_mark_tx env) ()
      (mark_tx (we_mark_message env) (we_mark_run env) (hydrate_message path (we_mark_now env))
         (\<lambda>r. r\<lparr>rn_status := ''ok'', rn_media_copied := rn_media_copied r + 1\<rparr>) i runID) (w_db w)
      = (u, r, c)" and w': "w' = w\<lparr>w_db := c\<rparr>"
    using assms by (auto simp: markMediaOK_def split: prod.splits)
  have [simp]: "mark_message (Hydrated path n) = hydrate_message path n"
    "mark_run (Hydrated path n) = (\<lambda>r. r\<lparr>rn_status := ''ok'', rn_media_copied := rn_media_copied r + 1\<rparr>)"
    for n by (simp_all add: fun_eq_iff)
  show ?thesis
    using tx w' by (cases r)
      (auto simp: mark_tables_def dest!: tx.tx_ok tx.tx_error mark_tx_ok)
qed

lemma markMediaFailure_effect:
  assumes "markMediaFailure env i runID w = (r, w')"
  shows "w_files w' = w_files w \<and>
    (case r of Some e \<Rightarrow> durable (w_db w') = durable (w_db w)
     | None \<Rightarrow> durable (w_db w') = mark_tables HydrationFailed i runID (durable (w_db w)))"
proof -
  obtain u c where tx: "WithTx (we_mark_tx env) ()
      (mark_tx (we_mark_message env) (we_mark_run env) fail_message
         (\<lambda>r. r\<lparr>rn_status := ''ok''\<rparr>) i runID) (w_db w) = (u, r, c)"
    and w': "w' = w\<lparr>w_db := c\<rparr>"
    using assms by (auto simp: markMediaFailure_def split: prod.splits)
  have [simp]: "mark_message HydrationFailed = fail_message"
    "mark_run HydrationFailed = (\<lambda>r. r\<lparr>rn_status := ''ok''\<rparr>)"
    by (simp_all add: fun_eq_iff)
  show ?thesis
    using tx w' by (cases r)
      (auto simp: mark_tables_def dest!: tx.tx_ok tx.tx_error mark_tx_ok)
qed

text \<open>The event as stored, with the source key that was looked up, and its primary key.\<close>

definition stored_event :: "write_env \<Rightarrow> writer \<Rightarrow> event \<Rightarrow> event" where
  "stored_event env w ev = ev\<lparr>ev_SourcePK := sourcePKFor (we_pk_query env) ev (view (w_db w))\<rparr>"

definition event_id :: "(string \<Rightarrow> string) \<Rightarrow> event \<Rightarrow> string" where
  "event_id H ev = StableMessageID H (ev_ChatJID ev) (ev_MsgID ev) (ev_SenderJID ev)
     (ev_Timestamp ev) (ev_SourcePK ev)"

definition event_hash :: "(string \<Rightarrow> string) \<Rightarrow> event \<Rightarrow> string" where
  "event_hash H ev = TextHash H (ev_Text ev) (ev_MediaTitle ev)"

lemma stored_event_fields [simp]:
  "ev_ChatJID (stored_event env w ev) = ev_ChatJID ev"
  "ev_MsgID (stored_event env w ev) = ev_MsgID ev"
  "ev_SenderJID (stored_event env w ev) = ev_SenderJID ev"
  "ev_Timestamp (stored_event env w ev) = ev_Timestamp ev"
  "ev_Text (stored_event env w ev) = ev_Text ev"
  "ev_MediaTitle (stored_event env w ev) = ev_MediaTitle ev"
  "ev_MediaBytes (stored_event env w ev) = ev_MediaBytes ev"
  "ev_FromMe (stored_event env w ev) = ev_FromMe ev"
  "ev_ChatLabel (stored_event env w ev) = ev_ChatLabel ev"
  "event_key (stored_event env w ev) = event_key ev"
  "status_of (stored_event env w ev) = status_of ev"
  by (simp_all add: stored_event_def event_key_def status_of_def)

definition complete_event :: "event \<Rightarrow> bool" where
  "complete_event ev \<longleftrightarrow> ev_ChatJID ev \<noteq> [] \<and> ev_MsgID ev \<noteq> [] \<and> ev_Timestamp ev \<noteq> 0"

text \<open>How the media block ends, in terms of the mark left in the tables.\<close>

definition media_outcome ::
  "(string \<Rightarrow> string) \<Rightarrow> write_env \<Rightarrow> event \<Rightarrow> writer \<Rightarrow> result \<Rightarrow> mark \<Rightarrow>
     result \<Rightarrow> go_error option \<Rightarrow> writer \<Rightarrow> bool" where
  "media_outcome ulower env ev w res1 m res r w' \<longleftrightarrow>
     (if ev_MediaBytes ev = [] then r = None \<and> m = NoMark \<and> res = res1 \<and> w_files w' = w_files w
      else
        case writeMedia ulower (we_media env) (w_mediaRoot w) ev (w_files w) of
          (Inl e, fs) \<Rightarrow> w_files w' = fs \<and> res = res1 \<and> r \<noteq> None \<and> m \<in> {NoMark, HydrationFailed}
        | (Inr path, fs) \<Rightarrow> w_files w' = fs \<and>
            res = res1\<lparr>res_MediaPath := path, res_Updated := res_Updated res1 \<or> \<not> res_Inserted res1\<rparr> \<and>
            m = (if r = None then Hydrated path (we_mark_now env) else NoMark))"

lemma write_media_step_outcome:
  assumes "write_media_step ulower env ev i runID res1 w = ((res, r), w')"
  shows "\<exists>m. durable (w_db w') = mark_tables m i runID (durable (w_db w)) \<and>
    media_outcome ulower env ev w res1 m res r w'"
proof (cases "ev_MediaBytes ev = []")
  case True
  then show ?thesis
    using assms by (intro exI [of _ NoMark]) (auto simp: write_media_step_def media_outcome_def)
next
  case False
  obtain o' fs where wm: "writeMedia ulower (we_media env) (w_mediaRoot w) ev (w_files w) = (o', fs)"
    by (cases "writeMedia ulower (we_media env) (w_mediaRoot w) ev (w_files w)")
  show ?thesis
  proof (cases o')
    case (Inl e)
    obtain r2 w2 where mk: "markMediaFailure env i runID (w\<lparr>w_files := fs\<rparr>) = (r2, w2)"
      by (cases "markMediaFailure env i runID (w\<lparr>w_files := fs\<rparr>)")
    then show ?thesis
      using assms False wm Inl markMediaFailure_effect [OF mk]
      by (intro exI [of _ "if r2 = None then HydrationFailed else NoMark"])
        (auto simp: write_media_step_def media_outcome_def split: option.splits)
  next
    case (Inr path)
    obtain r2 w2 where mk: "markMediaOK env i runID path (w\<lparr>w_files := fs\<rparr>) = (r2, w2)"
      by (cases "markMediaOK env i runID path (w\<lparr>w_files := fs\<rparr>)")
    then show ?thesis
      using assms False wm Inr markMediaOK_effect [OF mk]
      by (intro exI [of _ "if r2 = None then Hydrated path (we_mark_now env) else NoMark"])
        (auto simp: write_media_step_def media_outcome_def split: option.splits)
  qed
qed

lemma Write_cases:
  assumes W: "Write H ulower env ev w = ((res, r), w')"
  obtains (rejected) e where "res = zero_result" "r = Some e"
      "durable (w_db w') = durable (w_db w)" "w_files w' = w_files w"
  | (stored) res1 runID t1 m w1 where
      "complete_event ev" "idle (w_db w)" "res_ID res1 = event_id H (stored_event env w ev)"
      "write_effect H env (w_allowedGroupCount w) (stored_event env w ev)
         (event_id H (stored_event env w ev)) (event_hash H ev) res1 runID (durable (w_db w)) t1"
      "durable (w_db w') = mark_tables m (event_id H (stored_event env w ev)) runID t1"
      "w_files w1 = w_files w" "w_mediaRoot w1 = w_mediaRoot w"
      "media_outcome ulower env (stored_event env w ev) w1 res1 m res r w'"
proof (cases "we_ctx env = None \<and> complete_event ev")
  case False
  then have "res = zero_result \<and> r \<noteq> None \<and> w' = w"
  proof (cases "we_ctx env")
    case None
    then have "ev_ChatJID ev = [] \<or> ev_MsgID ev = [] \<or> ev_Timestamp ev = 0"
      using False by (auto simp: complete_event_def)
    then show ?thesis using W None by (auto simp: Write_def)
  next
    case (Some e)
    then show ?thesis using W by (simp add: Write_def) metis
  qed
  then show thesis by (auto intro: rejected)
next
  case True
  let ?ev = "stored_event env w ev" let ?i = "event_id H (stored_event env w ev)"
  let ?n = "w_allowedGroupCount w" let ?h = "event_hash H ev"
  let ?v = "(zero_result\<lparr>res_ID := ?i\<rparr>, [], w_ftsUnavailable w)"
  obtain res1 runID fts r1 c where tx: "WithTx (we_tx env) ?v
      (write_tx H env ?n ?ev ?i ?h ?v) (w_db w) = ((res1, runID, fts), r1, c)"
    by (metis prod.collapse)
  let ?w1 = "w\<lparr>w_db := c, w_ftsUnavailable := fts\<rparr>"
  have "Write H ulower env ev w =
      (case ((res1, runID, fts), r1, c) of
         ((res, runID, fts), Some e, c) \<Rightarrow>
           ((zero_result, Some e), w\<lparr>w_db := c, w_ftsUnavailable := fts\<rparr>)
       | ((res, runID, fts), None, c) \<Rightarrow>
           write_media_step ulower env ?ev ?i runID res (w\<lparr>w_db := c, w_ftsUnavailable := fts\<rparr>))"
    unfolding tx [symmetric] Write_def Let_def stored_event_def event_id_def event_hash_def
    using True by (simp add: complete_event_def)
  note W' = W [unfolded this prod.case]
  show thesis
  proof (cases r1)
    case (Some e)
    have "durable c = durable (w_db w)" using tx.tx_error [OF tx [unfolded Some]] .
    then show thesis
      using W' Some by (intro rejected [of e]) auto
  next
    case None
    have ok: "idle (w_db w)"
      "write_tx H env ?n ?ev ?i ?h ?v (durable (w_db w)) = ((res1, runID, fts), durable c, None)"
      using tx.tx_ok [OF tx [unfolded None]] by simp_all
    note eff = write_tx_ok [OF ok(2)]
    have res1: "res_ID res1 = ?i"
      using arg_cong [OF conjunct2 [OF eff], of res_ID] by simp
    obtain m where m: "durable (w_db w') = mark_tables m ?i runID (durable c)"
      "media_outcome ulower env ?ev ?w1 res1 m res r w'"
      using write_media_step_outcome W' None by fastforce
    show thesis
      using True ok(1) res1 conjunct1 [OF eff] m
      by (intro stored [of res1 runID "durable c" m ?w1]) simp_all
  qed
qed

section \<open>The invariant is kept\<close>

lemma run_ok_merge: "run_ok x \<Longrightarrow> run_ok y \<Longrightarrow> run_ok (merge_run x y)"
  by (auto simp: run_ok_def merge_run_def)

lemma id_ok_merge: "id_ok H (merge_message x y) = id_ok H y"
  by (simp add: id_ok_def)

lemma id_ok_message_of: "i = event_id H ev \<Longrightarrow> id_ok H (message_of i now h s a ev)"
  by (simp add: id_ok_def event_id_def)

lemma db_ok_write_effect:
  assumes ok: "db_ok H t" and eff: "write_effect H env n ev i h res runID t t1"
    and i: "i = event_id H ev"
  shows "db_ok H t1"
proof -
  let ?x = "message_of i (we_now env) h (status_of ev) (attempts_of ev) ev"
  obtain run where run: "run_ok run" "t_runs t1 = upsert rn_run_id merge_run run (t_runs t)"
    using eff by (auto simp: write_effect_def)
  have msgs: "t_messages t1 = upsert mr_id merge_message ?x (t_messages t)"
    and grps: "t_groups t1 = t_groups t"
    and fk: "row_of mr_id i (t_messages t) = None \<longrightarrow> ev_ChatJID ev \<in> gr_jid ` set (t_groups t)"
    using eff by (simp_all add: write_effect_def)
  have rows: "mr_chat_jid r \<in> gr_jid ` set (t_groups t1) \<and> id_ok H r" if "r \<in> set (t_messages t1)" for r
  proof -
    consider "row_of mr_id i (t_messages t) = None" "r = ?x" | "r \<in> set (t_messages t)"
      | y where "y \<in> set (t_messages t)" "r = merge_message ?x y"
      using messages_tab.set_upsertD [OF \<open>r \<in> set (t_messages t1)\<close> [unfolded msgs]] by auto
    then show ?thesis
      using ok fk grps by cases (auto simp: db_ok_def id_ok_message_of [OF i] id_ok_merge)
  qed
  have runs: "run_ok r" if "r \<in> set (t_runs t1)" for r
    using runs_tab.set_upsertD [OF that [unfolded run(2)]] run(1) ok
    by (auto simp: db_ok_def run_ok_merge)
  show ?thesis
    using ok rows runs grps
    by (auto simp: db_ok_def msgs run(2) messages_tab.unique_upsert runs_tab.unique_upsert)
qed

lemma db_ok_mark: "db_ok H t \<Longrightarrow> db_ok H (mark_tables m i runID t)"
  by (auto simp: db_ok_def mark_tables_def unique_key_update_where set_update_where)

lemma db_ok_Write [inv_intros]:
  assumes "db_ok H (durable (w_db w))" "Write H ulower env ev w = ((res, r), w')"
  shows "db_ok H (durable (w_db w'))"
  using assms(2)
proof (cases rule: Write_cases)
  case (stored res1 runID t1 m w1)
  then show ?thesis
    using db_ok_write_effect [OF assms(1)] by (simp add: db_ok_mark)
qed (use assms in simp)

lemma db_ok_ensure_groups_tx:
  "db_ok H t \<Longrightarrow> ensure_groups_tx fault now gs t = (u, t', r) \<Longrightarrow> db_ok H t'"
proof (induction fault now gs t rule: ensure_groups_tx.induct)
  case (2 fault now g gs t)
  have "db_ok H (t\<lparr>t_groups := upsert gr_jid merge_group (group_row_of now g) (t_groups t)\<rparr>)"
    using "2.prems"(1) by (auto simp: db_ok_def groups_tab.unique_upsert groups_tab.keys_upsert)
  then show ?case using 2 by (auto split: option.splits)
qed simp

lemma db_ok_EnsureGroups [inv_intros]:
  assumes "db_ok H (durable (w_db w))" "EnsureGroups e fault now gs w = (r, w')"
  shows "db_ok H (durable (w_db w'))"
proof -
  obtain u c where tx: "WithTx e () (ensure_groups_tx fault now gs) (w_db w) = (u, r, c)"
    and w': "w_db w' = c"
    using assms(2) by (auto simp: EnsureGroups_def split: prod.splits)
  have "db_ok H (durable c)"
    by (rule tx.tx_invariant [OF tx, where P = "db_ok H"])
      (use assms(1) db_ok_ensure_groups_tx in blast)+
  then show ?thesis by (simp add: w')
qed

text \<open>The groups a successful \<open>EnsureGroups\<close> leaves: every listed chat, and all there were.\<close>

lemma ensure_groups_tx_keys:
  "ensure_groups_tx fault now gs t = (u, t', None) \<Longrightarrow>
    gr_jid ` set (t_groups t') = gr_jid ` set (t_groups t) \<union> g_JID ` set gs \<and>
    t_messages t' = t_messages t \<and> t_runs t' = t_runs t"
proof (induction fault now gs t rule: ensure_groups_tx.induct)
  case (2 fault now g gs t)
  then show ?case
    by (auto simp: groups_tab.keys_upsert group_row_of_def split: option.splits)
qed simp

section \<open>One message, one row\<close>

text \<open>
  Natural keys stay unique among the rows as long as the events carry no source key of
  their own (none the daemon builds does) and the lookup of the existing source key does
  not fail: a redelivered message meets the row it made before.
\<close>

lemma sourcePKFor_lookup:
  assumes "ev_SourcePK ev = 0" "r \<in> set (t_messages t)" "natural_key r = event_key ev"
    "unique_key natural_key (t_messages t)"
  shows "sourcePKFor None ev t = mr_source_pk r"
proof -
  let ?rows = "filter (\<lambda>r. natural_key r = event_key ev) (t_messages t)"
  have "r \<in> set ?rows" using assms(2,3) by simp
  then have ne: "sort_key (\<lambda>r. - mr_source_pk r) ?rows \<noteq> []"
    by (metis empty_iff list.set(1) set_sort)
  then obtain q qs where q: "sort_key (\<lambda>r. - mr_source_pk r) ?rows = q # qs"
    by (meson neq_Nil_conv)
  then have "q \<in> set ?rows" by (metis list.set_intros(1) set_sort)
  then have "q = r"
    using unique_key_inj [OF assms(4) _ assms(2), of q] assms(3) by simp
  then show ?thesis using assms(1) q by (simp add: sourcePKFor_def)
qed

lemma event_id_of_row:
  assumes "id_ok H r" "natural_key r = event_key ev" "ev_SourcePK ev = mr_source_pk r"
  shows "event_id H ev = mr_id r"
  using assms by (simp add: id_ok_def event_id_def natural_key_def event_key_def)

lemma natural_unique_effect:
  assumes ok: "db_ok H t" and uniq: "unique_key natural_key (t_messages t)"
    and eff: "write_effect H env n ev i h res runID t t1" and i: "i = event_id H ev"
    and pk: "\<And>r. r \<in> set (t_messages t) \<Longrightarrow> natural_key r = event_key ev \<Longrightarrow>
      ev_SourcePK ev = mr_source_pk r"
  shows "unique_key natural_key (t_messages t1)"
proof -
  let ?x = "message_of i (we_now env) h (status_of ev) (attempts_of ev) ev"
  have msgs: "t_messages t1 = upsert mr_id merge_message ?x (t_messages t)"
    using eff by (simp add: write_effect_def)
  show ?thesis
  proof (cases "row_of mr_id i (t_messages t)")
    case None
    have "natural_key r \<noteq> event_key ev" if "r \<in> set (t_messages t)" for r
    proof
      assume nk: "natural_key r = event_key ev"
      have "id_ok H r" using ok that by (simp add: db_ok_def)
      then have "i = mr_id r" using event_id_of_row [OF _ nk] pk [OF that nk] i by simp
      then show False using None that by (auto simp: row_of_None)
    qed
    then have "event_key ev \<notin> natural_key ` set (t_messages t)" by (metis imageE)
    then show ?thesis
      using None uniq by (simp add: msgs messages_tab.upsert_fresh unique_key_def)
  next
    case (Some old)
    have "map natural_key (upsert mr_id merge_message ?x rows) = map natural_key rows"
      if "row_of mr_id i rows \<noteq> None" for rows
      using that by (induction rows) (auto split: if_splits)
    then show ?thesis using Some uniq by (simp add: msgs unique_key_def)
  qed
qed

lemma natural_unique_mark:
  "unique_key natural_key (t_messages (mark_tables m i runID t)) = unique_key natural_key (t_messages t)"
  by (simp add: mark_tables_def unique_key_update_where)

lemma natural_unique_Write:
  assumes ok: "db_ok H (durable (w_db w))" "unique_key natural_key (t_messages (durable (w_db w)))"
    and ev: "ev_SourcePK ev = 0" "we_pk_query env = None"
    and W: "Write H ulower env ev w = ((res, r), w')"
  shows "unique_key natural_key (t_messages (durable (w_db w')))"
  using W
proof (cases rule: Write_cases)
  case (stored res1 runID t1 m w1)
  have "ev_SourcePK (stored_event env w ev) = mr_source_pk q"
    if "q \<in> set (t_messages (durable (w_db w)))" "natural_key q = event_key (stored_event env w ev)" for q
    using sourcePKFor_lookup [OF ev(1) that(1)] that(2) ok(2) ev(2) stored(2)
    by (simp add: stored_event_def durable_idle event_key_def)
  then show ?thesis
    using natural_unique_effect [OF ok stored(4) refl] by (simp add: stored(5) natural_unique_mark)
qed (use ok in simp)

section \<open>Redelivery\<close>

lemma natural_keys_upsert:
  "natural_key ` set rows \<subseteq> natural_key ` set (upsert mr_id merge_message x rows)"
  by (induction rows) auto

lemma write_effect_row:
  assumes "write_effect H env n ev i h res runID t t1"
  shows "row_of mr_id i (t_messages t1) =
    Some (let x = message_of i (we_now env) h (status_of ev) (attempts_of ev) ev in
      case row_of mr_id i (t_messages t) of None \<Rightarrow> x | Some y \<Rightarrow> merge_message x y)"
  using assms by (simp add: write_effect_def messages_tab.lookup_upsert Let_def)

lemma sourcePKFor_missing:
  "ev_SourcePK ev = 0 \<Longrightarrow> event_key ev \<notin> natural_key ` set (t_messages t) \<Longrightarrow> sourcePKFor None ev t = 0"
proof -
  assume a: "ev_SourcePK ev = 0" "event_key ev \<notin> natural_key ` set (t_messages t)"
  then have "filter (\<lambda>r. natural_key r = event_key ev) (t_messages t) = []"
    by (auto simp: filter_empty_conv image_iff)
  then show ?thesis using a(1) by (simp add: sourcePKFor_def)
qed

lemma write_effect_pk:
  assumes uniq: "unique_key natural_key (t_messages t)" "unique_key natural_key (t_messages t1)"
    and eff: "write_effect H env n ev i h res runID t t1"
    and pk: "ev_SourcePK ev = sourcePKFor None ev0 t" "ev_SourcePK ev0 = 0" "event_key ev = event_key ev0"
  shows "sourcePKFor None ev0 t1 = ev_SourcePK ev"
proof -
  let ?x = "message_of i (we_now env) h (status_of ev) (attempts_of ev) ev"
  have msgs: "t_messages t1 = upsert mr_id merge_message ?x (t_messages t)"
    using eff by (simp add: write_effect_def)
  have look: "mr_source_pk r = ev_SourcePK ev"
    if "r \<in> set (t_messages t)" "natural_key r = event_key ev0" for r
    using sourcePKFor_lookup [OF pk(2) that uniq(1)] pk(1) by simp
  show ?thesis
  proof (cases "event_key ev0 \<in> natural_key ` set (t_messages t1)")
    case True
    then obtain r where r: "r \<in> set (t_messages t1)" "natural_key r = event_key ev0" by force
    have "mr_source_pk r = ev_SourcePK ev"
      using messages_tab.set_upsertD [OF r(1) [unfolded msgs]] look r(2) by auto
    then show ?thesis using sourcePKFor_lookup [OF pk(2) r uniq(2)] by simp
  next
    case False
    then have "event_key ev0 \<notin> natural_key ` set (t_messages t)"
      using natural_keys_upsert msgs by (metis subsetD)
    then show ?thesis using False pk(1,2) sourcePKFor_missing by metis
  qed
qed

section \<open>Media files\<close>

text \<open>
  The documented behaviour of \<open>strings.ToLower\<close> outside ASCII that confinement needs: no
  letter's lower case is a slash.
\<close>

definition lower_ok :: "(string \<Rightarrow> string) \<Rightarrow> bool" where
  "lower_ok ulower \<longleftrightarrow> (\<forall>s. CHR ''/'' \<notin> set s \<longrightarrow> CHR ''/'' \<notin> set (ulower s))"

lemma slash_unsafe: "\<not> safe_char CHR ''/''"
  by (simp add: safe_char_def is_digit_def byte_def)

lemma collapse_safe: "c \<in> set (collapse_unsafe b s) \<Longrightarrow> safe_char c"
  by (induction b s rule: collapse_unsafe.induct)
    (auto simp: safe_char_def [of "CHR ''_''"] split: if_splits)

lemma set_Trim: "set (strings_Trim s cs) \<subseteq> set s"
  unfolding strings_Trim_def by (metis set_dropWhileD set_rev subsetI)

lemma hd_Trim: "strings_Trim s cs \<noteq> [] \<Longrightarrow> hd (strings_Trim s cs) \<notin> set cs"
proof -
  let ?t = "dropWhile (\<lambda>c. c \<in> set cs) s"
  assume ne: "strings_Trim s cs \<noteq> []"
  have "rev (takeWhile (\<lambda>c. c \<in> set cs) (rev ?t)) = drop (length (strings_Trim s cs)) ?t"
    "?t = strings_Trim s cs @ rev (takeWhile (\<lambda>c. c \<in> set cs) (rev ?t))"
    unfolding strings_Trim_def
    by (metis append_eq_conv_conj rev_append rev_rev_ident takeWhile_dropWhile_id,
        metis rev_append rev_rev_ident takeWhile_dropWhile_id)
  then have "hd ?t = hd (strings_Trim s cs)" "?t \<noteq> []"
    using ne by (metis hd_append2, metis append_is_Nil_conv)
  then show ?thesis using hd_dropWhile by metis
qed

lemma safePathPart_props:
  "safePathPart v \<noteq> []" "CHR ''/'' \<notin> set (safePathPart v)" "hd (safePathPart v) \<noteq> CHR ''.''"
proof -
  let ?t = "strings_Trim (collapse_unsafe False v) ''._''"
  have "CHR ''/'' \<notin> set ?t" using set_Trim collapse_safe slash_unsafe by blast
  moreover have "?t \<noteq> [] \<Longrightarrow> hd ?t \<noteq> CHR ''.''" using hd_Trim by fastforce
  ultimately show "safePathPart v \<noteq> []" "CHR ''/'' \<notin> set (safePathPart v)"
    "hd (safePathPart v) \<noteq> CHR ''.''"
    by (auto simp: safePathPart_def Let_def)
qed

lemma plain_safe_append:
  assumes "CHR ''/'' \<notin> set ext"
  shows "plain_part (safePathPart v @ ext)"
  using assms safePathPart_props [of v]
  by (cases "safePathPart v") (auto simp: plain_part_def)

lemma cleanExt_no_slash: "lower_ok ulower \<Longrightarrow> CHR ''/'' \<notin> set (cleanExt ulower ext)"
proof -
  have "CHR ''/'' \<notin> set (map ascii_lower e)" if "CHR ''/'' \<notin> set e" for e
  proof
    assume "CHR ''/'' \<in> set (map ascii_lower e)"
    then obtain c where c: "c \<in> set e" "ascii_lower c = CHR ''/''" by auto
    have slash: "byte CHR ''/'' = 47" by (simp add: byte_def)
    show False
    proof (cases "65 \<le> byte c \<and> byte c \<le> 90")
      case True
      then have "byte (ascii_lower c) = byte c + 32" by (simp add: ascii_lower_def byte_char_of)
      then show False using True c(2) slash by simp
    next
      case False
      then have "ascii_lower c = c" unfolding ascii_lower_def by (rule if_not_P)
      then show False using c that by simp
    qed
  qed
  then show "lower_ok ulower \<Longrightarrow> CHR ''/'' \<notin> set (cleanExt ulower ext)"
    by (auto simp: cleanExt_def strings_ToLower_def lower_ok_def Let_def)
qed

lemma extForType_no_slash: "CHR ''/'' \<notin> set (extForType ulower t)"
  by (simp add: extForType_def Let_def)

lemma writeMedia_cases:
  assumes "writeMedia ulower io root ev fs = (o', fs')"
  shows "(\<forall>p. p \<noteq> media_final ulower root ev @ ''.tmp'' \<longrightarrow> p \<noteq> media_final ulower root ev \<longrightarrow> fs' p = fs p) \<and>
    (case o' of
       Inl e \<Rightarrow> fs' (media_final ulower root ev) = fs (media_final ulower root ev)
     | Inr path \<Rightarrow> path = media_final ulower root ev \<and> fs' path = Some (ev_MediaBytes ev) \<and>
         fs' (path @ ''.tmp'') = None)"
proof -
  let ?f = "media_final ulower root ev"
  have ne: "?f @ ''.tmp'' \<noteq> ?f" by simp
  show ?thesis
    using assms ne unfolding writeMedia_def Let_def
    by (auto split: option.splits prod.splits)
qed

end
