(* ===== verification/Store_Properties.thy ===== *)
theory Store_Properties
  imports Store_Laws
begin

text \<open>
  The properties of the message store: its invariant over every run of its operations, the
  atomicity of a failed write, what a successful write stores, redelivery, media files, the
  keys that hash a message, and the run rows that gate the reader's cursor.
\<close>

section \<open>Runs of the store\<close>

text \<open>
  A step of the store's tables: a delivered event, a synchronisation of the groups, or the
  agent that fills the two columns the daemon leaves to it. \<open>P\<close> restricts the writes.
\<close>

definition annotate :: "string \<Rightarrow> string option \<Rightarrow> string option \<Rightarrow> tables \<Rightarrow> tables" where
  "annotate i extracted by_whom t =
     t\<lparr>t_messages := update_where (\<lambda>r. mr_id r = i)
        (\<lambda>r. r\<lparr>mr_media_extracted_text := extracted, mr_media_extracted_by := by_whom\<rparr>) (t_messages t)\<rparr>"

inductive store_step ::
  "(write_env \<Rightarrow> event \<Rightarrow> bool) \<Rightarrow> (string \<Rightarrow> string) \<Rightarrow> (string \<Rightarrow> string) \<Rightarrow> writer \<Rightarrow> writer \<Rightarrow> bool"
  for P H ulower where
  st_write: "P env ev \<Longrightarrow> store_step P H ulower w (snd (Write H ulower env ev w))"
| st_groups: "store_step P H ulower w (snd (EnsureGroups e fault now gs w))"
| st_annotate: "idle (w_db w) \<Longrightarrow>
    store_step P H ulower w (w\<lparr>w_db := opened (annotate i extracted by_whom (view (w_db w)))\<rparr>)"

inductive store_run ::
  "(write_env \<Rightarrow> event \<Rightarrow> bool) \<Rightarrow> (string \<Rightarrow> string) \<Rightarrow> (string \<Rightarrow> string) \<Rightarrow> writer \<Rightarrow> writer \<Rightarrow> bool"
  for P H ulower where
  run_done: "store_run P H ulower w w"
| run_step: "store_run P H ulower w w1 \<Longrightarrow> store_step P H ulower w1 w2 \<Longrightarrow> store_run P H ulower w w2"

definition new_writer :: "string \<Rightarrow> writer" where
  "new_writer root = \<lparr>w_db = opened empty_tables, w_mediaRoot = root, w_allowedGroupCount = 0,
     w_ftsUnavailable = False, w_files = (\<lambda>_. None)\<rparr>"

lemma db_ok_annotate: "db_ok H t \<Longrightarrow> db_ok H (annotate i extracted by_whom t)"
  by (auto simp: db_ok_def annotate_def unique_key_update_where set_update_where id_ok_def)

lemma db_ok_step: "store_step P H ulower w w' \<Longrightarrow> db_ok H (durable (w_db w)) \<Longrightarrow> db_ok H (durable (w_db w'))"
proof (induction rule: store_step.induct)
  case (st_write env ev w)
  then show ?case using db_ok_Write by (metis prod.collapse)
next
  case (st_groups w e fault now gs)
  then show ?case using db_ok_EnsureGroups by (metis prod.collapse)
next
  case (st_annotate w i extracted by_whom)
  then show ?case using db_ok_annotate by (simp add: durable_idle)
qed

text \<open>
  C3. From the empty schema, whatever events are delivered, whatever groups are synchronised,
  whatever statement, commit or media write fails on the way, the tables satisfy the store's
  invariant: primary keys are unique, every message belongs to a known group, a message's
  id is the stable hash of its own columns, and every run row counts each scanned message
  exactly once as inserted, updated or skipped.
\<close>

theorem store_invariant:
  "store_run P H ulower (new_writer root) w \<Longrightarrow> db_ok H (durable (w_db w))"
proof (induction "new_writer root" w rule: store_run.induct)
  case run_done
  then show ?case by (simp add: new_writer_def db_ok_empty)
qed (blast intro: db_ok_step)

theorem store_invariant_witness:
  "db_ok (\<lambda>s. s) (durable (w_db (snd (EnsureGroups no_fault (\<lambda>_. None) 7
     [\<lparr>g_JID = ''1@lid'', g_Label = ''L'', g_Tenants = [''t''], g_Purpose = [], g_IngestText = True,
       g_IngestMediaMetadata = True, g_CopyMedia = False, g_IndexEmbeddings = False,
       g_RetentionDays = None\<rparr>] (new_writer ''m'')))))"
  by (rule store_invariant [where P = "\<lambda>_ _. True"], rule run_step, rule run_done, rule st_groups)

section \<open>A sample store\<close>

text \<open>A small store for the witnesses: one group, a clock, no faults.\<close>

definition sample_group :: group where
  "sample_group = \<lparr>g_JID = ''1@lid'', g_Label = ''L'', g_Tenants = [''t''], g_Purpose = [],
     g_IngestText = True, g_IngestMediaMetadata = True, g_CopyMedia = True,
     g_IndexEmbeddings = False, g_RetentionDays = None\<rparr>"

definition sample_writer :: writer where
  "sample_writer = (new_writer ''m'')\<lparr>w_db := opened (empty_tables\<lparr>t_groups := [group_row_of 1 sample_group]\<rparr>)\<rparr>"

definition sample_env :: write_env where
  "sample_env = \<lparr>we_ctx = None, we_now = 9, we_pk_query = None, we_tx = no_fault, we_select = None,
     we_upsert = None, we_fts_delete = None, we_fts_insert = None, we_run = None,
     we_media = \<lparr>mio_mkdir = None, mio_open = None, mio_write = None, mio_sync = None,
       mio_close = None, mio_rename = None\<rparr>,
     we_mark_now = 10, we_mark_tx = no_fault, we_mark_message = None, we_mark_run = None\<rparr>"

definition sample_event :: event where
  "sample_event = \<lparr>ev_ChatJID = ''1@lid'', ev_ChatLabel = ''L'', ev_MsgID = ''A'', ev_SenderJID = ''2@lid'',
     ev_SenderName = ''S'', ev_Timestamp = 5, ev_FromMe = False, ev_Text = ''hi'', ev_RawType = 0,
     ev_MessageType = ''image'', ev_MediaType = [], ev_MediaTitle = [], ev_MediaPath = [],
     ev_MediaURL = [], ev_MediaSize = 0, ev_MediaBytes = [], ev_MediaExt = ''.JPG'',
     ev_MediaHydrationStatus = [], ev_MediaHydrationAttempts = 0, ev_SourcePK = 0\<rparr>"



lemma sample_ok: "Write (\<lambda>s. s) (\<lambda>s. s) sample_env sample_event sample_writer =
    ((fst (fst (Write (\<lambda>s. s) (\<lambda>s. s) sample_env sample_event sample_writer)), None),
     snd (Write (\<lambda>s. s) (\<lambda>s. s) sample_env sample_event sample_writer))"
proof -
  have "snd (fst (Write (\<lambda>s. s) (\<lambda>s. s) sample_env sample_event sample_writer)) = None"
    by code_simp
  then show ?thesis by (metis prod.collapse)
qed

definition sample_media :: event where
  "sample_media = sample_event\<lparr>ev_MediaBytes := ''abc''\<rparr>"

lemma sample_media_ok: "Write (\<lambda>s. s) (\<lambda>s. s) sample_env sample_media sample_writer =
    ((fst (fst (Write (\<lambda>s. s) (\<lambda>s. s) sample_env sample_media sample_writer)), None),
     snd (Write (\<lambda>s. s) (\<lambda>s. s) sample_env sample_media sample_writer))"
proof -
  have "snd (fst (Write (\<lambda>s. s) (\<lambda>s. s) sample_env sample_media sample_writer)) = None"
    by code_simp
  then show ?thesis by (metis prod.collapse)
qed

section \<open>Atomic failure\<close>

lemma Write_failed:
  assumes "Write H ulower env ev w = ((res, Some e), w')" "ev_MediaBytes ev = []"
  shows "res = zero_result \<and> durable (w_db w') = durable (w_db w) \<and> w_files w' = w_files w"
  using assms(1)
proof (cases rule: Write_cases)
  case (stored res1 runID t1 m w1)
  then show ?thesis using assms(2) by (simp add: media_outcome_def)
qed simp

lemma Write_no_bytes:
  assumes "Write H ulower env ev w = ((res, r), w')" "ev_MediaBytes ev = []"
  shows "w_files w' = w_files w"
  using assms(1)
proof (cases rule: Write_cases)
  case (stored res1 runID t1 m w1)
  then show ?thesis using assms(2) by (simp add: media_outcome_def)
qed simp

text \<open>
  C20. A write of an event without media bytes that returns an error has changed nothing:
  not the durable tables, not a media file, and the result is the zero result.
\<close>

theorem Write_error_atomic:
  assumes "Write H ulower env ev w = ((res, Some e), w')" "ev_MediaBytes ev = []"
  shows "res = zero_result \<and> durable (w_db w') = durable (w_db w) \<and> w_files w' = w_files w"
  by (rule Write_failed [OF assms])

theorem Write_error_atomic_witness:
  "w_files (snd (Write (\<lambda>s. s) (\<lambda>s. s) sample_env (sample_event\<lparr>ev_ChatJID := ''9@lid''\<rparr>) sample_writer)) =
    w_files sample_writer"
proof -
  let ?W = "Write (\<lambda>s. s) (\<lambda>s. s) sample_env (sample_event\<lparr>ev_ChatJID := ''9@lid''\<rparr>) sample_writer"
  have "snd (fst ?W) = Some (ErrMsg ''FOREIGN KEY constraint failed'')" by code_simp
  then have "?W = ((fst (fst ?W), Some (ErrMsg ''FOREIGN KEY constraint failed'')), snd ?W)"
    by (metis prod.collapse)
  from Write_error_atomic [OF this] show ?thesis by (simp add: sample_event_def)
qed

section \<open>What a successful write stores\<close>

lemma row_of_mark_tables:
  "row_of mr_id j (t_messages (mark_tables m i runID t)) =
    (if j = i then map_option (mark_message m) (row_of mr_id j (t_messages t))
     else row_of mr_id j (t_messages t))"
  by (simp add: mark_tables_def row_of_update_key)

lemma media_outcome_result:
  assumes "media_outcome ulower env ev w res1 m res r w'"
  shows "res_ID res = res_ID res1 \<and> res_Inserted res = res_Inserted res1"
proof (cases "ev_MediaBytes ev = []")
  case False
  moreover obtain o' fs where "writeMedia ulower (we_media env) (w_mediaRoot w) ev (w_files w) = (o', fs)"
    by (cases "writeMedia ulower (we_media env) (w_mediaRoot w) ev (w_files w)")
  ultimately show ?thesis using assms by (cases o') (simp_all add: media_outcome_def)
qed (use assms in \<open>simp add: media_outcome_def\<close>)

lemma write_effect_others:
  "write_effect H env n ev i h res runID t t1 \<Longrightarrow> j \<noteq> i \<Longrightarrow>
    row_of mr_id j (t_messages t1) = row_of mr_id j (t_messages t)"
  by (simp add: write_effect_def messages_tab.lookup_upsert)

text \<open>The columns every write sets from the event, on a new row and on an old one alike.\<close>

definition row_matches :: "(string \<Rightarrow> string) \<Rightarrow> int64 \<Rightarrow> event \<Rightarrow> message_row \<Rightarrow> bool" where
  "row_matches H now ev r \<longleftrightarrow>
     mr_text r = nullEmpty (ev_Text ev) \<and> mr_sender_name r = nullEmpty (ev_SenderName ev) \<and>
     mr_message_type r = nullEmpty (ev_MessageType ev) \<and>
     mr_media_type r = nullEmpty (ev_MediaType ev) \<and>
     mr_media_title r = nullEmpty (ev_MediaTitle ev) \<and>
     mr_media_path r = nullEmpty (ev_MediaPath ev) \<and> mr_media_url r = nullEmpty (ev_MediaURL ev) \<and>
     mr_media_size r = nullZero (ev_MediaSize ev) \<and>
     mr_text_hash r = TextHash H (ev_Text ev) (ev_MediaTitle ev) \<and> mr_ingested_at r = now \<and>
     mr_deleted_or_missing r = 0"

lemma row_matches_mark: "row_matches H now ev (mark_message m r) = row_matches H now ev r"
  by (cases m) (simp_all add: row_matches_def hydrate_message_def fail_message_def)

lemma row_matches_new:
  "row_matches H now ev (message_of i now (TextHash H (ev_Text ev) (ev_MediaTitle ev)) s a ev)"
  "row_matches H now ev (merge_message
     (message_of i now (TextHash H (ev_Text ev) (ev_MediaTitle ev)) s a ev) old)"
  by (simp_all add: row_matches_def message_of_def merge_message_def)

lemma row_matches_stored [simp]: "row_matches H now (stored_event env w ev) = row_matches H now ev"
  by (simp add: fun_eq_iff row_matches_def stored_event_def)

lemma Write_stored:
  assumes W: "Write H ulower env ev w = ((res, None), w')"
  shows "res_ID res = event_id H (stored_event env w ev) \<and>
    (res_Inserted res \<longleftrightarrow> row_of mr_id (res_ID res) (t_messages (durable (w_db w))) = None) \<and>
    (\<exists>r. row_of mr_id (res_ID res) (t_messages (durable (w_db w'))) = Some r \<and>
       row_matches H (we_now env) ev r \<and> (res_Inserted res \<longrightarrow> natural_key r = event_key ev)) \<and>
    (\<forall>j. j \<noteq> res_ID res \<longrightarrow> row_of mr_id j (t_messages (durable (w_db w'))) =
       row_of mr_id j (t_messages (durable (w_db w))))"
  using W
proof (cases rule: Write_cases)
  case (stored res1 runID t1 m w1)
  let ?ev = "stored_event env w ev"
  note out = media_outcome_result [OF stored(8)]
  have ins: "res_Inserted res \<longleftrightarrow> row_of mr_id (res_ID res) (t_messages (durable (w_db w))) = None"
    using stored(3,4) out by (simp add: write_effect_def)
  obtain r where r: "row_of mr_id (res_ID res) (t_messages t1) = Some r"
    "row_matches H (we_now env) ev r" "res_Inserted res \<Longrightarrow> natural_key r = event_key ev"
  proof (cases "row_of mr_id (res_ID res) (t_messages (durable (w_db w)))")
    case None
    with write_effect_row [OF stored(4)] stored(3) out
    have "row_of mr_id (res_ID res) (t_messages t1) =
        Some (message_of (res_ID res) (we_now env) (event_hash H ev) (status_of ev) (attempts_of ?ev) ?ev)"
      by simp
    then show thesis
      using row_matches_new(1) [of H "we_now env" ?ev] that by (simp add: event_hash_def)
  next
    case (Some old)
    with write_effect_row [OF stored(4)] stored(3) out
    have "row_of mr_id (res_ID res) (t_messages t1) = Some (merge_message
        (message_of (res_ID res) (we_now env) (event_hash H ev) (status_of ev) (attempts_of ?ev) ?ev) old)"
      by simp
    then show thesis
      using row_matches_new(2) [of H "we_now env" ?ev] that ins Some by (simp add: event_hash_def)
  qed
  show ?thesis
    using stored(3,5) out ins r write_effect_others [OF stored(4)]
    by (auto simp: row_of_mark_tables row_matches_mark)
qed simp

text \<open>The columns a new row gets from its event and no later write touches.\<close>

definition first_columns :: "event \<Rightarrow> int64 \<Rightarrow> message_row \<Rightarrow> bool" where
  "first_columns ev pk r \<longleftrightarrow>
     mr_source_pk r = pk \<and> mr_chat_jid r = ev_ChatJID ev \<and> mr_chat_label r = ev_ChatLabel ev \<and>
     mr_msg_id r = ev_MsgID ev \<and> mr_sender_jid r = nullEmpty (ev_SenderJID ev) \<and>
     mr_ts r = ev_Timestamp ev \<and> mr_from_me r = ev_FromMe ev \<and> mr_raw_type r = ev_RawType ev \<and>
     mr_media_extracted_text r = None \<and> mr_media_extracted_by r = None"

definition kept_columns :: "message_row \<Rightarrow> message_row \<Rightarrow> bool" where
  "kept_columns old r \<longleftrightarrow>
     mr_source_pk r = mr_source_pk old \<and> mr_chat_jid r = mr_chat_jid old \<and>
     mr_chat_label r = mr_chat_label old \<and> mr_msg_id r = mr_msg_id old \<and>
     mr_sender_jid r = mr_sender_jid old \<and> mr_ts r = mr_ts old \<and> mr_from_me r = mr_from_me old \<and>
     mr_raw_type r = mr_raw_type old \<and> mr_media_extracted_text r = mr_media_extracted_text old \<and>
     mr_media_extracted_by r = mr_media_extracted_by old"

text \<open>
  The columns about the media file: its path, when it was stored, the state of the hydration,
  the attempts and when the reader surfaced it. An event with a hydration status sets the
  status and adds its attempts; media that were written set them all.
\<close>

type_synonym media_state = "string option \<times> int64 option \<times> string option \<times> int \<times> int64 option"

definition media_state :: "message_row \<Rightarrow> media_state" where
  "media_state r = (mr_media_local_path r, mr_media_hydrated_at r, mr_media_hydration_status r,
     mr_media_hydration_attempts r, mr_media_surfaced_at r)"

fun media_after :: "write_env \<Rightarrow> event \<Rightarrow> string \<Rightarrow> media_state \<Rightarrow> media_state" where
  "media_after env ev path (lp, ha, st, n, su) =
     (let st1 = (if ev_MediaHydrationStatus ev = [] then st else Some (ev_MediaHydrationStatus ev));
          n1 = (if ev_MediaHydrationStatus ev = [] then n else n + ev_MediaHydrationAttempts ev)
      in if ev_MediaBytes ev = [] then (lp, ha, st1, n1, su)
         else (Some path, Some (we_mark_now env), Some ''ok'', n1 + 1, None))"

lemma stored_columns:
  fixes ev :: event and env :: write_env and i h path :: string
  defines "x \<equiv> message_of i (we_now env) h (status_of ev) (attempts_of ev) ev"
    and "m \<equiv> (if ev_MediaBytes ev = [] then NoMark else Hydrated path (we_mark_now env))"
  shows "first_columns ev (ev_SourcePK ev) (mark_message m x)"
    and "media_state (mark_message m x) = media_after env ev path (None, None, None, 0, None)"
    and "kept_columns old (mark_message m (merge_message x old))"
    and "media_state (mark_message m (merge_message x old)) = media_after env ev path (media_state old)"
  by (simp_all add: x_def m_def first_columns_def kept_columns_def media_state_def message_of_def
      merge_message_def hydrate_message_def status_of_def attempts_of_def nullEmpty_def)

lemma stored_event_columns [simp]:
  "first_columns (stored_event env w ev) = first_columns ev"
  "media_after e (stored_event env w ev) = media_after e ev"
  by (simp_all add: fun_eq_iff first_columns_def stored_event_def Let_def)

lemma Write_mark:
  assumes "media_outcome ulower env ev w res1 m res None w'"
  shows "m = (if ev_MediaBytes ev = [] then NoMark else Hydrated (res_MediaPath res) (we_mark_now env)) \<and>
    (res_Updated res \<longleftrightarrow> res_Updated res1 \<or> (ev_MediaBytes ev \<noteq> [] \<and> \<not> res_Inserted res1))"
proof (cases "ev_MediaBytes ev = []")
  case False
  obtain o' fs where wm: "writeMedia ulower (we_media env) (w_mediaRoot w) ev (w_files w) = (o', fs)"
    by (cases "writeMedia ulower (we_media env) (w_mediaRoot w) ev (w_files w)")
  then show ?thesis using assms False by (cases o') (auto simp: media_outcome_def)
qed (use assms in \<open>simp add: media_outcome_def\<close>)

lemma Write_columns:
  assumes W: "Write H ulower env ev w = ((res, None), w')"
    and r: "row_of mr_id (res_ID res) (t_messages (durable (w_db w'))) = Some r"
  shows "case row_of mr_id (res_ID res) (t_messages (durable (w_db w))) of
      None \<Rightarrow> \<not> res_Updated res \<and> first_columns ev (sourcePKFor (we_pk_query env) ev (view (w_db w))) r \<and>
        media_state r = media_after env ev (res_MediaPath res) (None, None, None, 0, None)
    | Some old \<Rightarrow> kept_columns old r \<and>
        media_state r = media_after env ev (res_MediaPath res) (media_state old) \<and>
        (res_Updated res \<longleftrightarrow> mr_text_hash r \<noteq> mr_text_hash old \<or>
           ev_MediaHydrationStatus ev \<noteq> [] \<or> ev_MediaBytes ev \<noteq> [])"
  using W
proof (cases rule: Write_cases)
  case (stored res1 runID t1 m w1)
  let ?ev = "stored_event env w ev" and ?i = "res_ID res"
  let ?x = "message_of ?i (we_now env) (event_hash H ev) (status_of ?ev) (attempts_of ?ev) ?ev"
  let ?m = "if ev_MediaBytes ?ev = [] then NoMark else Hydrated (res_MediaPath res) (we_mark_now env)"
  note out = media_outcome_result [OF stored(8)]
  note m = Write_mark [OF stored(8)]
  have id: "event_id H ?ev = ?i" using stored(3) out by simp
  have row: "row_of mr_id ?i (t_messages t1) = Some
      (case row_of mr_id ?i (t_messages (durable (w_db w))) of None \<Rightarrow> ?x | Some y \<Rightarrow> merge_message ?x y)"
    using write_effect_row [OF stored(4)] unfolding id Let_def by (simp cong: option.case_cong)
  have pk: "ev_SourcePK ?ev = sourcePKFor (we_pk_query env) ev (view (w_db w))" by (simp add: stored_event_def)
  have upd: "res_Updated res1 = (case row_of mr_id ?i (t_messages (durable (w_db w))) of None \<Rightarrow> False
      | Some y \<Rightarrow> mr_text_hash y \<noteq> event_hash H ev \<or> status_of ev \<noteq> None)"
    "res_Inserted res1 \<longleftrightarrow> row_of mr_id ?i (t_messages (durable (w_db w))) = None"
    using stored(4) unfolding id by (simp_all add: write_effect_def cong: option.case_cong)
  have st: "status_of ev \<noteq> None \<longleftrightarrow> ev_MediaHydrationStatus ev \<noteq> []"
    by (simp add: status_of_def nullEmpty_def)
  show ?thesis
  proof (cases "row_of mr_id ?i (t_messages (durable (w_db w)))")
    case None
    then have "r = mark_message ?m ?x"
      using r row stored(5) m id by (simp add: row_of_mark_tables)
    then show ?thesis
      using None stored_columns(1,2) [where ev = ?ev and env = env and path = "res_MediaPath res" and i = ?i
          and h = "event_hash H ev"] m upd pk
      by (simp only: stored_event_columns) simp
  next
    case (Some old)
    then have r': "r = mark_message ?m (merge_message ?x old)"
      using r row stored(5) m id by (simp add: row_of_mark_tables)
    then have "mr_text_hash r = event_hash H ev" by (simp add: merge_message_def)
    then show ?thesis
      using Some stored_columns(3,4) [where ev = ?ev and env = env and path = "res_MediaPath res" and i = ?i
          and h = "event_hash H ev" and old = old] m upd r' st
      by (simp only: stored_event_columns) auto
  qed
qed simp

text \<open>
  C19. A write that returns no error has stored the event, column by column. Under the
  returned id, the stable hash of the event with its source key, there is a row with the
  event's content: texts, types, media columns, hash, time of ingestion. If there was no row
  under that id, which is what \<open>Inserted\<close> says, then source key, chat and its label, message
  id, sender, timestamp, direction and raw type are the event's as well and the media state
  is that of the event; otherwise these are the old row's and the media state is the
  old one changed as the event says: a hydration status replaces the old one and adds its
  attempts, written media set path, time and status \<open>ok\<close>, count one attempt more and are
  not surfaced. \<open>Updated\<close> says that an old row has another text hash now or the event had
  a hydration status or media. Every other row is as it was.
\<close>

theorem Write_stores_event:
  assumes W: "Write H ulower env ev w = ((res, None), w')"
  shows "res_ID res = event_id H (stored_event env w ev) \<and>
    (res_Inserted res \<longleftrightarrow> row_of mr_id (res_ID res) (t_messages (durable (w_db w))) = None) \<and>
    (\<exists>r. row_of mr_id (res_ID res) (t_messages (durable (w_db w'))) = Some r \<and>
       row_matches H (we_now env) ev r \<and>
       (case row_of mr_id (res_ID res) (t_messages (durable (w_db w))) of
          None \<Rightarrow> \<not> res_Updated res \<and>
            first_columns ev (sourcePKFor (we_pk_query env) ev (view (w_db w))) r \<and>
            media_state r = media_after env ev (res_MediaPath res) (None, None, None, 0, None)
        | Some old \<Rightarrow> kept_columns old r \<and>
            media_state r = media_after env ev (res_MediaPath res) (media_state old) \<and>
            (res_Updated res \<longleftrightarrow> mr_text_hash r \<noteq> mr_text_hash old \<or>
               ev_MediaHydrationStatus ev \<noteq> [] \<or> ev_MediaBytes ev \<noteq> []))) \<and>
    (\<forall>j. j \<noteq> res_ID res \<longrightarrow> row_of mr_id j (t_messages (durable (w_db w'))) =
       row_of mr_id j (t_messages (durable (w_db w))))"
  using Write_stored [OF W] Write_columns [OF W] by blast

theorem Write_stores_event_witness:
  "\<exists>r. row_of mr_id (event_id (\<lambda>s. s) (stored_event sample_env sample_writer sample_event))
     (t_messages (durable (w_db (snd (Write (\<lambda>s. s) (\<lambda>s. s) sample_env sample_event sample_writer)))))
     = Some r \<and> mr_text r = Some ''hi''"
  using Write_stores_event [OF sample_ok]
  by (auto simp: row_matches_def sample_event_def nullEmpty_def)

section \<open>Redelivery\<close>

text \<open>
  C7. A message delivered again is recognised: after a successful write of an event without
  media, writing the same event once more (at another time, with whatever group count)
  succeeds with the same id, reports neither an insert nor an update when the event carries
  no hydration status, and leaves the messages as they were but for the time of ingestion.
\<close>

theorem redelivery_idempotent:
  assumes ok: "db_ok H (durable (w_db w))" "unique_key natural_key (t_messages (durable (w_db w)))"
    and ev: "ev_SourcePK ev = 0" "ev_MediaBytes ev = []" "ev_MediaHydrationStatus ev = []"
    and env: "we_pk_query env = None" "we_pk_query env2 = None"
    and W1: "Write H ulower env ev w = ((res, None), w1)"
    and W2: "Write H ulower env2 ev w1 = ((res2, None), w2)"
  shows "res_ID res2 = res_ID res \<and> \<not> res_Inserted res2 \<and> \<not> res_Updated res2 \<and>
    t_messages (durable (w_db w2)) =
      update_where (\<lambda>r. mr_id r = res_ID res) (\<lambda>r. r\<lparr>mr_ingested_at := we_now env2\<rparr>)
        (t_messages (durable (w_db w1)))"
  using W1
proof (cases rule: Write_cases)
  case s1: (stored resA runA tA mA wA)
  from W2 show ?thesis
  proof (cases rule: Write_cases)
    case s2: (stored resB runB tB mB wB)
    let ?ev = "stored_event env w ev" and ?ev2 = "stored_event env2 w1 ev"
    have m: "mA = NoMark" "mB = NoMark" "res = resA" "res2 = resB"
      using s1(8) s2(8) ev(2) by (simp_all add: media_outcome_def)
    have tA: "durable (w_db w1) = tA" and tB: "durable (w_db w2) = tB"
      using s1(5) s2(5) m by simp_all
    have uA: "unique_key natural_key (t_messages tA)" "db_ok H tA"
      using natural_unique_Write [OF ok ev(1) env(1) W1] db_ok_Write [OF ok(1) W1] tA by simp_all
    have pk: "ev_SourcePK ?ev = sourcePKFor None ev (durable (w_db w))"
      using s1(2) env(1) by (simp add: stored_event_def durable_idle)
    have "sourcePKFor None ev tA = ev_SourcePK ?ev"
      by (rule write_effect_pk [OF ok(2) uA(1) s1(4) pk ev(1)]) simp
    then have same: "?ev2 = ?ev"
      using s2(2) env(2) tA by (simp add: stored_event_def durable_idle)
    let ?i = "event_id H ?ev"
    have id: "res_ID res = ?i" "res_ID res2 = ?i" using s1(3) s2(3) same m by simp_all
    obtain r where r: "row_of mr_id ?i (t_messages tA) = Some r" "row_matches H (we_now env) ev r"
      using Write_stored [OF W1] id tA by auto
    have nost: "status_of ev = None" using ev(3) by (simp add: status_of_def nullEmpty_def)
    let ?x = "message_of ?i (we_now env2) (event_hash H ev) (status_of ev) (attempts_of ?ev) ?ev"
    have "merge_message ?x r = r\<lparr>mr_ingested_at := we_now env2\<rparr>"
      using r(2) nost
      by (simp add: merge_message_def message_of_def row_matches_def event_hash_def
          stored_event_def)
    moreover have "t_messages tB = update_where (\<lambda>q. mr_id q = ?i) (merge_message ?x) (t_messages tA)"
      using s2(4) same r(1) uA(2) messages_tab.upsert_existing [of "t_messages tA" ?x]
      by (simp add: write_effect_def db_ok_def tA)
    moreover have "q = r" if "q \<in> set (t_messages tA)" "mr_id q = ?i" for q
      using row_of_Some_in [of mr_id "t_messages tA" q] that uA(2) r(1) by (simp add: db_ok_def)
    ultimately have "t_messages tB =
        update_where (\<lambda>q. mr_id q = ?i) (\<lambda>q. q\<lparr>mr_ingested_at := we_now env2\<rparr>) (t_messages tA)"
      by (auto simp: update_where_def)
    moreover have "\<not> res_Inserted res2" "\<not> res_Updated res2"
      using s2(4) same r nost m tA
      by (simp_all add: write_effect_def row_matches_def event_hash_def)
    ultimately show ?thesis using id tA tB by simp
  qed simp
qed simp

theorem redelivery_idempotent_witness:
  "\<exists>w1 res2 w2. w1 = snd (Write (\<lambda>s. s) (\<lambda>s. s) sample_env sample_event sample_writer) \<and>
     Write (\<lambda>s. s) (\<lambda>s. s) (sample_env\<lparr>we_now := 90\<rparr>) sample_event w1 = ((res2, None), w2) \<and>
     \<not> res_Inserted res2"
proof -
  let ?w1 = "snd (Write (\<lambda>s. s) (\<lambda>s. s) sample_env sample_event sample_writer)"
  let ?W = "Write (\<lambda>s. s) (\<lambda>s. s) (sample_env\<lparr>we_now := 90\<rparr>) sample_event ?w1"
  have "snd (fst ?W) = None" by code_simp
  then have W: "?W = ((fst (fst ?W), None), snd ?W)" by (metis prod.collapse)
  have "db_ok (\<lambda>s. s) (durable (w_db sample_writer))"
    "unique_key natural_key (t_messages (durable (w_db sample_writer)))"
    by (simp_all add: sample_writer_def new_writer_def db_ok_def empty_tables_def)
  from redelivery_idempotent [OF this _ _ _ _ _ sample_ok W] show ?thesis
    using W by (auto simp: sample_event_def sample_env_def)
qed

section \<open>Nothing stored is lost\<close>

text \<open>
  The part of a row a delivery never changes: its keys, its sender, its chat and the two
  columns that belong to the agent.
\<close>

definition same_identity :: "message_row \<Rightarrow> message_row \<Rightarrow> bool" where
  "same_identity r r' \<longleftrightarrow>
     mr_id r' = mr_id r \<and> mr_source_pk r' = mr_source_pk r \<and> natural_key r' = natural_key r \<and>
     mr_chat_label r' = mr_chat_label r \<and> mr_from_me r' = mr_from_me r \<and>
     mr_media_extracted_text r' = mr_media_extracted_text r \<and>
     mr_media_extracted_by r' = mr_media_extracted_by r"

lemma same_identity_trans: "same_identity r s \<Longrightarrow> same_identity s u \<Longrightarrow> same_identity r u"
  by (simp add: same_identity_def)

lemma same_identity_ops:
  "same_identity r (mark_message m r)" "same_identity r (merge_message x r)"
  by (cases m; simp add: same_identity_def hydrate_message_def fail_message_def natural_key_def)
    (simp add: same_identity_def)

lemma Write_row_kept:
  assumes W: "Write H ulower env ev w = ((res, r), w')"
    and old: "row_of mr_id j (t_messages (durable (w_db w))) = Some q"
  shows "\<exists>q'. row_of mr_id j (t_messages (durable (w_db w'))) = Some q' \<and> same_identity q q'"
  using W
proof (cases rule: Write_cases)
  case (rejected e)
  then show ?thesis using old by (simp add: same_identity_def)
next
  case (stored res1 runID t1 m w1)
  let ?ev = "stored_event env w ev"
  obtain q1 where q1: "row_of mr_id j (t_messages t1) = Some q1" "same_identity q q1"
  proof (cases "j = event_id H ?ev")
    case True
    then show thesis
      using that write_effect_row [OF stored(4)] old same_identity_ops(2) by (simp add: Let_def)
  next
    case False
    then show thesis
      using that write_effect_others [OF stored(4)] old by (simp add: same_identity_def)
  qed
  then show ?thesis
    using stored(5) same_identity_trans [OF q1(2) same_identity_ops(1)]
    by (auto simp: row_of_mark_tables)
qed

text \<open>
  C21. Whatever the outcome of a write, no stored message is lost: each row is still found
  under its id, with the same keys, chat, sender and direction, and with the text an agent
  extracted from its media untouched.
\<close>

theorem Write_keeps_rows:
  assumes W: "Write H ulower env ev w = ((res, r), w')"
    and old: "row_of mr_id j (t_messages (durable (w_db w))) = Some q"
  shows "\<exists>q'. row_of mr_id j (t_messages (durable (w_db w'))) = Some q' \<and> same_identity q q'"
  by (rule Write_row_kept [OF W old])

theorem Write_keeps_rows_witness:
  "\<exists>q'. row_of mr_id (event_id (\<lambda>s. s) (stored_event sample_env sample_writer sample_event))
      (t_messages (durable (w_db (snd (Write (\<lambda>s. s) (\<lambda>s. s) sample_env (sample_event\<lparr>ev_Text := ''new''\<rparr>)
         (snd (Write (\<lambda>s. s) (\<lambda>s. s) sample_env sample_event sample_writer))))))) = Some q' \<and>
     mr_chat_label q' = ''L''"
proof -
  let ?w = "snd (Write (\<lambda>s. s) (\<lambda>s. s) sample_env sample_event sample_writer)"
  let ?j = "event_id (\<lambda>s. s) (stored_event sample_env sample_writer sample_event)"
  let ?W = "Write (\<lambda>s. s) (\<lambda>s. s) sample_env (sample_event\<lparr>ev_Text := ''new''\<rparr>) ?w"
  have "map_option mr_chat_label (row_of mr_id ?j (t_messages (durable (w_db ?w)))) = Some ''L''"
    by code_simp
  then obtain q where q: "row_of mr_id ?j (t_messages (durable (w_db ?w))) = Some q" "mr_chat_label q = ''L''"
    by auto
  have "?W = ((fst (fst ?W), snd (fst ?W)), snd ?W)" by simp
  from Write_keeps_rows [OF this q(1)] q(2) show ?thesis by (auto simp: same_identity_def)
qed

section \<open>One row per message\<close>

definition daemon_write :: "write_env \<Rightarrow> event \<Rightarrow> bool" where
  "daemon_write env ev \<longleftrightarrow> ev_SourcePK ev = 0 \<and> we_pk_query env = None"

lemma EnsureGroups_messages:
  "EnsureGroups e fault now gs w = (r, w') \<Longrightarrow>
    t_messages (durable (w_db w')) = t_messages (durable (w_db w))"
proof -
  assume E: "EnsureGroups e fault now gs w = (r, w')"
  obtain u c where tx: "WithTx e () (ensure_groups_tx fault now gs) (w_db w) = (u, r, c)"
    and w': "w_db w' = c"
    using E by (auto simp: EnsureGroups_def split: prod.splits)
  show ?thesis
    using tx.tx_invariant [OF tx, where P = "\<lambda>t. t_messages t = t_messages (durable (w_db w))"]
      ensure_groups_tx_keys w' by fastforce
qed

lemma natural_unique_step:
  "store_step daemon_write H ulower w w' \<Longrightarrow> db_ok H (durable (w_db w)) \<Longrightarrow>
    unique_key natural_key (t_messages (durable (w_db w))) \<Longrightarrow>
    unique_key natural_key (t_messages (durable (w_db w')))"
proof (induction rule: store_step.induct)
  case (st_write env ev w)
  then show ?case
    using natural_unique_Write [of H w ev env ulower] by (metis daemon_write_def prod.collapse)
next
  case (st_groups w e fault now gs)
  then show ?case using EnsureGroups_messages by (metis prod.collapse)
next
  case (st_annotate w i extracted by_whom)
  then show ?case
    by (simp add: durable_idle annotate_def unique_key_update_where natural_key_def)
qed

text \<open>
  C18. One message, one row: over every run of the store in which the lookup of the source
  key works (the daemon's events carry none of their own), no two rows share chat, message
  id, sender and timestamp, however often messages are delivered again.
\<close>

theorem one_row_per_message:
  assumes "store_run daemon_write H ulower (new_writer root) w"
    and "r \<in> set (t_messages (durable (w_db w)))" "s \<in> set (t_messages (durable (w_db w)))"
    and "natural_key r = natural_key s"
  shows "r = s"
proof -
  have "db_ok H (durable (w_db w)) \<and> unique_key natural_key (t_messages (durable (w_db w)))"
    using assms(1)
  proof (induction "new_writer root" w rule: store_run.induct)
    case run_done
    then show ?case by (simp add: new_writer_def db_ok_empty) (simp add: empty_tables_def)
  next
    case (run_step w1 w2)
    then have "db_ok H (durable (w_db w1))" "unique_key natural_key (t_messages (durable (w_db w1)))"
      by blast+
    then show ?case
      by (intro conjI db_ok_step [OF run_step.hyps(3)] natural_unique_step [OF run_step.hyps(3)])
  qed
  then show ?thesis using unique_key_inj [OF _ assms(2,3,4)] by simp
qed

definition sample_stored :: writer where
  "sample_stored = snd (Write (\<lambda>s. s) (\<lambda>s. s) sample_env sample_event
     (snd (EnsureGroups no_fault (\<lambda>_. None) 7 [sample_group] (new_writer ''m''))))"

theorem one_row_per_message_witness:
  "\<exists>r. r \<in> set (t_messages (durable (w_db sample_stored))) \<and>
     (\<forall>s. s \<in> set (t_messages (durable (w_db sample_stored))) \<longrightarrow> natural_key s = natural_key r \<longrightarrow> s = r)"
proof -
  let ?w = sample_stored
  have run: "store_run daemon_write (\<lambda>s. s) (\<lambda>s. s) (new_writer ''m'') ?w"
    unfolding sample_stored_def
    by (rule run_step, rule run_step, rule run_done, rule st_groups, rule st_write)
      (simp add: daemon_write_def sample_env_def sample_event_def)
  have "length (t_messages (durable (w_db ?w))) = 1" unfolding sample_stored_def by code_simp
  then obtain r where r: "r \<in> set (t_messages (durable (w_db ?w)))" by (auto simp: length_Suc_conv)
  then show ?thesis using one_row_per_message [OF run] by blast
qed

section \<open>Keys\<close>

lemma NUL_not_in_FormatInt: "CHR 0x00 \<notin> set (strconv_FormatInt n)"
  using set_FormatInt [of "CHR 0x00" n] by (auto simp: is_digit_def byte_def)

definition id_key :: "string \<Rightarrow> string \<Rightarrow> string \<Rightarrow> int64 \<Rightarrow> int64 \<Rightarrow> string" where
  "id_key chat msg sender ts pk =
     strings_Join [chat, msg, sender, strconv_FormatInt ts, strconv_FormatInt pk] [CHR 0x00]"

text \<open>
  The stable id identifies a message: two messages without NUL bytes in chat, id or sender
  have the same id only if they agree in chat, message id, sender, timestamp and source key,
  or if the hash function collides on their two keys.
\<close>

lemma StableMessageID_injective:
  assumes nul: "CHR 0x00 \<notin> set chat \<union> set msg \<union> set sender"
    "CHR 0x00 \<notin> set chat2 \<union> set msg2 \<union> set sender2"
    and same: "StableMessageID H chat msg sender ts pk = StableMessageID H chat2 msg2 sender2 ts2 pk2"
  shows "(chat, msg, sender, ts, pk) = (chat2, msg2, sender2, ts2, pk2) \<or>
    (id_key chat msg sender ts pk \<noteq> id_key chat2 msg2 sender2 ts2 pk2 \<and>
     H (id_key chat msg sender ts pk) = H (id_key chat2 msg2 sender2 ts2 pk2))"
proof (cases "id_key chat msg sender ts pk = id_key chat2 msg2 sender2 ts2 pk2")
  case True
  let ?k = "\<lambda>chat msg sender ts pk. [chat, msg, sender, strconv_FormatInt ts, strconv_FormatInt pk]"
  have split: "strings_Split (CHR 0x00) (id_key chat msg sender ts pk) = ?k chat msg sender ts pk"
    unfolding id_key_def by (rule Split_Join) (use nul(1) NUL_not_in_FormatInt in auto)
  have "strings_Split (CHR 0x00) (id_key chat2 msg2 sender2 ts2 pk2) = ?k chat2 msg2 sender2 ts2 pk2"
    unfolding id_key_def by (rule Split_Join) (use nul(2) NUL_not_in_FormatInt in auto)
  then have "?k chat msg sender ts pk = ?k chat2 msg2 sender2 ts2 pk2" using split True by metis
  then show ?thesis using FormatInt_inj by auto
next
  case False
  then show ?thesis using same by (simp add: StableMessageID_def id_key_def)
qed

section \<open>Media\<close>

lemma media_final_stored [simp]:
  "media_final ulower root (stored_event env w ev) = media_final ulower root ev"
  by (simp add: media_final_def media_dir_def stored_event_def Let_def)

definition media_name :: "(string \<Rightarrow> string) \<Rightarrow> event \<Rightarrow> string" where
  "media_name ulower ev = safePathPart (ev_MsgID ev) @
     (let e = cleanExt ulower (ev_MediaExt ev)
      in if e = [] then extForType ulower (ev_MessageType ev) else e)"

lemma media_name_plain:
  assumes "lower_ok ulower"
  shows "plain_part (media_name ulower ev)" "plain_part (media_name ulower ev @ ''.tmp'')"
  using plain_safe_append cleanExt_no_slash [OF assms] extForType_no_slash
  by (simp_all add: media_name_def Let_def)

lemma media_final_parts:
  assumes "lower_ok ulower"
  shows "path_parts (media_final ulower root ev) =
      path_parts root @ [safePathPart (ev_ChatJID ev), media_name ulower ev]"
    "path_parts (media_final ulower root ev @ ''.tmp'') =
      path_parts root @ [safePathPart (ev_ChatJID ev), media_name ulower ev @ ''.tmp'']"
proof -
  have f: "media_final ulower root ev = filepath_Join [media_dir root ev, media_name ulower ev]"
    by (simp add: media_final_def media_name_def Let_def)
  have safe: "plain_part (safePathPart (ev_ChatJID ev))"
    using plain_safe_append [of "[]"] by simp
  then have d: "path_parts (media_dir root ev) = path_parts root @ [safePathPart (ev_ChatJID ev)]"
    "media_dir root ev \<noteq> []"
    by (simp_all add: media_dir_def Join_plain Join_plain_not_Nil)
  note plain = media_name_plain [OF assms]
  show "path_parts (media_final ulower root ev) =
      path_parts root @ [safePathPart (ev_ChatJID ev), media_name ulower ev]"
    using f d Join_plain(1) [OF plain(1)] by simp
  have "media_final ulower root ev @ ''.tmp'' =
      filepath_Join [media_dir root ev, media_name ulower ev @ ''.tmp'']"
    using filepath_Join_plain_append [OF plain d(2)] f by simp
  then show "path_parts (media_final ulower root ev @ ''.tmp'') =
      path_parts root @ [safePathPart (ev_ChatJID ev), media_name ulower ev @ ''.tmp'']"
    using d Join_plain(1) [OF plain(2)] by simp
qed

lemma media_outcome_files:
  assumes "media_outcome ulower env ev w res1 m res r w'" "p \<noteq> media_final ulower (w_mediaRoot w) ev @ ''.tmp''"
  shows "w_files w' p = w_files w p \<or>
    (p = media_final ulower (w_mediaRoot w) ev \<and> w_files w' p = Some (ev_MediaBytes ev))"
proof (cases "ev_MediaBytes ev = []")
  case False
  moreover obtain o' fs where "writeMedia ulower (we_media env) (w_mediaRoot w) ev (w_files w) = (o', fs)"
    by (cases "writeMedia ulower (we_media env) (w_mediaRoot w) ev (w_files w)")
  ultimately show ?thesis
    using assms writeMedia_cases by (cases o') (fastforce simp: media_outcome_def)+
qed (use assms in \<open>simp add: media_outcome_def\<close>)

text \<open>
  C12. Media stay inside the media root, whatever the chat, the message id or the extension
  the sender chose: a file that a write changes lies directly in the directory of the
  chat's sanitised name below the root, and is either the final file, which then holds
  exactly the media bytes, or its temporary sibling.
\<close>

theorem media_confined:
  assumes "lower_ok ulower" "Write H ulower env ev w = ((res, r), w')" "w_files w' p \<noteq> w_files w p"
  shows "(path_parts p = path_parts (w_mediaRoot w) @ [safePathPart (ev_ChatJID ev), media_name ulower ev] \<and>
      w_files w' p = Some (ev_MediaBytes ev)) \<or>
    path_parts p = path_parts (w_mediaRoot w) @
      [safePathPart (ev_ChatJID ev), media_name ulower ev @ ''.tmp'']"
  using assms(2)
proof (cases rule: Write_cases)
  case (stored res1 runID t1 m w1)
  show ?thesis
  proof (cases "p = media_final ulower (w_mediaRoot w) ev @ ''.tmp''")
    case True
    then show ?thesis using media_final_parts(2) [OF assms(1)] by simp
  next
    case False
    then show ?thesis
      using media_outcome_files [OF stored(8), of p] stored(6,7) assms(3)
        media_final_parts(1) [OF assms(1)] by auto
  qed
qed (use assms(3) in simp)

theorem media_confined_witness:
  "path_parts (''m/1@lid/A.jpg'') = path_parts ''m'' @ [safePathPart ''1@lid'', ''A.jpg''] \<or>
   path_parts (''m/1@lid/A.jpg'') = path_parts ''m'' @ [safePathPart ''1@lid'', ''A.jpg.tmp'']"
proof -
  let ?w = "snd (Write (\<lambda>s. s) (\<lambda>s. s) sample_env sample_media sample_writer)"
  have "w_files ?w ''m/1@lid/A.jpg'' = Some ''abc''" "w_files sample_writer ''m/1@lid/A.jpg'' = None"
    by code_simp+
  then have ne: "w_files ?w ''m/1@lid/A.jpg'' \<noteq> w_files sample_writer ''m/1@lid/A.jpg''" by simp
  have eq: "ev_ChatJID sample_media = ''1@lid''" "media_name (\<lambda>s. s) sample_media = ''A.jpg''"
    "w_mediaRoot sample_writer = ''m''"
    by code_simp+
  have "lower_ok (\<lambda>s. s)" by (simp add: lower_ok_def)
  from media_confined [OF this sample_media_ok ne] show ?thesis unfolding eq by auto
qed

text \<open>
  C35. A message whose media were written successfully points at a complete file: after a
  write with media bytes that returns no error, the returned path is in the row of the
  message, the file there holds exactly the bytes, no temporary file is left, and the row
  is marked hydrated and not yet surfaced to the reader.
\<close>

theorem media_hydrated:
  assumes W: "Write H ulower env ev w = ((res, None), w')" and bytes: "ev_MediaBytes ev \<noteq> []"
  shows "res_MediaPath res = media_final ulower (w_mediaRoot w) ev \<and>
    w_files w' (res_MediaPath res) = Some (ev_MediaBytes ev) \<and>
    w_files w' (res_MediaPath res @ ''.tmp'') = None \<and>
    (res_Inserted res \<or> res_Updated res) \<and>
    (\<exists>q. row_of mr_id (res_ID res) (t_messages (durable (w_db w'))) = Some q \<and>
       mr_media_local_path q = Some (res_MediaPath res) \<and>
       mr_media_hydrated_at q = Some (we_mark_now env) \<and>
       mr_media_hydration_status q = Some ''ok'' \<and> mr_media_surfaced_at q = None)"
  using W
proof (cases rule: Write_cases)
  case (stored res1 runID t1 m w1)
  let ?ev = "stored_event env w ev"
  obtain o' fs where wm: "writeMedia ulower (we_media env) (w_mediaRoot w1) ?ev (w_files w1) = (o', fs)"
    by (cases "writeMedia ulower (we_media env) (w_mediaRoot w1) ?ev (w_files w1)")
  obtain path where o': "o' = Inr path"
    using stored(8) wm bytes by (cases o') (simp_all add: media_outcome_def)
  then have m: "w_files w' = fs" "m = Hydrated path (we_mark_now env)"
    "res = res1\<lparr>res_MediaPath := path, res_Updated := res_Updated res1 \<or> \<not> res_Inserted res1\<rparr>"
    using stored(8) wm bytes by (simp_all add: media_outcome_def)
  obtain q where "row_of mr_id (res_ID res) (t_messages t1) = Some q"
    using write_effect_row [OF stored(4)] stored(3) m(3) by (simp add: Let_def)
  then show ?thesis
    using stored(3,5,7) writeMedia_cases [OF wm] m o'
    by (auto simp: row_of_mark_tables hydrate_message_def)
qed simp

theorem media_hydrated_witness:
  "w_files (snd (Write (\<lambda>s. s) (\<lambda>s. s) sample_env sample_media sample_writer)) ''m/1@lid/A.jpg'' =
    Some ''abc''"
proof -
  have eq: "media_final (\<lambda>s. s) (w_mediaRoot sample_writer) sample_media = ''m/1@lid/A.jpg''"
    "ev_MediaBytes sample_media = ''abc''"
    by code_simp+
  show ?thesis using media_hydrated [OF sample_media_ok] unfolding eq by auto
qed

section \<open>The ingest runs\<close>

lemma row_of_run_mark:
  "row_of rn_run_id j (t_runs (mark_tables m i runID t)) =
    (if j = runID then map_option (mark_run m) (row_of rn_run_id j (t_runs t))
     else row_of rn_run_id j (t_runs t))"
  by (simp add: mark_tables_def row_of_update_key)

lemma write_effect_run:
  assumes "write_effect H env n ev i h res runID t t1"
  obtains q where "row_of rn_run_id (StableRunID H i (we_now env)) (t_runs t1) = Some q"
    "rn_finished_at q = Some (we_now env)"
    "rn_status q = (if ev_MediaBytes ev \<noteq> [] then ''pending'' else ''ok'')"
    "runID = StableRunID H i (we_now env)"
proof -
  obtain run where run: "rn_run_id run = runID" "rn_finished_at run = Some (we_now env)"
    "rn_status run = (if ev_MediaBytes ev \<noteq> [] then ''pending'' else ''ok'')"
    "t_runs t1 = upsert rn_run_id merge_run run (t_runs t)" "runID = StableRunID H i (we_now env)"
    using assms by (auto simp: write_effect_def)
  then show thesis
    using that by (cases "row_of rn_run_id runID (t_runs t)")
      (auto simp: runs_tab.lookup_upsert merge_run_def)
qed

text \<open>
  C11. The run row that gates the reader's cursor tells the truth: after a write that stored
  its event, the run of that write has finished at the time of the write and is \<open>ok\<close> or
  \<open>pending\<close>; it is \<open>ok\<close> after a write without error, and when it is \<open>ok\<close> for an event
  with media, the outcome of the media, \<open>ok\<close> or \<open>failed\<close>, is in the row of the message.
\<close>

theorem run_status_truthful:
  assumes W: "Write H ulower env ev w = ((res, r), w')" and stored: "res \<noteq> zero_result"
  shows "\<exists>q. row_of rn_run_id (StableRunID H (res_ID res) (we_now env)) (t_runs (durable (w_db w'))) = Some q \<and>
    rn_finished_at q = Some (we_now env) \<and> rn_status q \<in> {''ok'', ''pending''} \<and>
    (r = None \<longrightarrow> rn_status q = ''ok'') \<and>
    (rn_status q = ''ok'' \<longrightarrow> ev_MediaBytes ev \<noteq> [] \<longrightarrow>
       (\<exists>p. row_of mr_id (res_ID res) (t_messages (durable (w_db w'))) = Some p \<and>
          mr_media_hydration_status p \<in> {Some ''ok'', Some ''failed''}))"
  using W
proof (cases rule: Write_cases)
  case (rejected e)
  then show ?thesis using stored by simp
next
  case s: (stored res1 runID t1 m w1)
  let ?ev = "stored_event env w ev" and ?i = "event_id H (stored_event env w ev)"
  have id: "res_ID res = ?i" using media_outcome_result [OF s(8)] s(3) by simp
  obtain q where q: "row_of rn_run_id (StableRunID H ?i (we_now env)) (t_runs t1) = Some q"
    "rn_finished_at q = Some (we_now env)"
    "rn_status q = (if ev_MediaBytes ev \<noteq> [] then ''pending'' else ''ok'')"
    "runID = StableRunID H ?i (we_now env)"
    using write_effect_run [OF s(4)] by auto
  obtain p where p: "row_of mr_id ?i (t_messages t1) = Some p"
    using write_effect_row [OF s(4)] by (simp add: Let_def)
  have m: "(ev_MediaBytes ev = [] \<longrightarrow> m = NoMark) \<and> (ev_MediaBytes ev \<noteq> [] \<longrightarrow> r = None \<longrightarrow> m \<noteq> NoMark)"
    using s(8) by (cases "writeMedia ulower (we_media env) (w_mediaRoot w1) ?ev (w_files w1)";
        cases "fst (writeMedia ulower (we_media env) (w_mediaRoot w1) ?ev (w_files w1))")
      (auto simp: media_outcome_def)
  show ?thesis
    using m by (cases m) (auto simp: id s(5) row_of_run_mark row_of_mark_tables q p
        hydrate_message_def fail_message_def)
qed

theorem run_status_truthful_witness:
  "\<exists>q. row_of rn_run_id (StableRunID (\<lambda>s. s) (res_ID (fst (fst
        (Write (\<lambda>s. s) (\<lambda>s. s) sample_env sample_media sample_writer)))) 9)
      (t_runs (durable (w_db (snd (Write (\<lambda>s. s) (\<lambda>s. s) sample_env sample_media sample_writer))))) = Some q \<and>
     rn_status q = ''ok''"
proof -
  have "res_Inserted (fst (fst (Write (\<lambda>s. s) (\<lambda>s. s) sample_env sample_media sample_writer)))"
    by code_simp
  then have ne: "fst (fst (Write (\<lambda>s. s) (\<lambda>s. s) sample_env sample_media sample_writer)) \<noteq> zero_result"
    by (auto simp: zero_result_def)
  have eq: "we_now sample_env = 9" by (simp add: sample_env_def)
  show ?thesis using run_status_truthful [OF sample_media_ok ne] unfolding eq by auto
qed

end
