(* ===== verification/Unseen_Properties.thy ===== *)
theory Unseen_Properties
  imports Unseen_Laws Store_Properties
begin

text \<open>
  The properties of the reader: what a report contains, how the cursor moves, which media are
  marked as surfaced, and that the reader's own reading of the configuration agrees with the
  daemon's.
\<close>

section \<open>A sample reader\<close>

definition sample_row :: message_row where
  "sample_row = message_of ''i'' 199500 ''h'' None 0 (sample_event\<lparr>ev_Timestamp := 199000\<rparr>)"

definition sample_tables :: tables where
  "sample_tables = empty_tables\<lparr>
     t_messages := [hydrate_message ''m/x.jpg'' 199400 sample_row],
     t_runs := [run_row_of (\<lambda>s. s) 1 ''i'' 199500 zero_result False]\<rparr>"

definition unseen_json :: json where
  "unseen_json = JObj [(''enabled'', JBool True), (''groups'', JArr [JObj [(''jid'', JStr ''1@lid''),
     (''label'', JStr ''L''), (''tenants'', JArr [JStr ''t''])]])]"

definition sample_reader_env :: reader_env where
  "sample_reader_env = \<lparr>ue_now = 200000, ue_config = Inr (json_Marshal unseen_json), ue_read1 = None, ue_read2 = None,
     ue_fetch = None, ue_scan = (\<lambda>rows. rows), ue_daemon1 = (\<lambda>t. t), ue_latest = None,
     ue_daemon2 = (\<lambda>t. t), ue_mark = None,
     ue_text_io = \<lparr>tio_mkdir = None, tio_open = None, tio_write = None, tio_sync = None,
       tio_close = None, tio_rename = None, tio_remove = None\<rparr>, ue_pid = 7\<rparr>"

definition sample_opts :: options where
  "sample_opts = \<lparr>o_DBPath = ''d'', o_ConfigPath = ''c'', o_Tenant = ''t'', o_StatePath = ''s'',
     o_SinceHours = None, o_NoAdvance = False\<rparr>"

definition sample_reader :: reader where
  "sample_reader = \<lparr>rd_tables = sample_tables, rd_files = (\<lambda>_. None), rd_out = [], rd_err = []\<rparr>"

definition sample_run :: "go_error option \<times> reader" where
  "sample_run = runWithDB (\<lambda>s. s) False (\<lambda>_. 0) sample_reader_env
     sample_opts sample_reader"

lemma sample_run_ok:
  "runWithDB (\<lambda>s. s) False (\<lambda>_. 0) sample_reader_env
     sample_opts sample_reader = (None, snd sample_run)"
proof -
  have "fst sample_run = None" by code_simp
  then show ?thesis unfolding sample_run_def by (metis prod.collapse)
qed

lemma sample_scan: "scan_ok (ue_scan sample_reader_env)"
  by (simp add: scan_ok_def sample_reader_env_def)

lemma runWithDB_ok_reports:
  assumes "runWithDB ulower fused oob env opts rd = (None, rd')"
  shows "rd_out rd' \<noteq> rd_out rd"
proof -
  have out: "writeOutput c ms \<noteq> []" for c ms by (simp add: writeOutput_def Let_def)
  show ?thesis
    using assms out advance_out unfolding runWithDB_def Let_def
    by (fastforce split: if_splits sum.splits)
qed

section \<open>The report and the cursor\<close>

text \<open>
  C6. The report is exact. When a run reports at all, what it adds to its output is the report
  of exactly the stored messages that are incoming, belong to the tenant's chats, are
  recent or newly hydrated, and are not of a skipped type: each of them once, in blocks with
  distinct labels in the order of the labels, and inside a block in the order of their times.
\<close>

theorem report_exact:
  assumes "runWithDB ulower fused oob env opts rd = (r, rd')" "rd_out rd' \<noteq> rd_out rd"
    and "scan_ok (ue_scan env)"
  shows "\<exists>jids cutoff xs.
    TenantGroupJIDs (ue_config env) (o_Tenant opts) = Inr jids \<and>
    cutoffFor fused oob (ue_now env)
       (read_state (ue_read1 env) (o_StatePath opts) (rd_files rd)) (o_SinceHours opts) = Inr cutoff \<and>
    rd_out rd' = rd_out rd @ writeOutput cutoff (map (shown_row ulower) xs) \<and>
    mset xs = filter_mset (\<lambda>q. selected jids cutoff q \<and> \<not> is_skipped ulower q) (mset (t_messages (rd_tables rd))) \<and>
    concat (map snd (group_messages (map (shown_row ulower) xs))) = map (shown_row ulower) xs \<and>
    sorted_wrt (<) (map fst (group_messages (map (shown_row ulower) xs))) \<and>
    (\<forall>l ms. (l, ms) \<in> set (group_messages (map (shown_row ulower) xs)) \<longrightarrow>
       ms \<noteq> [] \<and> (\<forall>m \<in> set ms. u_ChatLabel m = l) \<and> sorted (map u_TS ms))"
proof -
  obtain jids cutoff xs where *:
    "TenantGroupJIDs (ue_config env) (o_Tenant opts) = Inr jids"
    "cutoffFor fused oob (ue_now env)
       (read_state (ue_read1 env) (o_StatePath opts) (rd_files rd)) (o_SinceHours opts) = Inr cutoff"
    "mset xs = filter_mset (\<lambda>q. selected jids cutoff q \<and> \<not> is_skipped ulower q) (mset (t_messages (rd_tables rd)))"
    "sorted (map (\<lambda>q. RowKey (mr_chat_label q) (mr_ts q)) xs)"
    "rd_out rd' = rd_out rd @ writeOutput cutoff (map (shown_row ulower) xs)"
    by (rule runWithDB_rows [OF assms])
  let ?ms = "map (shown_row ulower) xs"
  have groups: "ms \<noteq> [] \<and> (\<forall>m \<in> set ms. u_ChatLabel m = l) \<and> sorted (map u_TS ms)"
    if "(l, ms) \<in> set (group_messages ?ms)" for l ms
  proof -
    have "map_of (group_messages ?ms) l = Some ms"
      using that group_messages_distinct by simp
    then have "ms = filter (\<lambda>m. u_ChatLabel m = l) ?ms" "ms \<noteq> []"
      by (auto simp: group_messages_lookup Let_def split: if_splits)
    moreover have "sorted (map mr_ts (filter (\<lambda>q. mr_chat_label q = l) xs))"
    proof -
      have "sorted (map (\<lambda>q. RowKey (mr_chat_label q) (mr_ts q)) (filter (\<lambda>q. mr_chat_label q = l) xs))"
        using *(4) by (rule sorted_filter)
      then show ?thesis by (induction xs) (auto split: if_splits)
    qed
    ultimately show ?thesis by (auto simp: filter_map o_def)
  qed
  have "sorted (map u_ChatLabel ?ms)" using sorted_labels [OF *(4)] by (simp add: o_def)
  then show ?thesis using group_messages_sorted [of ?ms] groups * by blast
qed

theorem report_exact_witness:
  "\<exists>cutoff xs. rd_out (snd sample_run) = writeOutput cutoff (map (shown_row (\<lambda>s. s)) xs) \<and>
     concat (map snd (group_messages (map (shown_row (\<lambda>s. s)) xs))) = map (shown_row (\<lambda>s. s)) xs"
  using report_exact [OF sample_run_ok runWithDB_ok_reports [OF sample_run_ok] sample_scan]
  by (auto simp: sample_reader_def)

text \<open>
  C22. The cursor only moves over what is safely stored. A run leaves the state file as it was
  or replaces it by a number that a later run parses back, which is not later than the clock
  and at least a minute before the end of the latest successful ingest run (pending and dry
  runs do not count), where that bound is beyond the cursor the run found: with a clock that
  is not behind that cursor the cursor does not move back.
\<close>

theorem cursor_bounded:
  assumes "runWithDB ulower fused oob env opts rd = (r, rd')" "scan_ok (ue_scan env)"
    and "filepath_Base (o_StatePath opts) \<noteq> ''/''" "is_int64 (ue_now env)"
    and "\<forall>n \<in> set (ok_finished (ue_daemon1 env (rd_tables rd))). 0 \<le> n \<and> is_int64 n"
  shows "rd_files rd' (o_StatePath opts) = rd_files rd (o_StatePath opts) \<or>
    (\<exists>c n prior. rd_files rd' (o_StatePath opts) = Some (strconv_FormatInt c) \<and>
       strconv_ParseInt (strings_TrimSpace (strconv_FormatInt c)) = Some c \<and>
       priorCursor (read_state (ue_read2 env) (o_StatePath opts) (rd_files rd)) = Inr prior \<and>
       n \<in> set (ok_finished (ue_daemon1 env (rd_tables rd))) \<and>
       c \<le> n - 60 \<and> c \<le> ue_now env \<and> (prior \<le> ue_now env \<longrightarrow> prior \<le> c))"
  using assms(1-3)
proof (cases rule: runWithDB_state)
  case (moved c ingest prior)
  have n: "ingest \<in> set (ok_finished (ue_daemon1 env (rd_tables rd)))"
    using latestOK_Some [OF moved(2)] by simp
  then have w: "wrap64 (ingest - IngestMargin) = ingest - 60"
    using assms(5) by (auto simp: IngestMargin_def is_int64_def intro!: wrap64_id)
  have "is_int64 c" using moved(5) assms(4) by (simp add: min_def)
  then have "strconv_ParseInt (strings_TrimSpace (strconv_FormatInt c)) = Some c"
    by (simp add: ParseInt_FormatInt)
  then show ?thesis
    using moved n w
    by (intro disjI2 exI [of _ c] exI [of _ ingest] exI [of _ prior]) auto
qed simp

theorem cursor_bounded_witness:
  "rd_files (snd sample_run) ''s'' = None \<or>
    (\<exists>c n. rd_files (snd sample_run) ''s'' = Some (strconv_FormatInt c) \<and> c \<le> n - 60)"
proof -
  have "filepath_Base (o_StatePath sample_opts) \<noteq> ''/''" "is_int64 (ue_now sample_reader_env)"
    by code_simp+
  moreover have "\<forall>n \<in> set (ok_finished (ue_daemon1 sample_reader_env (rd_tables sample_reader))).
      0 \<le> n \<and> is_int64 n"
    by code_simp
  ultimately show ?thesis
    using cursor_bounded [OF sample_run_ok sample_scan]
    by (auto simp: sample_reader_def sample_opts_def)
qed

text \<open>
  Whole hours count exactly, in spite of the floating point arithmetic and whether or not the
  compiler fuses the multiplication and the subtraction.
\<close>

lemma cutoff_whole_hours:
  assumes "\<bar>now\<bar> < 2 ^ 52" "\<bar>h\<bar> < 2 ^ 40"
  shows "cutoffFor fused oob now st (Some (Finite h 0)) = Inr (if h = 0 then 0 else now - 3600 * h)"
proof (cases "h = 0")
  case False
  have now: "float_of_int64 now = Finite now 0"
    using assms(1) by (simp add: float_of_int64_def round64_exact)
  have p: "\<bar>h * 3600\<bar> < 2 ^ 52" using assms(2) by (simp add: abs_mult)
  then have "float_minus_times fused (Finite now 0) (Finite h 0) (Finite 3600 0) = Finite (now - h * 3600) 0"
    using assms(1) by (intro float_minus_times_exact) auto
  moreover have "is_int64 (now - h * 3600)" using assms(1) p by (auto simp: is_int64_def)
  ultimately show ?thesis
    using False now by (simp add: cutoffFor_def int64_of_float_exact)
qed (simp add: cutoffFor_def)

section \<open>Surfaced media\<close>

text \<open>
  C23. Hydrated media are surfaced once: after a run that advances without error, with nothing
  else writing meanwhile, exactly the rows the report showed with fresh media are marked with the time
  of the run, and no other row or column changed. A marked row is shown again only for
  being recent.
\<close>

theorem surfaced_once:
  assumes "runWithDB ulower fused oob env opts rd = (None, rd')" "\<not> o_NoAdvance opts"
    and "scan_ok (ue_scan env)" "filepath_Base (o_StatePath opts) \<noteq> ''/''"
    and "ue_daemon1 env = (\<lambda>t. t)" "ue_daemon2 env = (\<lambda>t. t)" "ue_mark env = None"
    and "unique_key mr_id (t_messages (rd_tables rd))" "ok_finished (rd_tables rd) \<noteq> []"
  shows "\<exists>jids cutoff. TenantGroupJIDs (ue_config env) (o_Tenant opts) = Inr jids \<and>
    t_messages (rd_tables rd') =
      update_where (\<lambda>q. selected jids cutoff q \<and> \<not> is_skipped ulower q \<and> needs_mark q)
        (\<lambda>q. q\<lparr>mr_media_surfaced_at := Some (ue_now env)\<rparr>) (t_messages (rd_tables rd)) \<and>
    (\<forall>q cutoff2. mr_media_surfaced_at q \<noteq> None \<longrightarrow> selected jids cutoff2 q \<longrightarrow> cutoff2 \<le> mr_ts q)"
proof -
  note rep = runWithDB_ok_reports [OF assms(1)]
  obtain jids cutoff xs where jids: "TenantGroupJIDs (ue_config env) (o_Tenant opts) = Inr jids"
    and xs: "mset xs = filter_mset (\<lambda>q. selected jids cutoff q \<and> \<not> is_skipped ulower q)
      (mset (t_messages (rd_tables rd)))"
    and adv: "if o_NoAdvance opts then (None :: go_error option, rd') = (None, rd\<lparr>rd_out := rd_out rd'\<rparr>)
     else (None, rd') = advance env opts (map (shown_row ulower) xs) (rd\<lparr>rd_out := rd_out rd'\<rparr>)"
    by (rule runWithDB_rows [OF assms(1) rep assms(3)]) blast
  let ?msgs = "map (shown_row ulower) xs"
  have set_xs: "set xs = {q \<in> set (t_messages (rd_tables rd)). selected jids cutoff q \<and> \<not> is_skipped ulower q}"
    using arg_cong [OF xs, of set_mset] by simp
  have "advance env opts ?msgs (rd\<lparr>rd_out := rd_out rd'\<rparr>) = (None, rd')"
    using adv assms(2) by simp
  from this assms(4) have "rd_tables rd' = mark_rows (ue_mark env) ?msgs (ue_now env) (rd_tables rd)"
    by (cases rule: advance_cases) (use assms(5,6,9) in simp_all)
  then have t: "t_messages (rd_tables rd') = update_where
      (\<lambda>q. mr_id q \<in> u_ID ` {m \<in> set ?msgs. u_NeedsSurfaceMark m})
      (\<lambda>q. q\<lparr>mr_media_surfaced_at := Some (ue_now env)\<rparr>) (t_messages (rd_tables rd))"
    by (simp add: mark_rows_def assms(7))
  have "mr_id q \<in> u_ID ` {m \<in> set ?msgs. u_NeedsSurfaceMark m} \<longleftrightarrow>
      selected jids cutoff q \<and> \<not> is_skipped ulower q \<and> needs_mark q"
    if q: "q \<in> set (t_messages (rd_tables rd))" for q
  proof -
    have "u_ID ` {m \<in> set ?msgs. u_NeedsSurfaceMark m} = mr_id ` {p \<in> set xs. needs_mark p}"
      by force
    moreover have "p = q" if "p \<in> set xs" "mr_id p = mr_id q" for p
      using unique_key_inj [OF assms(8)] that q set_xs by blast
    ultimately show ?thesis using q set_xs by auto
  qed
  then have "t_messages (rd_tables rd') =
      update_where (\<lambda>q. selected jids cutoff q \<and> \<not> is_skipped ulower q \<and> needs_mark q)
        (\<lambda>q. q\<lparr>mr_media_surfaced_at := Some (ue_now env)\<rparr>) (t_messages (rd_tables rd))"
    unfolding t update_where_def by (intro map_cong) auto
  then show ?thesis using jids by (auto simp: selected_def)
qed

theorem surfaced_once_witness:
  "\<exists>cutoff. t_messages (rd_tables (snd sample_run)) =
     update_where (\<lambda>q. selected [''1@lid''] cutoff q \<and> \<not> is_skipped (\<lambda>s. s) q \<and> needs_mark q)
       (\<lambda>q. q\<lparr>mr_media_surfaced_at := Some 200000\<rparr>) (t_messages sample_tables)"
proof -
  have eq: "TenantGroupJIDs (ue_config sample_reader_env) (o_Tenant sample_opts) =
      Inr [''1@lid'']"
    by code_simp
  have hyps: "\<not> o_NoAdvance sample_opts" "filepath_Base (o_StatePath sample_opts) \<noteq> ''/''"
    "unique_key mr_id (t_messages (rd_tables sample_reader))" "ok_finished (rd_tables sample_reader) \<noteq> []"
    by code_simp+
  have envs: "ue_daemon1 sample_reader_env = (\<lambda>t. t)" "ue_daemon2 sample_reader_env = (\<lambda>t. t)"
    "ue_mark sample_reader_env = None"
    by (simp_all add: sample_reader_env_def)
  from surfaced_once [OF sample_run_ok hyps(1) sample_scan hyps(2) envs hyps(3,4)] eq
  show ?thesis by (auto simp: sample_reader_def sample_reader_env_def)
qed

section \<open>One configuration, two readers\<close>

text \<open>
  The daemon decodes the configuration file into structures, whose member names Go matches
  without regard to case; the reader decodes each group into a map and looks \<open>jid\<close> and
  \<open>tenants\<close> up as they are written. On a file that writes these names in lower case and
  each name once, the two agree.
\<close>

abbreviation folded :: "string \<times> json \<Rightarrow> string" where
  "folded kv \<equiv> fold_key (fst kv)"

definition canonical_group :: "json \<Rightarrow> bool" where
  "canonical_group j =
     (case j of
        JObj kvs \<Rightarrow> unique_key folded kvs \<and>
          list_all (\<lambda>kv. folded kv \<in> {''jid'', ''tenants''} \<longrightarrow> fst kv = folded kv) kvs
      | _ \<Rightarrow> True)"

definition canonical_file :: "json \<Rightarrow> bool" where
  "canonical_file j =
     (case j of
        JObj kvs \<Rightarrow> list_all (\<lambda>kv. folded kv = ''groups'' \<longrightarrow>
          (case snd kv of JArr js \<Rightarrow> list_all canonical_group js | _ \<Rightarrow> True)) kvs
      | _ \<Rightarrow> True)"

lemma set_group_member_frame:
  "set_group_member r kv = Some r' \<Longrightarrow>
    r_JID r' = (if folded kv = ''jid'' then the (dec_string (r_JID r) (snd kv)) else r_JID r) \<and>
    r_Tenants r' = (if folded kv = ''tenants'' then the (dec_strings_ptr (snd kv)) else r_Tenants r) \<and>
    (folded kv = ''jid'' \<longrightarrow> dec_string (r_JID r) (snd kv) \<noteq> None) \<and>
    (folded kv = ''tenants'' \<longrightarrow> dec_strings_ptr (snd kv) \<noteq> None)"
  by (auto simp: set_group_member_def Let_def split: if_splits)

lemma fold_group_members:
  "fold_opt set_group_member r kvs = Some r' \<Longrightarrow> unique_key folded kvs \<Longrightarrow>
    r_JID r' = (case row_of folded ''jid'' kvs of None \<Rightarrow> r_JID r
      | Some kv \<Rightarrow> the (dec_string (r_JID r) (snd kv))) \<and>
    r_Tenants r' = (case row_of folded ''tenants'' kvs of None \<Rightarrow> r_Tenants r
      | Some kv \<Rightarrow> the (dec_strings_ptr (snd kv))) \<and>
    (\<forall>kv. row_of folded ''jid'' kvs = Some kv \<longrightarrow> dec_string (r_JID r) (snd kv) \<noteq> None) \<and>
    (\<forall>kv. row_of folded ''tenants'' kvs = Some kv \<longrightarrow> dec_strings_ptr (snd kv) \<noteq> None)"
proof (induction kvs arbitrary: r)
  case (Cons kv kvs)
  obtain r1 where r1: "set_group_member r kv = Some r1" "fold_opt set_group_member r1 kvs = Some r'"
    using Cons.prems(1) by (auto split: option.splits)
  note IH = Cons.IH [OF r1(2)] and fr = set_group_member_frame [OF r1(1)]
  have u: "unique_key folded kvs" "row_of folded (folded kv) kvs = None"
    using Cons.prems(2) by (auto simp: row_of_None)
  show ?case
    using IH [OF u(1)] fr u(2) by (auto split: option.splits)
qed simp

lemma map_of_folded:
  assumes "unique_key folded kvs" "k \<in> {''jid'', ''tenants''}"
    and "list_all (\<lambda>kv. folded kv \<in> {''jid'', ''tenants''} \<longrightarrow> fst kv = folded kv) kvs"
    and "fold_key k = k"
  shows "map_of (rev kvs) k = map_option snd (row_of folded k kvs)"
proof -
  have "distinct (map fst kvs)"
    using assms(1) unfolding unique_key_def
    by (metis (mono_tags, lifting) distinct_map list.map_comp comp_apply inj_on_def)
  then have "map_of (rev kvs) = map_of kvs" by (simp add: map_of_inject_set rev_map [symmetric])
  moreover have "map_of kvs k = map_option snd (row_of folded k kvs)"
    using assms(2-4) by (induction kvs) auto
  ultimately show ?thesis by simp
qed

lemma fold_key_names: "fold_key ''jid'' = ''jid''" "fold_key ''tenants'' = ''tenants''"
  by code_simp+

lemma tenant_value_map:
  "map_opt (dec_string []) js = Some vs \<Longrightarrow> list_all (\<lambda>v. strings_TrimSpace v \<noteq> []) vs \<Longrightarrow>
    map_opt tenant_value js = Some (map strings_TrimSpace vs)"
proof (induction js arbitrary: vs)
  case (Cons j js)
  then obtain v ws where vs: "vs = v # ws" "dec_string [] j = Some v" "map_opt (dec_string []) js = Some ws"
    by (auto split: option.splits)
  have "tenant_value j = Some (strings_TrimSpace v)"
    using vs(1,2) Cons.prems(2) by (cases j) (auto simp: tenant_value_def Let_def)
  then show ?case using Cons vs by simp
qed simp

lemma group_agrees:
  assumes j: "dec_rawGroup j = Some raw" "canonical_group j" and g: "load_group sj sl raw = Inr g"
  obtains m where "dec_raw_map j = Some m" "groupTenants m = Inr (g_Tenants g)"
    "strings_TrimSpace (rawString (map_of m ''jid'') []) = g_JID g"
proof -
  note snd = load_group_sound [OF g]
  have jid: "strings_TrimSpace (r_JID raw) \<noteq> []"
    using snd by (auto simp: wf_group_def dest: supported_not_Nil)
  obtain vs where vs: "r_Tenants raw = Some vs" "g_Tenants g = map strings_TrimSpace vs" using snd by blast
  have nonblank: "list_all (\<lambda>v. strings_TrimSpace v \<noteq> []) vs" and ne: "vs \<noteq> []"
    using snd vs(2) by (auto simp: wf_group_def list_all_iff)
  obtain kvs where kvs: "j = JObj kvs"
    using j(1) jid by (cases j) (auto simp: zero_rawGroup_def)
  have can: "unique_key folded kvs"
    "list_all (\<lambda>kv. folded kv \<in> {''jid'', ''tenants''} \<longrightarrow> fst kv = folded kv) kvs"
    using j(2) kvs by (simp_all add: canonical_group_def)
  have fold: "fold_opt set_group_member zero_rawGroup kvs = Some raw" using j(1) kvs by simp
  note fields = fold_group_members [OF fold can(1)]
  obtain kj where kj: "row_of folded ''jid'' kvs = Some kj"
    using fields jid by (auto simp: zero_rawGroup_def split: option.splits)
  have sj: "rawString (map_of (rev kvs) ''jid'') [] = r_JID raw"
    using fields kj map_of_folded [OF can(1) _ can(2) fold_key_names(1)]
    by (auto simp: rawString_def zero_rawGroup_def split: option.splits)
  obtain kt where kt: "row_of folded ''tenants'' kvs = Some kt"
    using fields vs by (auto simp: zero_rawGroup_def split: option.splits)
  have "dec_strings_ptr (snd kt) = Some (Some vs)"
    using fields kt vs(1) by (auto split: option.splits)
  then obtain js where js: "snd kt = JArr js" "map_opt (dec_string []) js = Some vs"
    by (cases "snd kt") auto
  have "js \<noteq> []" using js(2) ne by auto
  then have "groupTenants (rev kvs) = Inr (g_Tenants g)"
    using map_of_folded [OF can(1) _ can(2) fold_key_names(2)] kt js vs(2)
      tenant_value_map [OF js(2) nonblank]
    by (simp add: groupTenants_def)
  then show thesis using that [of "rev kvs"] kvs sj snd by simp
qed

lemma groups_agree:
  "load_groups sj sl raws = Inr gs \<Longrightarrow>
    list_all2 (\<lambda>raw m. \<exists>j. canonical_group j \<and> dec_rawGroup j = Some raw \<and> dec_raw_map j = Some m) raws ms \<Longrightarrow>
    tenant_jids tenant ms = Inr (map g_JID (filter (\<lambda>g. HasTenant g tenant) gs))"
proof (induction sj sl raws arbitrary: gs ms rule: load_groups.induct)
  case (2 sj sl raw raws)
  obtain g hs where g: "load_group sj sl raw = Inr g"
    "load_groups (g_JID g # sj) (g_Label g # sl) raws = Inr hs" "gs = g # hs"
    using "2.prems"(1) by (auto split: sum.splits)
  obtain m ns j where m: "ms = m # ns" "canonical_group j" "dec_rawGroup j = Some raw"
    "dec_raw_map j = Some m"
    "list_all2 (\<lambda>raw m. \<exists>j. canonical_group j \<and> dec_rawGroup j = Some raw \<and> dec_raw_map j = Some m) raws ns"
    using "2.prems"(2) by (auto simp: list_all2_Cons1)
  have "groupTenants m = Inr (g_Tenants g) \<and> strings_TrimSpace (rawString (map_of m ''jid'') []) = g_JID g"
    using group_agrees [OF m(3,2) g(1)] m(4) by (metis option.inject)
  moreover have "g_JID g \<noteq> []" using load_group_sound [OF g(1)]
    by (auto simp: wf_group_def dest: supported_not_Nil)
  ultimately show ?case
    using "2.IH" [OF g(1,2) m(5)] g(3) m(1)
    by (simp add: HasTenant_def list_ex_iff)
qed simp

lemma raw_groups_agree:
  "map_opt dec_rawGroup js = Some raws \<Longrightarrow> list_all canonical_group js \<Longrightarrow>
    \<exists>ms. map_opt dec_raw_map js = Some ms \<and>
      list_all2 (\<lambda>raw m. \<exists>j. canonical_group j \<and> dec_rawGroup j = Some raw \<and> dec_raw_map j = Some m) raws ms"
proof (induction js arbitrary: raws)
  case (Cons j js)
  obtain raw rs where r: "dec_rawGroup j = Some raw" "map_opt dec_rawGroup js = Some rs" "raws = raw # rs"
    using Cons.prems(1) by (auto split: option.splits)
  moreover obtain m where "dec_raw_map j = Some m" using r(1) by (cases j) auto
  ultimately show ?case using Cons by auto
qed simp

lemma configs_decode:
  assumes "list_all (\<lambda>kv. folded kv = ''groups'' \<longrightarrow>
      (case snd kv of JArr js \<Rightarrow> list_all canonical_group js | _ \<Rightarrow> True)) kvs"
    and "fold_opt set_config_member c kvs = Some c'" "cg_Enabled d = fc_Enabled c"
    and "list_all2 (\<lambda>raw m. \<exists>j. canonical_group j \<and> dec_rawGroup j = Some raw \<and> dec_raw_map j = Some m)
      (fc_Groups c) (cg_Groups d)"
  shows "\<exists>d'. fold_opt set_configFile_member d kvs = Some d' \<and> cg_Enabled d' = fc_Enabled c' \<and>
    list_all2 (\<lambda>raw m. \<exists>j. canonical_group j \<and> dec_rawGroup j = Some raw \<and> dec_raw_map j = Some m)
      (fc_Groups c') (cg_Groups d')"
  using assms
proof (induction kvs arbitrary: c d)
  case (Cons kv kvs)
  obtain c1 where c1: "set_config_member c kv = Some c1" "fold_opt set_config_member c1 kvs = Some c'"
    using Cons.prems(2) by (auto split: option.splits)
  let ?R = "list_all2 (\<lambda>raw m. \<exists>j. canonical_group j \<and> dec_rawGroup j = Some raw \<and> dec_raw_map j = Some m)"
  obtain d1 where d1: "set_configFile_member d kv = Some d1" "cg_Enabled d1 = fc_Enabled c1"
    "?R (fc_Groups c1) (cg_Groups d1)"
  proof (cases "folded kv = ''groups''")
    case True
    show thesis
    proof (cases "snd kv")
      case (JArr js)
      then obtain raws where raws: "map_opt dec_rawGroup js = Some raws" "c1 = c\<lparr>fc_Groups := raws\<rparr>"
        using c1(1) True by (auto simp: set_config_member_def Let_def)
      obtain ms where "map_opt dec_raw_map js = Some ms" "?R raws ms"
        using raw_groups_agree [OF raws(1)] Cons.prems(1) True JArr by auto
      then show thesis
        using that [of "d\<lparr>cg_Groups := ms\<rparr>"] raws(2) True JArr Cons.prems(3)
        by (simp add: set_configFile_member_def)
    qed (use c1(1) True that [of "d\<lparr>cg_Groups := []\<rparr>"] Cons.prems(3) in
        \<open>auto simp: set_config_member_def set_configFile_member_def Let_def\<close>)
  next
    case False
    then show thesis
      using c1(1) that Cons.prems(3,4)
      by (cases "folded kv = ''enabled''")
        (auto simp: set_config_member_def set_configFile_member_def Let_def)
  qed
  show ?case using Cons.IH [OF _ c1(2) d1(2,3)] Cons.prems(1) d1(1) by simp
qed simp

text \<open>
  C24. The reader and the daemon agree on who owns a chat: on a configuration file the daemon
  accepts, with its member names in lower case, the chats a tenant may read are exactly those
  whose allowlist entry names the tenant, in the order of the file.
\<close>

theorem tenant_jids_agree:
  assumes "Load src = Inr (gs, t)" "cf_read src = Inr b" "json_Unmarshal b = Some j" "canonical_file j"
  shows "TenantGroupJIDs (cf_read src) tenant =
    Inr (map g_JID (filter (\<lambda>g. HasTenant g tenant) gs))"
proof -
  obtain fc where fc: "dec_fileConfig j = Some fc"
    and gs: "load_groups [] [] (if fc_Enabled fc then fc_Groups fc else []) = Inr gs"
    using assms(1-3) by (auto simp: Load_def split: sum.splits option.splits)
  obtain d where d: "dec_configFile j = Some d" "cg_Enabled d = fc_Enabled fc"
    "list_all2 (\<lambda>raw m. \<exists>j. canonical_group j \<and> dec_rawGroup j = Some raw \<and> dec_raw_map j = Some m)
      (fc_Groups fc) (cg_Groups d)"
  proof (cases j)
    case (JObj kvs)
    have "\<exists>d'. fold_opt set_configFile_member \<lparr>cg_Enabled = False, cg_Groups = []\<rparr> kvs = Some d' \<and>
        cg_Enabled d' = fc_Enabled fc \<and>
        list_all2 (\<lambda>raw m. \<exists>j. canonical_group j \<and> dec_rawGroup j = Some raw \<and> dec_raw_map j = Some m)
          (fc_Groups fc) (cg_Groups d')"
      by (rule configs_decode [where c = "\<lparr>fc_Enabled = False, fc_Groups = []\<rparr>"])
        (use assms(4) fc JObj in \<open>simp_all add: canonical_file_def\<close>)
    then show thesis using that JObj by auto
  qed (use fc that [of "\<lparr>cg_Enabled = False, cg_Groups = []\<rparr>"] in auto)
  show ?thesis
    using assms(2,3) d groups_agree [OF gs] gs
    by (auto simp: TenantGroupJIDs_def split: if_splits)
qed

theorem tenant_jids_agree_witness:
  "TenantGroupJIDs (cf_read sample_file) ''t'' = Inr [''7@lid'']"
proof -
  have can: "canonical_file sample_json" by code_simp
  obtain gs t where l: "Load sample_file = Inr (gs, t)"
  proof (cases "Load sample_file")
    case (Inl e)
    moreover have "\<not> isl (Load sample_file)" by code_simp
    ultimately show thesis by simp
  qed auto
  have "(case Load sample_file of Inl _ \<Rightarrow> False
      | Inr (gs, _) \<Rightarrow> map g_JID (filter (\<lambda>g. HasTenant g ''t'') gs) = [''7@lid''])"
    by code_simp
  moreover have "json_Unmarshal (json_Marshal sample_json) = Some sample_json" by code_simp
  moreover have "cf_read sample_file = Inr (json_Marshal sample_json)" by (simp add: sample_file_def)
  ultimately show ?thesis
    using tenant_jids_agree [OF l _ _ can, of "json_Marshal sample_json" "''t''"] l by simp
qed

end
