(* ===== verification/No_Loss.thy ===== *)
theory No_Loss
  imports Unseen_Properties
begin

text \<open>
  The daemon and a tenant's reader over the same store. The daemon writes at any time, also
  while a run of the reader is under way: between its start and its query of the rows, before
  it asks for the latest ingest run, before it marks what it has surfaced. The cursor a run
  leaves is what the next run starts from: the question is which messages it can pass by.
  Daemon and reader share a clock that does not go back, and nobody but this reader, one run
  after the other, writes its state file.
\<close>

section \<open>Everybody else's steps\<close>

text \<open>
  \<open>env_steps (w, n) (w', n')\<close>: writes and group synchronisations of the daemon and the marks of
  readers (those wait for an open transaction), the clock going from n to n'.
\<close>

inductive env_steps ::
  "(string \<Rightarrow> string) \<Rightarrow> (string \<Rightarrow> string) \<Rightarrow> writer \<times> int64 \<Rightarrow> writer \<times> int64 \<Rightarrow> bool" for H ulower where
  es_none: "n \<le> n' \<Longrightarrow> env_steps H ulower (w, n) (w, n')"
| es_write: "env_steps H ulower c (w, n) \<Longrightarrow> n \<le> we_now env \<Longrightarrow>
    env_steps H ulower c (snd (Write H ulower env ev w), we_now env)"
| es_groups: "env_steps H ulower c (w, n) \<Longrightarrow> n \<le> n' \<Longrightarrow>
    env_steps H ulower c (snd (EnsureGroups e fault n' gs w), n')"
| es_marks: "env_steps H ulower c (w, n) \<Longrightarrow> idle (w_db w) \<Longrightarrow>
    env_steps H ulower c (w\<lparr>w_db := opened (mark_rows fault msgs now (durable (w_db w)))\<rparr>, n)"

section \<open>Ingest runs and the clock\<close>

definition runs_until :: "int64 \<Rightarrow> tables \<Rightarrow> bool" where
  "runs_until n t \<longleftrightarrow> (\<forall>r \<in> set (t_runs t). \<forall>f. rn_finished_at r = Some f \<longrightarrow> 0 \<le> f \<and> f \<le> n)"

lemma runs_until_mono: "runs_until n t \<Longrightarrow> n \<le> m \<Longrightarrow> runs_until m t"
  by (force simp: runs_until_def)

lemma runs_until_ok: "runs_until n t \<Longrightarrow> f \<in> set (ok_finished t) \<Longrightarrow> 0 \<le> f \<and> f \<le> n"
  by (force simp: runs_until_def ok_finished_def)

lemma merge_run_finished [simp]: "rn_finished_at (merge_run x y) = rn_finished_at x"
  by (simp add: merge_run_def)

lemma mark_run_finished [simp]: "rn_finished_at (mark_run m r) = rn_finished_at r"
  by (cases m) simp_all

lemma runs_until_mark: "runs_until n t \<Longrightarrow> runs_until n (mark_tables m i runID t)"
  by (auto simp: runs_until_def mark_tables_def set_update_where)

lemma runs_until_effect:
  assumes "runs_until n t" "n \<le> we_now env" "0 \<le> we_now env"
    and "write_effect H env k ev i h res runID t t1"
  shows "runs_until (we_now env) t1"
proof -
  obtain run where run: "rn_finished_at run = Some (we_now env)"
    "t_runs t1 = upsert rn_run_id merge_run run (t_runs t)"
    using assms(4) by (auto simp: write_effect_def)
  show ?thesis
    unfolding runs_until_def
  proof (intro ballI allI impI)
    fix r f assume r: "r \<in> set (t_runs t1)" "rn_finished_at r = Some f"
    then have "r = run \<or> r \<in> set (t_runs t) \<or> (\<exists>y. r = merge_run run y)"
      using runs_tab.set_upsertD [OF r(1) [unfolded run(2)]] by auto
    then show "0 \<le> f \<and> f \<le> we_now env"
      using r(2) run(1) assms(1,2,3) by (force simp: runs_until_def)
  qed
qed

lemma runs_until_Write:
  assumes "runs_until n (durable (w_db w))" "n \<le> we_now env" "0 \<le> n"
  shows "runs_until (we_now env) (durable (w_db (snd (Write H ulower env ev w))))"
proof -
  obtain res r w' where W: "Write H ulower env ev w = ((res, r), w')" by (metis prod.collapse)
  from W show ?thesis
  proof (cases rule: Write_cases)
    case (rejected e)
    then show ?thesis using W runs_until_mono [OF assms(1,2)] by simp
  next
    case (stored res1 runID t1 m w1)
    then show ?thesis
      using W runs_until_mark [OF runs_until_effect [OF assms(1,2) _ stored(4)]] assms(2,3) by simp
  qed
qed

lemma EnsureGroups_runs:
  "EnsureGroups e fault now gs w = (r, w') \<Longrightarrow> t_runs (durable (w_db w')) = t_runs (durable (w_db w))"
proof -
  assume E: "EnsureGroups e fault now gs w = (r, w')"
  obtain u c where tx: "WithTx e () (ensure_groups_tx fault now gs) (w_db w) = (u, r, c)"
    and w': "w_db w' = c"
    using E by (auto simp: EnsureGroups_def split: prod.splits)
  show ?thesis
    using tx.tx_invariant [OF tx, where P = "\<lambda>t. t_runs t = t_runs (durable (w_db w))"]
      ensure_groups_tx_keys w' by fastforce
qed

lemma mark_rows_runs [simp]: "t_runs (mark_rows fault msgs now t) = t_runs t"
  by (simp add: mark_rows_def)

lemma mark_rows_key:
  "row_of mr_id i (t_messages t) = Some q \<Longrightarrow>
    \<exists>q'. row_of mr_id i (t_messages (mark_rows fault msgs now t)) = Some q' \<and> natural_key q' = natural_key q"
  by (auto simp: mark_rows_def row_of_update_where natural_key_def)

lemma env_steps_runs:
  assumes "env_steps H ulower c c'" "runs_until (snd c) (durable (w_db (fst c)))" "0 \<le> snd c"
  shows "runs_until (snd c') (durable (w_db (fst c'))) \<and> snd c \<le> snd c'"
  using assms
proof (induction rule: env_steps.induct)
  case (es_none n n' w)
  then show ?case using runs_until_mono by simp
next
  case (es_write c w n env ev)
  then show ?case using runs_until_Write [of n w env] by simp
next
  case (es_groups c w n n' e fault gs)
  have "t_runs (durable (w_db (snd (EnsureGroups e fault n' gs w)))) = t_runs (durable (w_db w))"
    using EnsureGroups_runs by (metis prod.collapse)
  then show ?case using es_groups runs_until_mono [of n _ n'] by (simp add: runs_until_def) fastforce
next
  case (es_marks c w n fault msgs now)
  then show ?case by (simp add: runs_until_def)
qed

lemma env_steps_keep:
  assumes "env_steps H ulower c c'" "row_of mr_id i (t_messages (durable (w_db (fst c)))) = Some q"
  shows "\<exists>q'. row_of mr_id i (t_messages (durable (w_db (fst c')))) = Some q' \<and> natural_key q' = natural_key q"
  using assms
proof (induction rule: env_steps.induct)
  case (es_write c w n env ev)
  then obtain q' where q': "row_of mr_id i (t_messages (durable (w_db w))) = Some q'"
    "natural_key q' = natural_key q" by auto
  obtain res r w' where W: "Write H ulower env ev w = ((res, r), w')" by (metis prod.collapse)
  then show ?case using Write_row_kept [OF W q'(1)] q'(2) by (auto simp: same_identity_def)
next
  case (es_groups c w n n' e fault gs)
  have "t_messages (durable (w_db (snd (EnsureGroups e fault n' gs w)))) = t_messages (durable (w_db w))"
    using EnsureGroups_messages by (metis prod.collapse)
  then show ?case using es_groups by simp
next
  case (es_marks c w n fault msgs now)
  then show ?case using mark_rows_key by fastforce
qed auto

section \<open>The world\<close>

text \<open>\<open>par\<close> bundles the parameters of the reader's run.\<close>

record reader_params =
  pr_ulower :: "string \<Rightarrow> string"
  pr_fused :: bool
  pr_oob :: "float64 \<Rightarrow> int64"

definition reader_at :: "tables \<Rightarrow> files \<Rightarrow> reader" where
  "reader_at t fs = \<lparr>rd_tables = t, rd_files = fs, rd_out = [], rd_err = []\<rparr>"

definition read_run :: "reader_params \<Rightarrow> reader_env \<Rightarrow> options \<Rightarrow> tables \<Rightarrow> files \<Rightarrow> go_error option \<times> reader" where
  "read_run par env opts t fs =
     runWithDB (pr_ulower par) (pr_fused par) (pr_oob par) env opts (reader_at t fs)"

definition files_after :: "reader_params \<Rightarrow> reader_env \<Rightarrow> options \<Rightarrow> writer \<Rightarrow> files \<Rightarrow> files" where
  "files_after par env opts w fs = rd_files (snd (read_run par env opts (durable (w_db w)) fs))"

text \<open>
  The course of a run of the reader: it takes the time after \<open>c0\<close>, queries the rows at \<open>c\<close>,
  asks for the latest run at \<open>c1\<close> and marks what it has surfaced at \<open>c2\<close>.
\<close>

definition run_course ::
  "(string \<Rightarrow> string) \<Rightarrow> (string \<Rightarrow> string) \<Rightarrow> string \<Rightarrow> reader_env \<Rightarrow> options \<Rightarrow>
     writer \<times> int64 \<Rightarrow> writer \<times> int64 \<Rightarrow> writer \<times> int64 \<Rightarrow> writer \<times> int64 \<Rightarrow> bool" where
  "run_course H ulower path env opts c0 c c1 c2 \<longleftrightarrow>
     o_StatePath opts = path \<and> scan_ok (ue_scan env) \<and> is_int64 (snd c2) \<and>
     env_steps H ulower c0 c \<and> env_steps H ulower c c1 \<and> env_steps H ulower c1 c2 \<and>
     snd c0 \<le> ue_now env \<and> ue_now env \<le> snd c \<and>
     ue_daemon1 env = (\<lambda>_. durable (w_db (fst c1))) \<and> ue_daemon2 env = (\<lambda>_. durable (w_db (fst c2)))"

text \<open>
  The state of the store, the files with the reader's cursor, and the clock, between two runs
  of the reader; whichever rows \<open>msgs\<close> a run marks.
\<close>

inductive world ::
  "(string \<Rightarrow> string) \<Rightarrow> (string \<Rightarrow> string) \<Rightarrow> reader_params \<Rightarrow> string \<Rightarrow> writer \<Rightarrow> files \<Rightarrow> int64 \<Rightarrow> bool"
  for H ulower par path where
  wd_start: "fs path = None \<Longrightarrow> world H ulower par path (new_writer root) fs 0"
| wd_steps: "world H ulower par path w fs n \<Longrightarrow> env_steps H ulower (w, n) (w', n') \<Longrightarrow>
    world H ulower par path w' fs n'"
| wd_reader: "world H ulower par path w0 fs n0 \<Longrightarrow>
    run_course H ulower path env opts (w0, n0) (w, n) (w1, n1) (w2, n2) \<Longrightarrow>
    world H ulower par path
      (if idle (w_db w2)
       then w2\<lparr>w_db := opened (mark_rows (ue_mark env) msgs (ue_now env) (durable (w_db w2)))\<rparr>
       else w2)
      (files_after par env opts w fs) n2"

text \<open>
  \<open>moment w fs n age\<close>: a moment at which a message may be stored, with the files that the next
  run to query the rows will have started from, and the age of message which that run still
  covers: between two runs, or during one that has queried the rows without the message.
\<close>

inductive moment ::
  "(string \<Rightarrow> string) \<Rightarrow> (string \<Rightarrow> string) \<Rightarrow> reader_params \<Rightarrow> string \<Rightarrow>
     writer \<Rightarrow> files \<Rightarrow> int64 \<Rightarrow> int64 \<Rightarrow> bool" for H ulower par path where
  mo_between: "world H ulower par path w fs n \<Longrightarrow> moment H ulower par path w fs n 1860"
| mo_during: "world H ulower par path w0 fs n0 \<Longrightarrow>
    run_course H ulower path env opts (w0, n0) (w, n) (w1, n1) (w2, n2) \<Longrightarrow>
    env_steps H ulower (w, n) (wm, nm) \<Longrightarrow>
    moment H ulower par path wm (files_after par env opts w fs) nm 1800"

text \<open>The cursor, if the state file holds one.\<close>

definition cursor_upto :: "string \<Rightarrow> files \<Rightarrow> int64 \<Rightarrow> bool" where
  "cursor_upto path fs n \<longleftrightarrow> (\<forall>s c. fs path = Some s \<longrightarrow> strconv_ParseInt (strings_TrimSpace s) = Some c \<longrightarrow>
     - 60 \<le> c \<and> c \<le> n)"

lemma cursor_upto_mono: "cursor_upto path fs n \<Longrightarrow> n \<le> m \<Longrightarrow> cursor_upto path fs m"
  by (fastforce simp: cursor_upto_def)

text \<open>A run leaves a cursor no later than its start and a minute before its query for the latest run.\<close>

lemma run_course_cursor:
  assumes inv: "0 \<le> n0" "runs_until n0 (durable (w_db w0))" "cursor_upto path fs (n0 - 60)"
    and run: "run_course H ulower path env opts (w0, n0) (w, n) (w1, n1) (w2, n2)"
    and base: "filepath_Base path \<noteq> ''/''"
  shows "runs_until n2 (durable (w_db w2)) \<and> 0 \<le> n \<and> n \<le> n1 \<and> n1 \<le> n2 \<and>
    cursor_upto path (files_after par env opts w fs) (min n (n1 - 60))"
proof -
  have c: "o_StatePath opts = path" "scan_ok (ue_scan env)" "is_int64 n2" "n0 \<le> ue_now env" "ue_now env \<le> n"
    "ue_daemon1 env = (\<lambda>_. durable (w_db w1))"
    and st: "env_steps H ulower (w0, n0) (w, n)" "env_steps H ulower (w, n) (w1, n1)"
      "env_steps H ulower (w1, n1) (w2, n2)"
    using run by (simp_all add: run_course_def)
  have r0: "runs_until n (durable (w_db w))" "n0 \<le> n" using env_steps_runs [OF st(1)] inv by auto
  have r1: "runs_until n1 (durable (w_db w1))" "n \<le> n1" using env_steps_runs [OF st(2)] r0 inv by auto
  have r2: "runs_until n2 (durable (w_db w2))" "n1 \<le> n2" using env_steps_runs [OF st(3)] r0 r1 inv by auto
  obtain r rd' where rd: "runWithDB (pr_ulower par) (pr_fused par) (pr_oob par)
      env opts (reader_at (durable (w_db w)) fs) = (r, rd')"
    by (rule prod.exhaust)
  have fs': "files_after par env opts w fs = rd_files rd'"
    using rd by (simp add: files_after_def read_run_def)
  have "cursor_upto path (rd_files rd') (min n (n1 - 60))"
    using rd c(2) base [folded c(1)]
  proof (cases rule: runWithDB_state)
    case kept
    then show ?thesis
      using inv(3) c(1) r0 r1 by (fastforce simp: cursor_upto_def reader_at_def)
  next
    case (moved k ingest prior)
    have "ingest \<in> set (ok_finished (durable (w_db w1)))"
      using latestOK_Some [OF moved(2)] c(6) by simp
    then have i: "0 \<le> ingest" "ingest \<le> n1" using runs_until_ok r1 by blast+
    have "wrap64 (ingest - IngestMargin) = ingest - 60"
      using i r2 c(3) by (auto simp: IngestMargin_def is_int64_def intro!: wrap64_id)
    then have "k = min (ue_now env) (ingest - 60)" using moved(5) by simp
    then have k: "- 60 \<le> k" "k \<le> n" "k \<le> n1 - 60" using i c(4,5) inv(1) by auto
    then have "is_int64 k" using r1 r2 c(3) by (auto simp: is_int64_def)
    then show ?thesis using moved(1) k c(1) by (simp add: cursor_upto_def ParseInt_FormatInt)
  qed
  then show ?thesis using r0 r1 r2 inv(1) fs' by simp
qed

lemma world_invariant:
  assumes "world H ulower par path w fs n" "filepath_Base path \<noteq> ''/''"
  shows "0 \<le> n \<and> runs_until n (durable (w_db w)) \<and> cursor_upto path fs (n - 60)"
  using assms(1)
proof (induction rule: world.induct)
  case (wd_start fs root)
  then show ?case
    by (simp add: cursor_upto_def runs_until_def new_writer_def empty_tables_def)
next
  case (wd_steps w fs n w' n')
  then show ?case
    using env_steps_runs [OF wd_steps.hyps(2)] cursor_upto_mono [of path fs "n - 60" "n' - 60"] by auto
next
  case (wd_reader w0 fs n0 env opts w n w1 n1 w2 n2 msgs)
  have r: "runs_until n2 (durable (w_db w2))" "0 \<le> n" "n \<le> n1" "n1 \<le> n2"
    "cursor_upto path (files_after par env opts w fs) (min n (n1 - 60))"
    using run_course_cursor [OF _ _ _ wd_reader.hyps(2) assms(2)] wd_reader.IH by auto
  then have "cursor_upto path (files_after par env opts w fs) (n2 - 60)"
    using cursor_upto_mono by fastforce
  then show ?case using r by (auto simp: runs_until_def)
qed

lemma moment_cursor:
  assumes "moment H ulower par path w fs n age" "filepath_Base path \<noteq> ''/''"
  shows "0 \<le> n \<and> age \<le> 1860 \<and> cursor_upto path fs (n + 1800 - age)"
  using assms(1)
proof (cases rule: moment.cases)
  case mo_between
  then show ?thesis using world_invariant [OF _ assms(2)] by simp
next
  case (mo_during w0 fs0 n0 env opts v m w1 n1 w2 n2)
  have inv: "0 \<le> n0" "runs_until n0 (durable (w_db w0))" "cursor_upto path fs0 (n0 - 60)"
    using world_invariant [OF mo_during(3) assms(2)] by simp_all
  note c = run_course_cursor [OF inv mo_during(4) assms(2), where par = par]
  have "runs_until m (durable (w_db v))"
    using env_steps_runs [of H ulower "(w0, n0)" "(v, m)"] mo_during(4) inv by (simp add: run_course_def)
  then have "m \<le> n" using env_steps_runs [OF mo_during(5)] c by simp
  then show ?thesis using c mo_during(1,2) cursor_upto_mono by fastforce
qed

section \<open>No message is lost\<close>

text \<open>
  C1. A message that reaches the store soon enough is not passed by. Let a new message be
  stored at any moment: between two runs of the reader of a tenant of its chat, no more than
  1860 seconds after its time stamp, or while such a run is under way that has queried the
  rows already, no more than 1800 seconds after its time stamp. Whatever the daemon and the
  reader did before and whatever else is written and marked meanwhile, the next run that
  queries the rows, with its default cutoff, shows it, if it can report at all and unless
  the message has become one of a skipped type or of our own. A reader that has no
  cursor yet shows the last day.
\<close>

theorem no_message_lost:
  assumes at: "moment H ulower par path w fs n age" "filepath_Base path \<noteq> ''/''"
    and W: "Write H ulower env ev w = ((res, None), w1)" "res_Inserted res" "n \<le> we_now env"
    and recent: "we_now env - age \<le> ev_Timestamp ev" "0 \<le> ev_Timestamp ev" "is_int64 (we_now env)"
    and later: "env_steps H ulower (w1, we_now env) (w2, n2)"
    and q: "row_of mr_id (res_ID res) (t_messages (durable (w_db w2))) = Some q"
      "\<not> mr_from_me q" "\<not> is_skipped (pr_ulower par) q"
    and run: "read_run par renv opts (durable (w_db w2)) fs = (r, rd')" "rd_out rd' \<noteq> []"
      "o_StatePath opts = path" "o_SinceHours opts = None" "scan_ok (ue_scan renv)"
      "is_int64 (ue_now renv)" "0 \<le> ue_now renv"
    and cursor: "(\<exists>s c. fs path = Some s \<and> strconv_ParseInt (strings_TrimSpace s) = Some c) \<or>
      ue_now renv - 86400 \<le> ev_Timestamp ev"
    and tenant: "TenantGroupJIDs (ue_config renv) (o_Tenant opts) = Inr jids"
      "mr_chat_jid q \<in> set jids"
  shows "\<exists>cutoff xs. rd_out rd' = writeOutput cutoff (map (shown_row (pr_ulower par)) xs) \<and> q \<in> set xs"
proof -
  note inv = moment_cursor [OF at]
  obtain q0 where q0: "row_of mr_id (res_ID res) (t_messages (durable (w_db w1))) = Some q0"
    "natural_key q0 = event_key ev"
    using Write_stored [OF W(1)] W(2) by auto
  then have "natural_key q = event_key ev"
    using env_steps_keep [OF later, of "res_ID res" q0] q(1) by auto
  then have ts: "mr_ts q = ev_Timestamp ev" by (simp add: natural_key_def event_key_def)
  let ?rd = "reader_at (durable (w_db w2)) fs"
  have runDB: "runWithDB (pr_ulower par) (pr_fused par) (pr_oob par) renv opts ?rd = (r, rd')"
    using run(1) by (simp add: read_run_def)
  obtain jids' cutoff xs where
    j: "TenantGroupJIDs (ue_config renv) (o_Tenant opts) = Inr jids'"
    and cut: "cutoffFor (pr_fused par) (pr_oob par) (ue_now renv)
       (read_state (ue_read1 renv) (o_StatePath opts) (rd_files ?rd)) (o_SinceHours opts) = Inr cutoff"
    and xs: "mset xs = filter_mset (\<lambda>q. selected jids' cutoff q \<and> \<not> is_skipped (pr_ulower par) q)
       (mset (t_messages (rd_tables ?rd)))"
    and out: "rd_out rd' = rd_out ?rd @ writeOutput cutoff (map (shown_row (pr_ulower par)) xs)"
    by (rule runWithDB_rows [OF runDB _ run(5)]) (use run(2) in \<open>auto simp: reader_at_def\<close>)
  have st: "read_state (ue_read1 renv) (o_StatePath opts) (rd_files ?rd) =
      (case ue_read1 renv of Some e \<Rightarrow> Unreadable e
       | None \<Rightarrow> (case fs path of None \<Rightarrow> NotExist | Some b \<Rightarrow> Contents b))"
    using run(3) by (simp add: read_state_def reader_at_def)
  have "cutoff \<le> ev_Timestamp ev"
  proof (cases "\<exists>s c. fs path = Some s \<and> strconv_ParseInt (strings_TrimSpace s) = Some c")
    case True
    then obtain s c where s: "fs path = Some s" "strconv_ParseInt (strings_TrimSpace s) = Some c" by blast
    then have c: "- 60 \<le> c" "c \<le> n + 1800 - age" using inv by (auto simp: cursor_upto_def)
    have "is_int64 c" using s(2) by (rule ParseInt_range)
    then have "wrap64 (c - DefaultOverlap) = c - 1800"
      using c by (auto simp: DefaultOverlap_def is_int64_def intro!: wrap64_id)
    then have "cutoff = (if c - 1800 < 0 then 0 else c - 1800)"
      using cut st s run(4) by (auto simp: cutoffFor_def Let_def split: option.splits)
    then show ?thesis using c recent W(3) by auto
  next
    case False
    have "wrap64 (ue_now renv - 24 * 3600) = ue_now renv - 86400"
      using run(6,7) by (auto simp: is_int64_def intro!: wrap64_id)
    then have "cutoff = ue_now renv - 86400"
      using cut st False run(4) by (auto simp: cutoffFor_def split: option.splits)
    then show ?thesis using cursor False by auto
  qed
  then have "selected jids' cutoff q"
    using q(2) tenant j ts by (simp add: selected_def)
  moreover have "q \<in> set (t_messages (durable (w_db w2)))" using row_of_SomeD [OF q(1)] by simp
  ultimately have "q \<in># mset xs" using q(3) by (simp add: xs reader_at_def)
  then show ?thesis using out by (intro exI [of _ cutoff] exI [of _ xs]) (simp add: reader_at_def)
qed

theorem no_message_lost_witness:
  "\<exists>cutoff xs q. rd_out (snd (read_run \<lparr>pr_ulower = (\<lambda>s. s),
      pr_fused = False, pr_oob = (\<lambda>_. 0)\<rparr> (sample_reader_env\<lparr>ue_now := 100\<rparr>) sample_opts
      (durable (w_db sample_stored)) (\<lambda>_. None))) = writeOutput cutoff (map (shown_row (\<lambda>s. s)) xs) \<and>
    q \<in> set xs \<and> mr_text q = Some ''hi''"
proof -
  let ?w = "snd (EnsureGroups no_fault (\<lambda>_. None) 7 [sample_group] (new_writer ''m''))"
  let ?W = "Write (\<lambda>s. s) (\<lambda>s. s) sample_env sample_event ?w"
  let ?par = "\<lparr>pr_ulower = (\<lambda>s. s), pr_fused = False, pr_oob = (\<lambda>_. 0)\<rparr>"
  let ?renv = "sample_reader_env\<lparr>ue_now := 100\<rparr>"
  let ?run = "read_run ?par ?renv sample_opts (durable (w_db sample_stored)) (\<lambda>_. None)"
  have "env_steps (\<lambda>s. s) (\<lambda>s. s) (new_writer ''m'', 0) (?w, 7)"
    by (rule es_groups [of _ _ _ _ 0]) (simp_all add: es_none)
  then have "world (\<lambda>s. s) (\<lambda>s. s) ?par ''s'' ?w (\<lambda>_. None) 7"
    by (rule wd_steps [OF wd_start, rotated]) simp
  then have at: "moment (\<lambda>s. s) (\<lambda>s. s) ?par ''s'' ?w (\<lambda>_. None) 7 1860" by (rule mo_between)
  have "snd (fst ?W) = None \<and> res_Inserted (fst (fst ?W))" by code_simp
  then have W: "?W = ((fst (fst ?W), None), sample_stored)" "res_Inserted (fst (fst ?W))"
    unfolding sample_stored_def by (metis prod.collapse, simp)
  have "map_option (\<lambda>q. (mr_from_me q, is_skipped (\<lambda>s. s) q, mr_chat_jid q, mr_text q))
      (row_of mr_id (res_ID (fst (fst ?W))) (t_messages (durable (w_db sample_stored)))) =
      Some (False, False, ''1@lid'', Some ''hi'')"
    by code_simp
  then obtain q where q: "row_of mr_id (res_ID (fst (fst ?W))) (t_messages (durable (w_db sample_stored))) = Some q"
    "\<not> mr_from_me q" "\<not> is_skipped (\<lambda>s. s) q" "mr_chat_jid q = ''1@lid''" "mr_text q = Some ''hi''"
    by auto
  have run: "?run = (fst ?run, snd ?run)" by simp
  have rest: "rd_out (snd ?run) \<noteq> []" "filepath_Base ''s'' \<noteq> ''/''"
    "TenantGroupJIDs (ue_config ?renv) (o_Tenant sample_opts) = Inr [''1@lid'']"
    by code_simp+
  have "scan_ok (ue_scan ?renv)" using sample_scan by (simp add: sample_reader_env_def)
  then have "\<exists>cutoff xs. rd_out (snd ?run) = writeOutput cutoff (map (shown_row (\<lambda>s. s)) xs) \<and> q \<in> set xs"
    using no_message_lost [OF at rest(2) W _ _ _ _ es_none q(1,2) _ run rest(1), of 9 "[''1@lid'']"] q(3,4) rest(3)
    by (simp add: sample_env_def sample_event_def sample_opts_def is_int64_def)
  then show ?thesis using q(5) by blast
qed

end
