(* ===== verification/Go_Flags.thy ===== *)
theory Go_Flags
  imports Go_Strings
begin

text \<open>
  Go's \<open>flag\<close> package as the commands use it: a flag set with \<open>ContinueOnError\<close> gives each
  name a setter on the record of the parsed values. \<open>quote\<close> is the verb \<open>%q\<close>.
\<close>

section \<open>strconv.ParseInt with base 0\<close>

definition lower :: "char \<Rightarrow> char" where
  "lower c = ascii_lower c"

definition digit_value :: "char \<Rightarrow> nat option" where
  "digit_value c =
     (if is_digit c then Some (byte c - 48)
      else if 97 \<le> byte (lower c) \<and> byte (lower c) \<le> 122 then Some (byte (lower c) - 97 + 10)
      else None)"

text \<open>The digits in a base, underscores left out.\<close>

fun base_value :: "nat \<Rightarrow> nat \<Rightarrow> string \<Rightarrow> nat option" where
  "base_value b acc [] = Some acc"
| "base_value b acc (c # s) =
     (if c = CHR ''_'' then base_value b acc s
      else case digit_value c of
        None \<Rightarrow> None
      | Some d \<Rightarrow> if d \<ge> b then None else base_value b (b * acc + d) s)"

definition base_prefix :: "string \<Rightarrow> nat \<times> string" where
  "base_prefix s =
     (case s of
        c # d # r \<Rightarrow>
          if c \<noteq> CHR ''0'' then (10, s)
          else if r \<noteq> [] \<and> lower d = CHR ''b'' then (2, r)
          else if r \<noteq> [] \<and> lower d = CHR ''o'' then (8, r)
          else if r \<noteq> [] \<and> lower d = CHR ''x'' then (16, r)
          else (8, d # r)
      | [c] \<Rightarrow> if c = CHR ''0'' then (8, []) else (10, s)
      | [] \<Rightarrow> (10, []))"

text \<open>\<open>underscoreOK\<close>: an underscore stands between two digits, or after a base prefix.\<close>

fun underscores :: "bool \<Rightarrow> char \<Rightarrow> string \<Rightarrow> bool" where
  "underscores hex saw [] = (saw \<noteq> CHR ''_'')"
| "underscores hex saw (c # s) =
     (if is_digit c \<or> (hex \<and> 97 \<le> byte (lower c) \<and> byte (lower c) \<le> 102)
      then underscores hex (CHR ''0'') s
      else if c = CHR ''_'' then saw = CHR ''0'' \<and> underscores hex (CHR ''_'') s
      else saw \<noteq> CHR ''_'' \<and> underscores hex (CHR 0x21) s)"

definition underscoreOK :: "string \<Rightarrow> bool" where
  "underscoreOK s0 =
     (let s = (case s0 of c # r \<Rightarrow> if c = CHR ''-'' \<or> c = CHR ''+'' then r else s0 | [] \<Rightarrow> [])
      in case s of
           c # d # r \<Rightarrow>
             if c = CHR ''0'' \<and> lower d \<in> set ''box''
             then underscores (lower d = CHR ''x'') (CHR ''0'') r
             else underscores False (CHR ''^'') s
         | _ \<Rightarrow> underscores False (CHR ''^'') s)"

definition ParseInt0 :: "string \<Rightarrow> go_error + int64" where
  "ParseInt0 s0 =
     (case s0 of
        [] \<Rightarrow> Inl (ErrMsg ''parse error'')
      | c # r \<Rightarrow>
          let neg = (c = CHR ''-'');
              s = (if c = CHR ''-'' \<or> c = CHR ''+'' then r else s0)
          in if s = [] then Inl (ErrMsg ''parse error'')
             else case base_prefix s of (b, ds) \<Rightarrow>
               (case base_value b 0 ds of
                  None \<Rightarrow> Inl (ErrMsg ''parse error'')
                | Some v \<Rightarrow>
                    if CHR ''_'' \<in> set ds \<and> \<not> underscoreOK s0 then Inl (ErrMsg ''parse error'')
                    else if neg then (if v > 9223372036854775808 then Inl (ErrMsg ''value out of range'')
                                      else Inr (- int v))
                    else if v \<ge> 9223372036854775808 then Inl (ErrMsg ''value out of range'')
                    else Inr (int v)))"

definition ParseBool :: "string \<Rightarrow> go_error + bool" where
  "ParseBool s =
     (if s \<in> set [''1'', ''t'', ''T'', ''true'', ''TRUE'', ''True''] then Inr True
      else if s \<in> set [''0'', ''f'', ''F'', ''false'', ''FALSE'', ''False''] then Inr False
      else Inl (ErrMsg ''parse error''))"

section \<open>Flag sets\<close>

text \<open>A flag: whether it is a boolean flag, and what setting it does.\<close>

type_synonym 'o go_flag = "bool \<times> (string \<Rightarrow> 'o \<Rightarrow> go_error + 'o)"

definition string_flag :: "(string \<Rightarrow> 'o \<Rightarrow> 'o) \<Rightarrow> 'o go_flag" where
  "string_flag upd = (False, \<lambda>v x. Inr (upd v x))"

definition int_flag :: "(int64 \<Rightarrow> 'o \<Rightarrow> 'o) \<Rightarrow> 'o go_flag" where
  "int_flag upd = (False, \<lambda>v x. case ParseInt0 v of Inl e \<Rightarrow> Inl e | Inr n \<Rightarrow> Inr (upd n x))"

definition bool_flag :: "(bool \<Rightarrow> 'o \<Rightarrow> 'o) \<Rightarrow> 'o go_flag" where
  "bool_flag upd = (True, \<lambda>v x. case ParseBool v of Inl e \<Rightarrow> Inl e | Inr b \<Rightarrow> Inr (upd b x))"

datatype token = NoFlag | BadFlag | FlagToken string "string option"

text \<open>The name and the value of \<open>-name=value\<close>; a name does not start with \<open>=\<close>.\<close>

definition split_value :: "string \<Rightarrow> string \<times> string option" where
  "split_value s =
     (case s of
        [] \<Rightarrow> ([], None)
      | c # r \<Rightarrow>
          (case dropWhile (\<lambda>x. x \<noteq> CHR ''='') r of
             [] \<Rightarrow> (s, None)
           | _ # v \<Rightarrow> (c # takeWhile (\<lambda>x. x \<noteq> CHR ''='') r, Some v)))"

definition flag_token :: "string \<Rightarrow> token" where
  "flag_token s =
     (case s of
        c # d # r \<Rightarrow>
          if c \<noteq> CHR ''-'' then NoFlag
          else if d = CHR ''-'' \<and> r = [] then NoFlag
          else let name = (if d = CHR ''-'' then r else d # r)
               in if hd name = CHR ''-'' \<or> hd name = CHR ''='' then BadFlag
                  else case split_value name of (n, v) \<Rightarrow> FlagToken n v
      | _ \<Rightarrow> NoFlag)"

datatype 'o flags = FlagsParsed 'o | FlagsHelp | FlagsError go_error

fun flag_Parse :: "(string \<Rightarrow> string) \<Rightarrow> (string \<Rightarrow> 'o go_flag option) \<Rightarrow> string list \<Rightarrow> 'o \<Rightarrow> 'o flags" where
  "flag_Parse quote fs [] x = FlagsParsed x"
| "flag_Parse quote fs (s # rest) x =
     (case flag_token s of
        NoFlag \<Rightarrow> FlagsParsed x
      | BadFlag \<Rightarrow> FlagsError (ErrMsg (''bad flag syntax: '' @ s))
      | FlagToken name val \<Rightarrow>
          (case fs name of
             None \<Rightarrow> if name = ''help'' \<or> name = ''h'' then FlagsHelp
                     else FlagsError (ErrMsg (''flag provided but not defined: -'' @ name))
           | Some (True, setter) \<Rightarrow>
               (case setter (case val of None \<Rightarrow> ''true'' | Some v \<Rightarrow> v) x of
                  Inl e \<Rightarrow> FlagsError (ErrMsg (case val of
                      None \<Rightarrow> ''invalid boolean flag '' @ name @ '': '' @ Error e
                    | Some v \<Rightarrow> ''invalid boolean value '' @ quote v @ '' for -'' @ name @ '': '' @ Error e))
                | Inr y \<Rightarrow> flag_Parse quote fs rest y)
           | Some (False, setter) \<Rightarrow>
               (case val of
                  Some v \<Rightarrow>
                    (case setter v x of
                       Inl e \<Rightarrow> FlagsError (ErrMsg (''invalid value '' @ quote v @ '' for flag -'' @ name @
                         '': '' @ Error e))
                     | Inr y \<Rightarrow> flag_Parse quote fs rest y)
                | None \<Rightarrow>
                    (case rest of
                       [] \<Rightarrow> FlagsError (ErrMsg (''flag needs an argument: -'' @ name))
                     | v # rest' \<Rightarrow>
                         (case setter v x of
                            Inl e \<Rightarrow> FlagsError (ErrMsg (''invalid value '' @ quote v @ '' for flag -'' @ name @
                              '': '' @ Error e))
                          | Inr y \<Rightarrow> flag_Parse quote fs rest' y)))))"

text \<open>A value follows its flag, or is part of it.\<close>

lemma flag_Parse_string:
  assumes "flag_token s = FlagToken name None" "fs name = Some (string_flag upd)"
  shows "flag_Parse quote fs (s # v # rest) x = flag_Parse quote fs rest (upd v x)"
  using assms by (simp add: string_flag_def)

lemma flag_Parse_unknown:
  assumes "flag_token s = FlagToken name val" "fs name = None" "name \<noteq> ''help''" "name \<noteq> ''h''"
  shows "\<exists>e. flag_Parse quote fs (s # rest) x = FlagsError e"
  using assms by simp

end
