(* ===== verification/Go_ParseFloat.thy ===== *)
theory Go_ParseFloat
  imports Go_Float Go_Flags
begin

text \<open>
  \<open>strconv.ParseFloat(s, 64)\<close>: decimal and hexadecimal literals with underscores, infinities
  and NaN in any case. The value is rounded once, to nearest with ties to even; a value that
  rounds to infinity is a range error. Go caps a written exponent above 10000 as here.
\<close>

section \<open>Rounding a quotient\<close>

text \<open>\<open>a / b\<close> as \<open>q * 2 ^ e\<close>, \<open>q\<close> rounded to at most 53 bits.\<close>

definition scale_up :: "nat \<Rightarrow> int \<Rightarrow> nat" where
  "scale_up a e = a * 2 ^ nat e"

definition quotient_exponent :: "nat \<Rightarrow> nat \<Rightarrow> int" where
  "quotient_exponent a b =
     (let e = int (bit_count a) - int (bit_count b) - 53;
          e' = (if 2 ^ 53 * scale_up b e \<le> scale_up a (- e) then e + 1 else e)
      in max e' (- 1074))"

definition round_quotient :: "bool \<Rightarrow> nat \<Rightarrow> nat \<Rightarrow> float64" where
  "round_quotient neg a b =
     (let e = quotient_exponent a b;
          q = round_half_even (scale_up a (- e)) (scale_up b e)
      in if int (bit_count q) + e > 1024 then Infinite neg
         else Finite (if neg then - int q else int q) e)"

section \<open>The syntax\<close>

definition strip_sign :: "string \<Rightarrow> bool \<times> string" where
  "strip_sign s =
     (case s of
        [] \<Rightarrow> (False, [])
      | c # r \<Rightarrow> if c = CHR ''-'' then (True, r) else if c = CHR ''+'' then (False, r) else (False, s))"

definition float_special :: "string \<Rightarrow> float64 option" where
  "float_special s =
     (if map lower s = ''nan'' then Some NotANumber
      else case strip_sign s of (neg, r) \<Rightarrow>
        if map lower r = ''inf'' \<or> map lower r = ''infinity'' then Some (Infinite neg) else None)"

definition float_digit :: "bool \<Rightarrow> char \<Rightarrow> nat option" where
  "float_digit hex c =
     (case digit_value c of None \<Rightarrow> None | Some d \<Rightarrow> if d < (if hex then 16 else 10) then Some d else None)"

text \<open>
  The digits of the mantissa: their value, how many of them follow the point, whether there
  is any, and what follows the mantissa.
\<close>

fun read_mantissa :: "bool \<Rightarrow> bool \<Rightarrow> nat \<Rightarrow> nat \<Rightarrow> bool \<Rightarrow> string \<Rightarrow> (nat \<times> nat \<times> bool) \<times> string" where
  "read_mantissa hex dot acc frac saw [] = ((acc, frac, saw), [])"
| "read_mantissa hex dot acc frac saw (c # s) =
     (if c = CHR ''_'' then read_mantissa hex dot acc frac saw s
      else if c = CHR ''.'' \<and> \<not> dot then read_mantissa hex True acc frac saw s
      else case float_digit hex c of
        None \<Rightarrow> ((acc, frac, saw), c # s)
      | Some d \<Rightarrow> read_mantissa hex dot (acc * (if hex then 16 else 10) + d) (if dot then Suc frac else frac) True s)"

fun exponent_value :: "int \<Rightarrow> string \<Rightarrow> int \<times> string" where
  "exponent_value e [] = (e, [])"
| "exponent_value e (c # s) =
     (if c = CHR ''_'' then exponent_value e s
      else if is_digit c then exponent_value (if e < 10000 then e * 10 + int (byte c - 48) else e) s
      else (e, c # s))"

definition read_exponent :: "bool \<Rightarrow> string \<Rightarrow> (int \<times> string) option" where
  "read_exponent hex s =
     (if s \<noteq> [] \<and> lower (hd s) = (if hex then CHR ''p'' else CHR ''e'') then
        (case strip_sign (tl s) of (neg, r) \<Rightarrow>
           if r = [] \<or> \<not> is_digit (hd r) then None
           else case exponent_value 0 r of (e, r') \<Rightarrow> Some (if neg then - e else e, r'))
      else if hex then None else Some (0, s))"

definition is_hex_float :: "string \<Rightarrow> bool" where
  "is_hex_float s \<longleftrightarrow> length s > 2 \<and> s ! 0 = CHR ''0'' \<and> lower (s ! 1) = CHR ''x''"

text \<open>\<open>m * base ^ e\<close>, where \<open>e\<close> counts decimal digits, or bits.\<close>

definition float_value :: "bool \<Rightarrow> nat \<Rightarrow> int \<Rightarrow> bool \<Rightarrow> float64" where
  "float_value neg m e hex =
     (if m = 0 then Finite 0 0
      else if e \<ge> 0 then round64 ((if neg then - 1 else 1) * int (m * (if hex then 2 else 10) ^ nat e)) 0
      else round_quotient neg m ((if hex then 2 else 10) ^ nat (- e)))"

definition num_error :: "(string \<Rightarrow> string) \<Rightarrow> string \<Rightarrow> string \<Rightarrow> go_error" where
  "num_error quote s why = ErrMsg (''strconv.ParseFloat: parsing '' @ quote s @ '': '' @ why)"

definition strconv_ParseFloat :: "(string \<Rightarrow> string) \<Rightarrow> string \<Rightarrow> go_error + float64" where
  "strconv_ParseFloat quote s =
     (case float_special s of
        Some f \<Rightarrow> Inr f
      | None \<Rightarrow>
          (case strip_sign s of (neg, s1) \<Rightarrow>
             let hex = is_hex_float s1 in
             case read_mantissa hex False 0 0 False (if hex then drop 2 s1 else s1) of ((m, frac, saw), s2) \<Rightarrow>
               (case read_exponent hex s2 of
                  None \<Rightarrow> Inl (num_error quote s ''invalid syntax'')
                | Some (e, s3) \<Rightarrow>
                    if \<not> saw \<or> s3 \<noteq> [] \<or> (CHR ''_'' \<in> set s \<and> \<not> underscoreOK s)
                    then Inl (num_error quote s ''invalid syntax'')
                    else case float_value neg m (e - int (if hex then 4 * frac else frac)) hex of
                      Infinite i \<Rightarrow> Inl (num_error quote s ''value out of range'')
                    | f \<Rightarrow> Inr f)))"

section \<open>Integers\<close>

text \<open>A quotient is rounded to a nearest multiple.\<close>

lemma round_half_even_nearest:
  assumes "0 < d"
  shows "2 * m \<le> 2 * (round_half_even m d * d) + d \<and> 2 * (round_half_even m d * d) \<le> 2 * m + d"
proof -
  define q r where "q = m div d" and "r = m mod d"
  have m: "m = q * d + r" by (simp add: q_def r_def)
  have "r < d" using assms by (simp add: r_def)
  moreover have "round_half_even m d = (if 2 * r > d \<or> (2 * r = d \<and> odd q) then q + 1 else q)"
    by (simp add: round_half_even_def q_def r_def Let_def)
  ultimately show ?thesis unfolding m by (auto simp: algebra_simps)
qed

lemma read_mantissa_digits:
  "list_all is_digit s \<Longrightarrow> digits_value acc s = Some v \<Longrightarrow>
    read_mantissa False False acc 0 saw s = ((v, 0, saw \<or> s \<noteq> []), [])"
proof (induction s arbitrary: acc saw)
  case (Cons c s)
  then have c: "is_digit c" by simp
  then have "float_digit False c = Some (byte c - 48)" "c \<noteq> CHR ''_''" "c \<noteq> CHR ''.''"
    by (auto simp: float_digit_def digit_value_def is_digit_def byte_def)
  then show ?case using Cons c by (simp add: mult.commute)
qed simp

lemma lower_digit: "is_digit c \<Longrightarrow> lower c = c"
  by (auto simp: lower_def ascii_lower_def is_digit_def)

lemma digits_plain:
  assumes "list_all is_digit s" "s \<noteq> []"
  shows "map lower s = s" "hd s \<notin> set ''nix+-''" "\<not> is_hex_float s" "CHR ''_'' \<notin> set s"
proof -
  show "map lower s = s" using assms(1) by (simp add: list_all_iff lower_digit map_idI)
  show "hd s \<notin> set ''nix+-''" using assms by (cases s) (auto simp: is_digit_def byte_def)
  have x: "\<not> is_digit CHR ''x''" "\<not> is_digit CHR ''_''" by code_simp+
  show "\<not> is_hex_float s"
  proof
    assume "is_hex_float s"
    then have "1 < length s" "lower (s ! 1) = CHR ''x''" by (auto simp: is_hex_float_def)
    moreover from this(1) have "is_digit (s ! 1)" using assms(1) by (simp add: list_all_length)
    ultimately show False using lower_digit x by metis
  qed
  show "CHR ''_'' \<notin> set s" using assms(1) x by (auto simp: list_all_iff)
qed

lemma strip_sign_digits:
  assumes "list_all is_digit s" "s \<noteq> []"
  shows "strip_sign s = (False, s)"
  using digits_plain(2) [OF assms] assms(2) by (cases s) (auto simp: strip_sign_def)

lemma float_special_digits:
  assumes "list_all is_digit s" "s \<noteq> []"
  shows "float_special s = None" "float_special (CHR ''-'' # s) = None"
proof -
  note p = digits_plain [OF assms]
  have ne: "s \<noteq> ''nan''" "s \<noteq> ''inf''" "s \<noteq> ''infinity''" using p(2) by auto
  show "float_special s = None"
    using ne p(1) strip_sign_digits [OF assms] by (simp add: float_special_def)
  have "lower CHR ''-'' = CHR ''-''" by code_simp
  then show "float_special (CHR ''-'' # s) = None"
    using ne p(1) by (simp add: float_special_def strip_sign_def)
qed

lemma ParseFloat_FormatInt:
  assumes "\<bar>h\<bar> < 2 ^ 53"
  shows "strconv_ParseFloat quote (strconv_FormatInt h) = Inr (Finite h 0)"
proof -
  define n where "n = nat \<bar>h\<bar>"
  define s where "s = show_nat n"
  have s: "list_all is_digit s" "s \<noteq> []" "digits_value 0 s = Some n"
    by (simp_all add: s_def show_nat_digits digits_value_show_nat)
  have mant: "read_mantissa False False 0 0 False s = ((n, 0, True), [])"
    using read_mantissa_digits [OF s(1,3)] s(2) by simp
  have exp: "read_exponent False [] = Some (0, [])" by (simp add: read_exponent_def)
  have val: "float_value neg n 0 False = Finite (if neg then - \<bar>h\<bar> else \<bar>h\<bar>) 0" for neg
    using assms round64_exact [of "\<bar>h\<bar>"] round64_exact [of "- \<bar>h\<bar>"] by (auto simp: float_value_def n_def)
  show ?thesis
  proof (cases "h < 0")
    case True
    then have f: "strconv_FormatInt h = CHR ''-'' # s" by (simp add: strconv_FormatInt_def s_def n_def)
    show ?thesis
      using True s digits_plain(3,4) [OF s(1,2)]
      unfolding strconv_ParseFloat_def f float_special_digits(2) [OF s(1,2)]
      by (simp add: strip_sign_def mant exp val Let_def)
  next
    case False
    then have f: "strconv_FormatInt h = s" by (simp add: strconv_FormatInt_def s_def n_def)
    show ?thesis
      using False s digits_plain(3,4) [OF s(1,2)]
      unfolding strconv_ParseFloat_def f float_special_digits(1) [OF s(1,2)] strip_sign_digits [OF s(1,2)]
      by (simp add: mant exp val Let_def)
  qed
qed

end
