(* ===== verification/Go_Json_Laws.thy ===== *)
theory Go_Json_Laws
  imports Go_Json_Text
begin

text \<open>
  What the reader of \<open>encoding/json\<close> makes of what its writer wrote: the value, with its
  strings in valid UTF-8. The proof follows the state machine: reading the text of a value
  with more text behind it has the effect of handing the machine the value.
\<close>

definition strings_ToValidUTF8 :: "string \<Rightarrow> string" where
  "strings_ToValidUTF8 s = concat (runes s)"

section \<open>Strings\<close>

lemma hex_value_digit: "d < 16 \<Longrightarrow> hex_value (hex_digit d) = Some d"
proof -
  have "\<forall>d\<in>set [0..<16]. hex_value (hex_digit d) = Some d" by code_simp
  then show "d < 16 \<Longrightarrow> hex_value (hex_digit d) = Some d" by simp
qed

lemma lex_string_quote [simp]: "lex_string (dquote # t) = Some ([], t)"
  by (simp add: lex_string.simps [of "dquote # t"])

lemma lex_string_Nil [simp]: "lex_string [] = None"
  by (simp add: lex_string.simps)

lemma lex_string_bslash:
  "lex_escape s = Some (d, t) \<Longrightarrow> lex_string (bslash # s) = map_option (apfst (append d)) (lex_string t)"
  by (subst lex_string.simps) simp

lemma lex_string_escapes:
  "lex_string (bslash # ''ufffd'' @ t) = map_option (apfst (append rune_error)) (lex_string t)"
  "lex_string (bslash # ''u2028'' @ t) = map_option (apfst (append [CHR 0xE2, CHR 0x80, CHR 0xA8])) (lex_string t)"
  "lex_string (bslash # ''u2029'' @ t) = map_option (apfst (append [CHR 0xE2, CHR 0x80, CHR 0xA9])) (lex_string t)"
proof -
  have *: "hex_value CHR ''f'' = Some 15" "hex_value CHR ''d'' = Some 13" "hex_value CHR ''2'' = Some 2"
    "hex_value CHR ''0'' = Some 0" "hex_value CHR ''8'' = Some 8" "hex_value CHR ''9'' = Some 9"
    "utf8_encode 65533 = rune_error" "utf8_encode 8232 = [CHR 0xE2, CHR 0x80, CHR 0xA8]"
    "utf8_encode 8233 = [CHR 0xE2, CHR 0x80, CHR 0xA9]"
    by code_simp+
  show "lex_string (bslash # ''ufffd'' @ t) = map_option (apfst (append rune_error)) (lex_string t)"
    "lex_string (bslash # ''u2028'' @ t) = map_option (apfst (append [CHR 0xE2, CHR 0x80, CHR 0xA8])) (lex_string t)"
    "lex_string (bslash # ''u2029'' @ t) = map_option (apfst (append [CHR 0xE2, CHR 0x80, CHR 0xA9])) (lex_string t)"
    by (rule lex_string_bslash, simp add: lex_u_def *)+
qed

lemma char_of_byte: "char_of (byte c) = c"
  by (simp add: byte_def)

lemma byte_eqD: "byte c = n \<Longrightarrow> c = char_of n"
  using char_of_byte by metis

lemma lex_json_byte:
  assumes "byte c < 128"
  shows "lex_string (json_byte c @ t) = map_option (apfst (append [c])) (lex_string t)"
proof -
  consider "c = dquote \<or> c = bslash" | "byte c \<in> {8, 12, 10, 13, 9}"
    | "c \<noteq> dquote" "c \<noteq> bslash" "byte c \<notin> {8, 12, 10, 13, 9}" "byte c < 32 \<or> c = CHR ''<'' \<or> c = CHR ''>'' \<or> c = CHR ''&''"
    | "c \<noteq> dquote" "c \<noteq> bslash" "\<not> byte c < 32" "c \<noteq> CHR ''<''" "c \<noteq> CHR ''>''" "c \<noteq> CHR ''&''"
    by blast
  then show ?thesis
  proof cases
    case 1
    then show ?thesis
      by (auto simp: json_byte_def byte_def intro!: lex_string_bslash)
  next
    case 2
    then have "c = char_of (8::nat) \<or> c = char_of (12::nat) \<or> c = char_of (10::nat) \<or> c = char_of (13::nat)
        \<or> c = char_of (9::nat)" using byte_eqD [of c] by blast
    moreover have "char_of (8::nat) = CHR 0x08" "char_of (12::nat) = CHR 0x0C" "char_of (10::nat) = CHR 0x0A"
      "char_of (13::nat) = CHR 0x0D" "char_of (9::nat) = CHR 0x09" by code_simp+
    ultimately have c: "c \<in> set [CHR 0x08, CHR 0x0C, CHR 0x0A, CHR 0x0D, CHR 0x09]"
      by (simp only: list.set insert_iff) blast
    have "\<forall>c\<in>set [CHR 0x08, CHR 0x0C, CHR 0x0A, CHR 0x0D, CHR 0x09].
        json_byte c = [bslash, json_byte c ! 1] \<and> lex_escape [json_byte c ! 1] = Some ([c], [])
        \<and> json_byte c ! 1 \<noteq> CHR ''u''" by code_simp
    then obtain e where e: "json_byte c = [bslash, e]" "lex_escape [e] = Some ([c], [])" "e \<noteq> CHR ''u''"
      using c by blast
    have "lex_escape (e # t) = Some ([c], t)" using e(2,3) by (auto split: if_splits)
    then show ?thesis using e(1) by (simp add: lex_string_bslash)
  next
    case 3
    have "byte c div 16 < 16" "byte c mod 16 < 16" using assms by auto
    then have hex: "hex_value (hex_digit (byte c div 16)) = Some (byte c div 16)"
      "hex_value (hex_digit (byte c mod 16)) = Some (byte c mod 16)" by (simp_all add: hex_value_digit)
    have zero: "hex_value CHR ''0'' = Some 0" by code_simp
    have "lex_escape (''u00'' @ hex_digit (byte c div 16) # hex_digit (byte c mod 16) # t) = Some ([c], t)"
      using assms by (simp add: lex_u_def zero hex utf8_encode_def char_of_byte)
    from lex_string_bslash [OF this] show ?thesis
      using 3 by (simp add: json_byte_def)
  next
    case 4
    then show ?thesis
      using assms by (subst lex_string.simps) (auto simp: json_byte_def byte_def)
  qed
qed

lemma rune_size_1: "rune_size s = Suc 0 \<Longrightarrow> s \<noteq> [] \<and> byte (hd s) < 128"
  by (cases s) (auto split: if_splits list.splits)

lemma rune_size_multi: "rune_size s = Suc (Suc n) \<Longrightarrow> s \<noteq> [] \<and> 128 \<le> byte (hd s)"
  by (cases s) (auto split: if_splits list.splits)

lemma lex_json_rune:
  assumes "rune_size s = Suc n"
  shows "lex_string (json_rune (take (Suc n) s) @ t) =
    map_option (apfst (append (take (Suc n) s))) (lex_string t)"
proof (cases n)
  case 0
  then have "s \<noteq> []" "byte (hd s) < 128" using rune_size_1 assms by auto
  then show ?thesis
    using 0 by (auto simp: json_rune_def neq_Nil_conv lex_json_byte)
next
  case (Suc k)
  define r where "r = take (Suc n) s"
  have s: "s \<noteq> []" "128 \<le> byte (hd s)" using rune_size_multi assms Suc by auto
  have len: "length r = Suc n" using rune_size_le [of s] assms by (simp add: r_def)
  have "lex_string (r @ t) = map_option (apfst (append r)) (lex_string t)"
  proof -
    have "hd (r @ t) = hd s" using s(1) by (cases s) (auto simp: r_def)
    moreover have "hd s \<noteq> dquote" "hd s \<noteq> bslash" using s(2) by (auto simp: byte_def)
    moreover have "r @ t \<noteq> []" using s(1) by (auto simp: r_def)
    moreover have "take (Suc n) (r @ t) = r" "drop (Suc n) (r @ t) = t" using len by auto
    moreover have "rune_size (r @ t) = Suc n" unfolding r_def by (rule rune_size_take [OF assms])
    ultimately show ?thesis using s(2) by (subst lex_string.simps) simp
  qed
  then show ?thesis
    using len Suc unfolding r_def [symmetric] by (auto simp: json_rune_def lex_string_escapes [simplified])
qed

lemma lex_json_escape: "lex_string (json_escape s @ dquote # t) = Some (strings_ToValidUTF8 s, t)"
proof (induction s rule: json_escape.induct)
  case (1 s)
  consider "s = []" | "s \<noteq> []" "rune_size s = 0" | k where "s \<noteq> []" "rune_size s = Suc k"
    by (cases "rune_size s") auto
  then show ?case
  proof cases
    case 1
    then show ?thesis by (simp add: json_escape.simps strings_ToValidUTF8_def)
  next
    case 2
    then show ?thesis
      using "1.IH"(1) lex_string_escapes(1) [of "json_escape (tl s) @ dquote # t"]
      by (simp add: json_escape.simps [of s] runes.simps [of s] strings_ToValidUTF8_def)
  next
    case (3 k)
    then have "lex_string (json_escape (drop (Suc k) s) @ dquote # t) =
        Some (strings_ToValidUTF8 (drop (Suc k) s), t)" using "1.IH"(2) by simp
    then show ?thesis
      using 3 by (simp add: json_escape.simps [of s] runes.simps [of s] strings_ToValidUTF8_def
          lex_json_rune del: take_Suc drop_Suc)
  qed
qed

section \<open>Numbers\<close>

definition is_numeral :: "string \<Rightarrow> bool" where
  "is_numeral n \<longleftrightarrow> lex_number n = Some (n, [])"

text \<open>What may follow a value: nothing that continues a number.\<close>

definition json_delim :: "string \<Rightarrow> bool" where
  "json_delim s \<longleftrightarrow> s = [] \<or> \<not> is_digit (hd s) \<and> hd s \<notin> set ''.eE''"

lemma takeWhile_delim: "json_delim t \<Longrightarrow> takeWhile is_digit (s @ t) = takeWhile is_digit s"
  by (cases t; induction s) (auto simp: json_delim_def)

lemma dropWhile_delim: "json_delim t \<Longrightarrow> dropWhile is_digit (s @ t) = dropWhile is_digit s @ t"
  by (cases t; induction s) (auto simp: json_delim_def)

lemma lex_int_append: "lex_int s = Some (i, r) \<Longrightarrow> json_delim t \<Longrightarrow> lex_int (s @ t) = Some (i, r @ t)"
  by (cases s) (auto simp: takeWhile_delim dropWhile_delim split: if_splits)

lemma lex_frac_append: "lex_frac s = Some (f, r) \<Longrightarrow> json_delim t \<Longrightarrow> lex_frac (s @ t) = Some (f, r @ t)"
  by (cases s; cases t) (auto simp: takeWhile_delim dropWhile_delim json_delim_def split: if_splits)

lemma lex_exp_append:
  assumes "lex_exp s = Some (e, r)" "json_delim t"
  shows "lex_exp (s @ t) = Some (e, r @ t)"
proof (cases s)
  case Nil
  then show ?thesis using assms by (cases t) (auto simp: json_delim_def)
next
  case (Cons c s')
  show ?thesis
  proof (cases "c = CHR ''e'' \<or> c = CHR ''E''")
    case True
    then have ne: "s' \<noteq> []" using assms(1) Cons by (auto simp: Let_def)
    then have "sign_of (s' @ t) = sign_of s'" by (cases s') (simp_all add: sign_of_def)
    moreover have "length (sign_of s') \<le> length s'"
      using ne by (cases s') (simp_all add: sign_of_def)
    then have "drop (length (sign_of s')) (s' @ t) = drop (length (sign_of s')) s' @ t" by simp
    ultimately show ?thesis
      using assms True Cons by (auto simp: Let_def takeWhile_delim dropWhile_delim split: if_splits)
  qed (use assms Cons in auto)
qed

lemma lex_number_append:
  assumes "is_numeral n" "json_delim t"
  shows "lex_number (n @ t) = Some (n, t)"
proof -
  have ne: "n \<noteq> []" using assms(1) by (auto simp: is_numeral_def lex_number_def minus_of_def)
  then have m: "minus_of (n @ t) = minus_of n" by (cases n) (simp_all add: minus_of_def)
  have "length (minus_of n) \<le> length n" using ne by (cases n) (simp_all add: minus_of_def)
  then have d: "drop (length (minus_of n)) (n @ t) = drop (length (minus_of n)) n @ t" by simp
  from assms(1) obtain i r f r' e where
    parts: "lex_int (drop (length (minus_of n)) n) = Some (i, r)" "lex_frac r = Some (f, r')"
      "lex_exp r' = Some (e, [])" "n = minus_of n @ i @ f @ e"
    by (auto simp: is_numeral_def lex_number_def split: option.splits)
  show ?thesis
    using lex_int_append [OF parts(1) assms(2)] lex_frac_append [OF parts(2) assms(2)]
      lex_exp_append [OF parts(3) assms(2)] parts(4) [symmetric]
    by (simp add: lex_number_def m d del: drop_append)
qed

lemma numeral_hd:
  assumes "is_numeral n"
  shows "n \<noteq> [] \<and> (is_digit (hd n) \<or> hd n = CHR ''-'')"
proof (cases n)
  case Nil
  then show ?thesis using assms by (simp add: is_numeral_def lex_number_def minus_of_def)
next
  case (Cons c s)
  have "is_digit CHR ''0''" by code_simp
  then show ?thesis
    using assms Cons by (auto simp: is_numeral_def lex_number_def minus_of_def split: if_splits)
qed

lemma show_nat_lead: "\<not> k < 10 \<Longrightarrow> \<exists>c s. show_nat k = c # s \<and> c \<noteq> CHR ''0''"
proof (induction k rule: show_nat.induct)
  case (1 k)
  show ?case
  proof (cases "k div 10 < 10")
    case True
    then have eq: "show_nat k = [digit_char (k div 10), digit_char (k mod 10)]"
      using "1.prems" by (subst show_nat.simps, subst show_nat.simps) simp
    have "byte (digit_char (k div 10)) \<noteq> 48" using True "1.prems" by simp
    then have "digit_char (k div 10) \<noteq> CHR ''0''" by (auto simp: byte_def)
    then show ?thesis using eq by simp
  next
    case False
    then have "\<exists>c s. show_nat (k div 10) = c # s \<and> c \<noteq> CHR ''0''" using "1.IH" "1.prems" by blast
    then show ?thesis using "1.prems" by (subst show_nat.simps) auto
  qed
qed

lemma FormatInt_numeral: "is_numeral (strconv_FormatInt n)"
proof -
  have digits: "lex_number (show_nat k) = Some (show_nat k, [])"
    "lex_number (CHR ''-'' # show_nat k) = Some (CHR ''-'' # show_nat k, [])" for k
  proof -
    have int: "lex_int (show_nat k) = Some (show_nat k, [])"
    proof (cases "k < 10")
      case True
      then show ?thesis by (subst (1 2) show_nat.simps) auto
    next
      case False
      then obtain c s where cs: "show_nat k = c # s" "c \<noteq> CHR ''0''" using show_nat_lead by blast
      have "list_all is_digit (c # s)" using show_nat_digits [of k] cs(1) by simp
      then have "takeWhile is_digit s = s" "dropWhile is_digit s = []" "is_digit c"
        by (auto simp: list_all_iff takeWhile_eq_all_conv)
      then show ?thesis using cs by simp
    qed
    have "is_digit (hd (show_nat k))" by (rule hd_show_nat)
    then have "hd (show_nat k) \<noteq> CHR ''-''" by (auto simp: is_digit_def byte_def)
    then have "minus_of (show_nat k) = []" by (cases "show_nat k") (simp_all add: minus_of_def)
    then show "lex_number (show_nat k) = Some (show_nat k, [])"
      by (simp add: lex_number_def int)
    have "minus_of (CHR ''-'' # show_nat k) = ''-''" by (simp add: minus_of_def)
    then show "lex_number (CHR ''-'' # show_nat k) = Some (CHR ''-'' # show_nat k, [])"
      by (simp add: lex_number_def int)
  qed
  then show ?thesis by (simp add: strconv_FormatInt_def is_numeral_def)
qed

section \<open>Values\<close>

fun json_printable :: "json \<Rightarrow> bool" where
  "json_printable (JNum n) = is_numeral n"
| "json_printable (JArr xs) = (\<forall>x\<in>set xs. json_printable x)"
| "json_printable (JObj kvs) = (\<forall>kv\<in>set kvs. json_printable (snd kv))"
| "json_printable _ = True"

fun json_fits :: "nat \<Rightarrow> json \<Rightarrow> bool" where
  "json_fits d (JArr xs) = (d > 0 \<and> (\<forall>x\<in>set xs. json_fits (d - 1) x))"
| "json_fits d (JObj kvs) = (d > 0 \<and> (\<forall>kv\<in>set kvs. json_fits (d - 1) (snd kv)))"
| "json_fits d _ = True"

fun json_clean :: "json \<Rightarrow> json" where
  "json_clean (JStr s) = JStr (strings_ToValidUTF8 s)"
| "json_clean (JArr xs) = JArr (map json_clean xs)"
| "json_clean (JObj kvs) = JObj (map (\<lambda>kv. (strings_ToValidUTF8 (fst kv), json_clean (snd kv))) kvs)"
| "json_clean j = j"

definition json_after :: "json_machine option \<Rightarrow> string \<Rightarrow> (json \<times> string) option" where
  "json_after x s =
     (case x of None \<Rightarrow> None | Some (Finished v) \<Rightarrow> Some (v, s) | Some (Reading m st) \<Rightarrow> json_run m st s)"

lemma json_run_token:
  assumes "next_token s = Some (t, r)" "\<not> is_json_space (hd s)"
  shows "json_run m st s = json_after (json_step m t st) r"
proof -
  have "s \<noteq> []" using assms(1) by (auto simp: next_token_def)
  then have "dropWhile is_json_space s = s" using assms(2) by (cases s) auto
  then show ?thesis using assms(1) by (subst json_run.simps) (simp add: json_after_def)
qed

lemma json_run_punct:
  assumes "c \<in> set ''{}[],:''"
  shows "json_run m st (c # s) = json_after (json_step m (TPunct c) st) s"
proof (rule json_run_token)
  show "next_token (c # s) = Some (TPunct c, s)" using assms by (simp add: next_token_def)
  show "\<not> is_json_space (hd (c # s))" using assms by (auto simp: is_json_space_def byte_def)
qed

lemma json_run_string:
  "json_run m st (json_quote s @ t) = json_after (json_step m (TVal (JStr (strings_ToValidUTF8 s))) st) t"
proof (rule json_run_token)
  show "next_token (json_quote s @ t) = Some (TVal (JStr (strings_ToValidUTF8 s)), t)"
    using lex_json_escape [of s t] by (simp add: next_token_def json_quote_def)
  show "\<not> is_json_space (hd (json_quote s @ t))" by (simp add: json_quote_def is_json_space_def byte_def)
qed

lemma json_run_number:
  assumes "is_numeral n" "json_delim t"
  shows "json_run m st (n @ t) = json_after (json_step m (TVal (JNum n)) st) t"
proof (rule json_run_token)
  have hd: "n \<noteq> []" "is_digit (hd n) \<or> hd n = CHR ''-''" using numeral_hd [OF assms(1)] by auto
  then have not: "hd n \<notin> set ''{}[],:ntf''" "hd n \<noteq> dquote"
    by (auto simp: is_digit_def byte_def)
  then have "take 4 (n @ t) \<noteq> ''null''" "take 4 (n @ t) \<noteq> ''true''" "take 5 (n @ t) \<noteq> ''false''"
    using hd(1) by (cases n; auto)+
  then show "next_token (n @ t) = Some (TVal (JNum n), t)"
    using hd(1) not lex_number_append [OF assms] by (simp add: next_token_def)
  show "\<not> is_json_space (hd (n @ t))"
    using hd by (auto simp: is_json_space_def is_digit_def byte_def)
qed

lemma json_run_literal:
  "json_run m st (''null'' @ t) = json_after (json_step m (TVal JNull) st) t"
  "json_run m st (''true'' @ t) = json_after (json_step m (TVal (JBool True)) st) t"
  "json_run m st (''false'' @ t) = json_after (json_step m (TVal (JBool False)) st) t"
  by (rule json_run_token; simp add: next_token_def is_json_space_def byte_def)+

text \<open>Elements and members, once the machine reads each of the values.\<close>

definition reads_value :: "nat \<Rightarrow> string \<Rightarrow> json \<Rightarrow> bool" where
  "reads_value d s v \<longleftrightarrow>
     (\<forall>m st t. m \<in> {WantValue, WantElem} \<longrightarrow> length st + d \<le> maxNestingDepth \<longrightarrow> json_delim t \<longrightarrow>
        json_run m st (s @ t) = json_after (json_give v st) t)"

lemma delim_punct: "c \<in> set '',]}'' \<Longrightarrow> json_delim (c # t)"
  by (auto simp: json_delim_def is_digit_def byte_def)

lemma json_run_elements:
  assumes "list_all2 (reads_value d) ss vs" "ss \<noteq> []" "m \<in> {WantValue, WantElem}"
    and "length st + Suc d \<le> maxNestingDepth"
  shows "json_run m (FArr acc # st) (strings_Join ss '','' @ '']'' @ t) =
    json_after (json_give (JArr (acc @ vs)) st) t"
  using assms
proof (induction ss vs arbitrary: acc m rule: list_all2_induct)
  case (Cons s ss v vs)
  have step: "json_run m (FArr acc # st) (s @ u) = json_run WantEnd (FArr (acc @ [v]) # st) u"
    if "json_delim u" for u
    using Cons.hyps(1) Cons.prems that by (auto simp: reads_value_def json_after_def)
  show ?case
  proof (cases ss)
    case Nil
    then have "vs = []" using Cons.hyps(2) by simp
    then show ?thesis
      using step [of "'']'' @ t"] Nil by (simp add: delim_punct json_run_punct)
  next
    case (Cons s' ss')
    have "json_run WantValue (FArr (acc @ [v]) # st) (strings_Join ss '','' @ '']'' @ t) =
        json_after (json_give (JArr ((acc @ [v]) @ vs)) st) t"
      by (rule Cons.IH) (use Cons Cons.prems in auto)
    then show ?thesis
      using step [of "'','' @ strings_Join ss '','' @ '']'' @ t"] Cons
      by (simp add: delim_punct json_run_punct json_after_def [of "Some (Reading _ _)"])
  qed
qed simp

lemma json_run_members:
  assumes "\<forall>kv\<in>set kvs. reads_value d (f (snd kv)) (g (snd kv))" "kvs \<noteq> []" "m \<in> {WantKey, WantFirstKey}"
    and "length st + Suc d \<le> maxNestingDepth"
  shows "json_run m (FObj acc # st)
      (strings_Join (map (\<lambda>kv. json_quote (fst kv) @ '':'' @ f (snd kv)) kvs) '','' @ ''}'' @ t) =
    json_after (json_give (JObj (acc @ map (\<lambda>kv. (strings_ToValidUTF8 (fst kv), g (snd kv))) kvs)) st) t"
  using assms
proof (induction kvs arbitrary: acc m)
  case (Cons kv kvs)
  let ?member = "\<lambda>kv. json_quote (fst kv) @ '':'' @ f (snd kv)"
  let ?acc = "acc @ [(strings_ToValidUTF8 (fst kv), g (snd kv))]"
  have step: "json_run m (FObj acc # st) (?member kv @ u) = json_run WantEnd (FObj ?acc # st) u"
    if "json_delim u" for u
  proof -
    have "json_run m (FObj acc # st) (?member kv @ u) =
        json_run WantValue (FMember acc (strings_ToValidUTF8 (fst kv)) # st) (f (snd kv) @ u)"
      using Cons.prems(3) by (auto simp: json_run_string json_run_punct json_after_def)
    then show ?thesis
      using Cons.prems(1,4) that by (simp add: reads_value_def json_after_def)
  qed
  show ?case
  proof (cases kvs)
    case Nil
    then show ?thesis
      using step [of "''}'' @ t"] by (simp add: delim_punct json_run_punct)
  next
    case (Cons kv' kvs')
    have "json_run WantKey (FObj ?acc # st) (strings_Join (map ?member kvs) '','' @ ''}'' @ t) =
        json_after (json_give (JObj (?acc @ map (\<lambda>kv. (strings_ToValidUTF8 (fst kv), g (snd kv))) kvs)) st) t"
      by (rule Cons.IH) (use Cons Cons.prems in auto)
    then show ?thesis
      using step [of "'','' @ strings_Join (map ?member kvs) '','' @ ''}'' @ t"] Cons
      by (simp add: delim_punct json_run_punct json_after_def [of "Some (Reading _ _)"])
  qed
qed simp

lemma json_run_open:
  assumes "m \<in> {WantValue, WantElem}" "length st < maxNestingDepth"
  shows "json_run m st (''['' @ s) = json_run WantElem (FArr [] # st) s"
    "json_run m st (''{'' @ s) = json_run WantFirstKey (FObj [] # st) s"
  using assms by (auto simp: json_run_punct json_value_def json_open_def json_after_def)

lemma json_reads: "json_printable j \<Longrightarrow> json_fits d j \<Longrightarrow> reads_value d (json_Marshal j) (json_clean j)"
proof (induction d j rule: json_fits.induct)
  case (1 d xs)
  show ?case
    unfolding reads_value_def
  proof (intro allI impI)
    fix m and st :: "json_frame list" and t
    assume m: "m \<in> {WantValue, WantElem}" "length st + d \<le> maxNestingDepth"
    have d: "d = Suc (d - 1)" using "1.prems" by simp
    have opened: "json_run m st (json_Marshal (JArr xs) @ t) =
        json_run WantElem (FArr [] # st) (strings_Join (map json_Marshal xs) '','' @ '']'' @ t)"
      using json_run_open(1) [OF m(1), of st "strings_Join (map json_Marshal xs) '','' @ '']'' @ t"] m(2) d by simp
    show "json_run m st (json_Marshal (JArr xs) @ t) = json_after (json_give (json_clean (JArr xs)) st) t"
    proof (cases "xs = []")
      case True
      then show ?thesis unfolding opened by (simp add: json_run_punct)
    next
      case False
      have "list_all2 (reads_value (d - 1)) (map json_Marshal xs) (map json_clean xs)"
        using "1.IH" "1.prems" by (auto simp: list_all2_conv_all_nth)
      from json_run_elements [OF this, of WantElem st "[]" t] show ?thesis
        unfolding opened using False m(2) d by simp
    qed
  qed
next
  case (2 d kvs)
  show ?case
    unfolding reads_value_def
  proof (intro allI impI)
    fix m and st :: "json_frame list" and t
    assume m: "m \<in> {WantValue, WantElem}" "length st + d \<le> maxNestingDepth"
    have d: "d = Suc (d - 1)" using "2.prems" by simp
    let ?ms = "strings_Join (map (\<lambda>kv. json_quote (fst kv) @ '':'' @ json_Marshal (snd kv)) kvs) '',''"
    have opened: "json_run m st (json_Marshal (JObj kvs) @ t) =
        json_run WantFirstKey (FObj [] # st) (?ms @ ''}'' @ t)"
      using json_run_open(2) [OF m(1), of st "?ms @ ''}'' @ t"] m(2) d by simp
    show "json_run m st (json_Marshal (JObj kvs) @ t) = json_after (json_give (json_clean (JObj kvs)) st) t"
    proof (cases "kvs = []")
      case True
      then show ?thesis unfolding opened by (simp add: json_run_punct)
    next
      case False
      have "\<forall>kv\<in>set kvs. reads_value (d - 1) (json_Marshal (snd kv)) (json_clean (snd kv))"
        using "2.IH" "2.prems" by (auto simp: prod.collapse)
      from json_run_members [OF this, of WantFirstKey st "[]" t] show ?thesis
        unfolding opened using False m(2) d by simp
    qed
  qed
qed (use json_run_literal in \<open>auto simp: reads_value_def json_value_def json_run_number json_run_string\<close>)

lemma json_run_Marshal:
  assumes "json_printable j" "json_fits maxNestingDepth j" "json_delim t"
  shows "json_run WantValue [] (json_Marshal j @ t) = Some (json_clean j, t)"
  using json_reads [OF assms(1,2)] assms(3) by (simp add: reads_value_def json_after_def)

lemma json_Unmarshal_Marshal:
  assumes "json_printable j" "json_fits maxNestingDepth j" "list_all is_json_space t"
  shows "json_Unmarshal (json_Marshal j @ t) = Some (json_clean j)"
proof -
  have "json_delim t"
    using assms(3) by (cases t) (auto simp: json_delim_def is_json_space_def is_digit_def byte_def)
  then show ?thesis using json_run_Marshal [OF assms(1,2)] assms(3) by (simp add: json_Unmarshal_def)
qed

section \<open>Valid UTF-8\<close>

lemma ToValidUTF8_Nil [simp]: "strings_ToValidUTF8 [] = []"
  by (simp add: strings_ToValidUTF8_def)

lemma ToValidUTF8_idem [simp]: "strings_ToValidUTF8 (strings_ToValidUTF8 s) = strings_ToValidUTF8 s"
  using runes_encode [of "length (runes s)" s] by (simp add: strings_ToValidUTF8_def)

lemma ToValidUTF8_not_ascii:
  "strings_ToValidUTF8 s = s \<or> (\<exists>c\<in>set (strings_ToValidUTF8 s). 128 \<le> byte c)"
proof (induction s rule: runes.induct)
  case (1 s)
  consider "s = []" | "s \<noteq> []" "rune_size s = 0" | k where "s \<noteq> []" "rune_size s = Suc k"
    by (cases "rune_size s") auto
  then show ?case
  proof cases
    case 2
    then show ?thesis by (simp add: strings_ToValidUTF8_def runes.simps [of s] rune_error_def byte_def)
  next
    case (3 k)
    then have "strings_ToValidUTF8 s = take (Suc k) s @ strings_ToValidUTF8 (drop (Suc k) s)"
      by (simp add: strings_ToValidUTF8_def runes.simps [of s])
    moreover have "strings_ToValidUTF8 (drop (Suc k) s) = drop (Suc k) s \<or>
        (\<exists>c\<in>set (strings_ToValidUTF8 (drop (Suc k) s)). 128 \<le> byte c)"
      using "1.IH"(2) 3 by simp
    ultimately show ?thesis by (metis UnCI append_take_drop_id set_append)
  qed simp
qed

lemma ToValidUTF8_ascii: "is_ascii s \<Longrightarrow> strings_ToValidUTF8 s = s"
proof (induction s)
  case (Cons a s)
  then have "rune_size (a # s) = 1" by (simp add: is_ascii_def)
  then show ?case using Cons by (simp add: strings_ToValidUTF8_def runes_Cons is_ascii_def)
qed simp

text \<open>Comparing with an ASCII constant does not see the replacement.\<close>

lemma ToValidUTF8_eq_ascii: "is_ascii t \<Longrightarrow> strings_ToValidUTF8 s = t \<longleftrightarrow> s = t"
  using ToValidUTF8_not_ascii [of s] ToValidUTF8_ascii [of t] by (auto simp: is_ascii_def list_all_iff)

lemma ToValidUTF8_eq_Nil [simp]: "strings_ToValidUTF8 s = [] \<longleftrightarrow> s = []"
  using ToValidUTF8_eq_ascii [of "[]" s] by (simp add: is_ascii_def)

section \<open>One line per value\<close>

definition printed :: "string \<Rightarrow> bool" where
  "printed s \<longleftrightarrow> (\<forall>c\<in>set s. 32 \<le> byte c)"

lemma printed_append [simp]: "printed (s @ t) \<longleftrightarrow> printed s \<and> printed t"
  by (auto simp: printed_def)

lemma printed_Nil [simp]: "printed []"
  by (simp add: printed_def)

lemma printed_Cons [simp]: "printed (c # s) \<longleftrightarrow> 32 \<le> byte c \<and> printed s"
  by (simp add: printed_def)

lemma printed_Join: "\<forall>s\<in>set ss. printed s \<Longrightarrow> printed sep \<Longrightarrow> printed (strings_Join ss sep)"
  by (induction ss sep rule: strings_Join.induct) auto

lemma rune_bytes:
  assumes "rune_size s = Suc (Suc n)"
  shows "\<forall>c\<in>set (take (Suc (Suc n)) s). 128 \<le> byte c"
proof -
  have second: "second_ok a b \<Longrightarrow> 128 \<le> byte b" for a b
    by (auto simp: second_ok_def is_cont_def split: if_splits)
  show ?thesis
    using assms by (cases s) (auto simp: is_cont_def split: if_splits list.splits dest: second)
qed

lemma hex_digit_printed: "d < 16 \<Longrightarrow> 32 \<le> byte (hex_digit d)"
  by (auto simp: hex_digit_def byte_char_of)

lemma json_escape_printed: "printed (json_escape s)"
proof (induction s rule: json_escape.induct)
  case (1 s)
  consider "s = []" | "s \<noteq> []" "rune_size s = 0" | "s \<noteq> []" "rune_size s = Suc 0"
    | n where "s \<noteq> []" "rune_size s = Suc (Suc n)"
    by (cases "rune_size s"; cases "rune_size s - 1") auto
  then show ?case
  proof cases
    case 2
    then show ?thesis using "1.IH"(1) by (simp add: json_escape.simps [of s] byte_def)
  next
    case 3
    have hex: "32 \<le> byte (hex_digit (byte (hd s) mod 16))" "32 \<le> byte (hex_digit (byte (hd s) div 16))"
      using rune_size_1 [OF 3(2)] by (auto intro!: hex_digit_printed)
    have "printed (json_byte (hd s))"
      using hex by (simp add: json_byte_def) (auto simp: byte_def)
    moreover have "json_rune (take (Suc 0) s) = json_byte (hd s)"
      using 3(1) by (auto simp: json_rune_def neq_Nil_conv)
    ultimately show ?thesis
      using 3 "1.IH"(2) by (simp add: json_escape.simps [of s] del: rune_size.simps)
  next
    case (4 n)
    have "printed (take (Suc (Suc n)) s)"
      using rune_bytes [OF 4(2)] by (force simp: printed_def)
    moreover have "length (take (Suc (Suc n)) s) \<noteq> 1" using rune_size_le [of s] 4(2) by simp
    ultimately have "printed (json_rune (take (Suc (Suc n)) s))"
      by (simp add: json_rune_def byte_def del: take_Suc)
    then show ?thesis
      using 4 "1.IH"(2) by (simp add: json_escape.simps [of s])
  qed (simp add: json_escape.simps)
qed

lemma set_lex_digits: "c \<in> set (takeWhile is_digit s) \<Longrightarrow> 32 \<le> byte c"
  by (auto simp: is_digit_def dest: set_takeWhileD)

lemma numeral_printed:
  assumes "is_numeral n"
  shows "printed n"
proof -
  from assms obtain i r f r' e where
    parts: "lex_int (drop (length (minus_of n)) n) = Some (i, r)" "lex_frac r = Some (f, r')"
      "lex_exp r' = Some (e, [])" "n = minus_of n @ i @ f @ e"
    by (auto simp: is_numeral_def lex_number_def split: option.splits)
  have digit: "is_digit c \<Longrightarrow> 32 \<le> byte c" for c by (simp add: is_digit_def)
  have "printed (minus_of n)" "printed (sign_of s)" for s
    by (auto simp: printed_def minus_of_def sign_of_def byte_def dest!: set_takeWhileD)
  moreover have tw: "printed (takeWhile is_digit s)" for s by (auto simp: printed_def dest: set_lex_digits)
  moreover have "printed i"
    using parts(1) tw by (cases "drop (length (minus_of n)) n") (auto split: if_splits simp: byte_def dest: digit)
  moreover have "printed f"
    using parts(2) tw by (cases r) (auto split: if_splits simp: byte_def)
  moreover have "printed e"
    using parts(3) tw calculation(2) by (cases r') (auto simp: Let_def byte_def split: if_splits)
  ultimately show ?thesis using parts(4) by (metis printed_append)
qed

lemma json_Marshal_printed: "json_printable j \<Longrightarrow> printed (json_Marshal j)"
proof (induction j rule: json_Marshal.induct)
  case (6 kvs)
  then show ?case
    by (auto intro!: printed_Join simp: json_quote_def json_escape_printed byte_def)
qed (auto intro!: printed_Join simp: json_quote_def json_escape_printed numeral_printed byte_def)

lemma printed_line:
  assumes "printed s"
  shows "newline \<notin> set s \<and> drop_cr s = s"
proof -
  have "\<not> 32 \<le> byte newline" "\<not> 32 \<le> byte CHR 0x0D" by code_simp+
  then show ?thesis using assms last_in_set [of s] unfolding printed_def drop_cr_def by metis
qed

lemma json_Decode_Encode:
  assumes "json_printable j" "json_fits maxNestingDepth j"
  shows "json_Decode (json_Encode j) eof = Some (json_clean j)"
proof -
  have "json_delim [newline]" by code_simp
  then show ?thesis
    using json_run_Marshal [OF assms, of "[newline]"]
    by (simp add: json_Decode_def json_Encode_def split: json.splits)
qed

end
