(* ===== verification/Health.thy ===== *)
theory Health
  imports Go_Strings
begin

text \<open>
  \<open>internal/health/health.go\<close>: the status snapshot behind \<open>health.json\<close>. Instants are
  nanoseconds. \<open>Write\<close> prunes the record of media failures to the last five minutes and
  replaces the snapshot file by writing a temporary file and renaming it.
\<close>

record status =
  st_Connected :: bool
  st_LoggedIn :: bool
  st_LastMessageAt :: int64
  st_QueueDepth :: int
  st_IPCListening :: bool
  st_mediaFailures :: "int list"

definition NewStatus :: status where
  "NewStatus = \<lparr>st_Connected = False, st_LoggedIn = False, st_LastMessageAt = 0,
     st_QueueDepth = 0, st_IPCListening = False, st_mediaFailures = []\<rparr>"

definition SetConnected :: "bool \<Rightarrow> status \<Rightarrow> status" where
  "SetConnected v s =
     (let s' = s\<lparr>st_Connected := v\<rparr> in if \<not> v then s'\<lparr>st_LoggedIn := False\<rparr> else s')"

definition SetConnection :: "bool \<Rightarrow> bool \<Rightarrow> status \<Rightarrow> status" where
  "SetConnection connected loggedIn s = s\<lparr>st_Connected := connected, st_LoggedIn := loggedIn\<rparr>"

definition SetQueueDepth :: "int \<Rightarrow> status \<Rightarrow> status" where
  "SetQueueDepth n s = s\<lparr>st_QueueDepth := n\<rparr>"

definition SetIPCListening :: "bool \<Rightarrow> status \<Rightarrow> status" where
  "SetIPCListening v s = s\<lparr>st_IPCListening := v\<rparr>"

definition MessageAt :: "int \<Rightarrow> status \<Rightarrow> status" where
  "MessageAt t s = s\<lparr>st_LastMessageAt := t div 1000000000\<rparr>"

definition MediaFailure :: "int \<Rightarrow> status \<Rightarrow> status" where
  "MediaFailure t s = s\<lparr>st_mediaFailures := st_mediaFailures s @ [t]\<rparr>"

definition pruneLocked :: "int \<Rightarrow> status \<Rightarrow> status" where
  "pruneLocked cutoff s = s\<lparr>st_mediaFailures := filter (\<lambda>t. t > cutoff) (st_mediaFailures s)\<rparr>"

record snapshot =
  sn_last_message_at :: int64
  sn_connected :: bool
  sn_logged_in :: bool
  sn_queue_depth :: int
  sn_ipc_listening :: bool
  sn_media_failures_5m :: nat
  sn_updated_at :: int64

definition five_minutes :: int where
  "five_minutes = 5 * 60 * 1000000000"

text \<open>
  The file operations of \<open>Write\<close> in order, with the first error if there is one. The
  snapshot reaches \<open>health.json\<close> only by the final rename.
\<close>

record health_io =
  hio_mkdir :: "go_error option"
  hio_write :: "go_error option"
  hio_rename :: "go_error option"

definition health_error :: "health_io \<Rightarrow> go_error option" where
  "health_error io =
     (case hio_mkdir io of Some e \<Rightarrow> Some e
      | None \<Rightarrow> (case hio_write io of Some e \<Rightarrow> Some e | None \<Rightarrow> hio_rename io))"

definition Status_Write ::
  "int \<Rightarrow> int \<Rightarrow> health_io \<Rightarrow> status \<times> snapshot option \<Rightarrow> go_error option \<times> status \<times> snapshot option"
where
  "Status_Write now now2 io sf =
     (let s = pruneLocked (now - five_minutes) (fst sf);
          body = \<lparr>sn_last_message_at = st_LastMessageAt s, sn_connected = st_Connected s,
                  sn_logged_in = st_LoggedIn s, sn_queue_depth = st_QueueDepth s,
                  sn_ipc_listening = st_IPCListening s,
                  sn_media_failures_5m = length (st_mediaFailures s),
                  sn_updated_at = now2 div 1000000000\<rparr>
      in case health_error io of
           Some e \<Rightarrow> (Some e, s, snd sf)
         | None \<Rightarrow> (None, s, Some body))"

section \<open>The failure window over a run\<close>

text \<open>
  What reaches the status over time. \<open>failures_of\<close> is every media failure ever recorded;
  \<open>clock_ok\<close> says that the clock read by the successive writes does not go back.
\<close>

datatype status_event =
    EvConnection bool bool
  | EvConnected bool
  | EvListening bool
  | EvMessage int
  | EvFailure int
  | EvQueue int
  | EvWrite int int health_io

fun status_step :: "status \<times> snapshot option \<Rightarrow> status_event \<Rightarrow> status \<times> snapshot option" where
  "status_step (s, f) (EvConnection c l) = (SetConnection c l s, f)"
| "status_step (s, f) (EvConnected c) = (SetConnected c s, f)"
| "status_step (s, f) (EvListening b) = (SetIPCListening b s, f)"
| "status_step (s, f) (EvMessage t) = (MessageAt t s, f)"
| "status_step (s, f) (EvFailure t) = (MediaFailure t s, f)"
| "status_step (s, f) (EvQueue n) = (SetQueueDepth n s, f)"
| "status_step (s, f) (EvWrite now now2 io) = snd (Status_Write now now2 io (s, f))"

definition status_run :: "status \<times> snapshot option \<Rightarrow> status_event list \<Rightarrow> status \<times> snapshot option"
where
  "status_run = foldl status_step"

fun failures_of :: "status_event list \<Rightarrow> int list" where
  "failures_of [] = []"
| "failures_of (EvFailure t # es) = t # failures_of es"
| "failures_of (_ # es) = failures_of es"

fun clock_ok :: "int \<Rightarrow> status_event list \<Rightarrow> bool" where
  "clock_ok t [] = True"
| "clock_ok t (EvWrite now now2 io # es) = (t \<le> now \<and> clock_ok now es)"
| "clock_ok t (_ # es) = clock_ok t es"

fun last_write :: "int \<Rightarrow> status_event list \<Rightarrow> int" where
  "last_write t [] = t"
| "last_write t (EvWrite now now2 io # es) = last_write now es"
| "last_write t (_ # es) = last_write t es"

lemma mediaFailures_frame [simp]:
  "st_mediaFailures (SetConnection c l s) = st_mediaFailures s"
  "st_mediaFailures (SetConnected c s) = st_mediaFailures s"
  "st_mediaFailures (SetIPCListening b s) = st_mediaFailures s"
  "st_mediaFailures (SetQueueDepth n s) = st_mediaFailures s"
  "st_mediaFailures (MessageAt u s) = st_mediaFailures s"
  by (simp_all add: SetConnection_def SetConnected_def SetIPCListening_def SetQueueDepth_def
      MessageAt_def Let_def)

text \<open>
  The window invariant: at any time the list kept agrees with the list of all failures on
  every instant after the last cutoff.
\<close>

lemma status_run_window:
  assumes "clock_ok t es"
    and "filter (\<lambda>x. x > t - five_minutes) (st_mediaFailures s) =
         filter (\<lambda>x. x > t - five_minutes) hist"
  shows "filter (\<lambda>x. x > last_write t es - five_minutes) (st_mediaFailures (fst (status_run (s, f) es))) =
         filter (\<lambda>x. x > last_write t es - five_minutes) (hist @ failures_of es)"
  using assms
proof (induction es arbitrary: t s f hist)
  case (Cons e es)
  show ?case
  proof (cases e)
    case (EvWrite now now2 io)
    let ?c = "now - five_minutes"
    have t: "t \<le> now" "clock_ok now es" using Cons.prems(1) EvWrite by simp_all
    have "filter (\<lambda>x. x > ?c) xs = filter (\<lambda>x. x > ?c) (filter (\<lambda>x. x > t - five_minutes) xs)"
      for xs :: "int list"
      using t(1) by (induction xs) auto
    then have win: "filter (\<lambda>x. x > ?c) (st_mediaFailures s) = filter (\<lambda>x. x > ?c) hist"
      using Cons.prems(2) by metis
    obtain s' f' where st: "status_step (s, f) (EvWrite now now2 io) = (s', f')"
      by (cases "status_step (s, f) (EvWrite now now2 io)")
    then have "st_mediaFailures s' = filter (\<lambda>x. x > ?c) (st_mediaFailures s)"
      by (auto simp: Status_Write_def pruneLocked_def Let_def split: option.splits)
    with win have "filter (\<lambda>x. x > ?c) (st_mediaFailures s') = filter (\<lambda>x. x > ?c) hist" by simp
    from Cons.IH [OF t(2) this, of f'] show ?thesis using st EvWrite by (simp add: status_run_def)
  next
    case (EvFailure x)
    then show ?thesis
      using Cons.IH [of t "MediaFailure x s" "hist @ [x]" f] Cons.prems
      by (simp add: status_run_def MediaFailure_def)
  qed (use Cons in \<open>simp_all add: status_run_def\<close>)
qed (simp add: status_run_def)

lemma status_run_snoc: "status_run sf (es @ [e]) = status_step (status_run sf es) e"
  by (simp add: status_run_def)

lemma last_write_snoc [simp]: "last_write t (es @ [EvWrite now now2 io]) = now"
  by (induction t es rule: last_write.induct) auto

lemma failures_of_snoc [simp]: "failures_of (es @ [EvWrite now now2 io]) = failures_of es"
  by (induction es rule: failures_of.induct) auto

lemma Status_Write_snapshot:
  assumes "health_error io = None" "Status_Write now now2 io sf = (r, s, f)"
  obtains b where "r = None" "f = Some b" "sn_media_failures_5m b = length (st_mediaFailures s)"
    "st_mediaFailures s = filter (\<lambda>x. x > now - five_minutes) (st_mediaFailures (fst sf))"
  using assms by (auto simp: Status_Write_def Let_def pruneLocked_def)

section \<open>Properties\<close>

text \<open>
  C16. The count \<open>media_failures_5m\<close> of a snapshot that reaches \<open>health.json\<close> is exact: over
  any run of status updates and writes from a new status, with a clock that does not go
  back between writes, it is the number of media failures ever recorded in the five
  minutes before the write; pruning at earlier writes never loses one that still counts.
\<close>

theorem media_failures_5m_exact:
  assumes clock: "clock_ok t (es @ [EvWrite now now2 io])"
    and written: "health_error io = None"
  shows "\<exists>s b. status_run (NewStatus, None) (es @ [EvWrite now now2 io]) = (s, Some b) \<and>
    sn_media_failures_5m b = length (filter (\<lambda>x. x > now - five_minutes) (failures_of es))"
proof -
  obtain s0 f0 where run: "status_run (NewStatus, None) es = (s0, f0)"
    by (cases "status_run (NewStatus, None) es")
  obtain r s f where w: "Status_Write now now2 io (s0, f0) = (r, s, f)"
    by (cases "Status_Write now now2 io (s0, f0)")
  have all: "status_run (NewStatus, None) (es @ [EvWrite now now2 io]) = (s, f)"
    by (simp add: status_run_snoc run w)
  obtain b where b: "f = Some b" "sn_media_failures_5m b = length (st_mediaFailures s)"
    "st_mediaFailures s = filter (\<lambda>x. x > now - five_minutes) (st_mediaFailures s0)"
    using Status_Write_snapshot [OF written w] by auto
  have "filter (\<lambda>x. x > now - five_minutes) (st_mediaFailures s) =
      filter (\<lambda>x. x > now - five_minutes) (failures_of es)"
    using status_run_window [OF clock, where s = NewStatus and hist = "[]" and f = None] all
    by (simp add: NewStatus_def)
  then show ?thesis using all b by simp
qed

theorem media_failures_5m_exact_witness:
  "\<exists>s b. status_run (NewStatus, None)
      ([EvFailure 5, EvWrite 10 10 \<lparr>hio_mkdir = None, hio_write = None, hio_rename = None\<rparr>,
        EvFailure 299000000000] @
       [EvWrite 301000000000 301000000000 \<lparr>hio_mkdir = None, hio_write = None, hio_rename = None\<rparr>])
      = (s, Some b) \<and> sn_media_failures_5m b = 1"
  using media_failures_5m_exact [of 0
      "[EvFailure 5, EvWrite 10 10 \<lparr>hio_mkdir = None, hio_write = None, hio_rename = None\<rparr>,
        EvFailure 299000000000]" 301000000000 301000000000
      "\<lparr>hio_mkdir = None, hio_write = None, hio_rename = None\<rparr>"]
  by (simp add: health_error_def five_minutes_def)

end
