(* ===== verification/Listener.thy ===== *)
theory Listener
  imports Store_Properties Health
begin

text \<open>
  \<open>internal/listener/listener.go\<close>: the handler every delivered message goes through. It
  applies the policy of the chat's allowlist entry, writes the event to its store, and
  reports the outcome to the health status, the log and the commit callback. The store is
  the parameter \<open>put\<close>, as it is the interface \<open>Store\<close> in the source; the locale
  \<open>event_store\<close> states what the handler relies on, and \<open>Write\<close> of the message store
  is shown to provide it.
\<close>

section \<open>The handler\<close>

datatype log_line =
    MessageDropped string string
  | MessageWriteFailed string string string
  | MessageIngested string string string bool bool bool
  | MessageHandleFailed string string string
  | MediaDownloadFailed string string string
  | MediaDownloaded string string string nat
  | HistoryMediaExpired string string
  | HistoryBadChatJID string string
  | HistoryParseFailed string string string
  | MessageQueueFull string string
  | ConnectionState string

text \<open>
  The log lines of the daemon that the model keeps, those of the session included. A nil logger, status or callback is \<open>None\<close>; a logger is the list of its lines, a callback
  the list of the arguments it was called with.
\<close>

record handler =
  h_Config :: manager
  h_Log :: "log_line list option"
  h_Status :: "status option"
  h_OnCommitted :: "string list option"

definition log_printf :: "log_line \<Rightarrow> handler \<Rightarrow> handler" where
  "log_printf l h = h\<lparr>h_Log := map_option (\<lambda>ls. ls @ [l]) (h_Log h)\<rparr>"

definition redact :: "group \<Rightarrow> event \<Rightarrow> event" where
  "redact g ev0 =
     (let ev1 = ev0\<lparr>ev_ChatLabel := g_Label g\<rparr>;
          ev2 = (if g_IngestText g then ev1 else ev1\<lparr>ev_Text := []\<rparr>);
          ev3 = (if g_IngestMediaMetadata g then ev2
                 else ev2\<lparr>ev_MediaType := [], ev_MediaTitle := [], ev_MediaPath := [],
                          ev_MediaURL := [], ev_MediaSize := 0\<rparr>)
      in if g_CopyMedia g then ev3 else ev3\<lparr>ev_MediaBytes := []\<rparr>)"

definition ApplyPolicy :: "event \<Rightarrow> handler \<Rightarrow> (event \<times> group option) \<times> handler" where
  "ApplyPolicy ev h =
     (case Group (h_Config h) (ev_ChatJID ev) of
        None \<Rightarrow> ((ev, None), log_printf (MessageDropped (ev_ChatJID ev) (ev_MsgID ev)) h)
      | Some g \<Rightarrow> ((redact g ev, Some g), h))"

definition HandleResult ::
  "(event \<Rightarrow> 's \<Rightarrow> (result \<times> go_error option) \<times> 's) \<Rightarrow> int \<Rightarrow> event \<Rightarrow> handler \<Rightarrow> 's \<Rightarrow>
     (bool \<times> result \<times> go_error option) \<times> handler \<times> 's" where
  "HandleResult put now ev0 h0 s =
     (case ApplyPolicy ev0 h0 of
        ((ev, None), h) \<Rightarrow> ((False, zero_result, None), h, s)
      | ((ev, Some g), h) \<Rightarrow>
          (case put ev s of
             ((res, Some e), s') \<Rightarrow>
               let h1 = (if ev_MediaBytes ev \<noteq> []
                         then h\<lparr>h_Status := map_option (MediaFailure now) (h_Status h)\<rparr> else h);
                   h2 = log_printf (MessageWriteFailed (ev_ChatJID ev) (ev_MsgID ev) (Error e)) h1
               in ((True, zero_result, Some e), h2, s')
           | ((res, None), s') \<Rightarrow>
               let h1 = h\<lparr>h_Status := map_option (MessageAt now) (h_Status h)\<rparr>;
                   h2 = (if res_Inserted res \<or> res_Updated res
                         then h1\<lparr>h_OnCommitted := map_option (\<lambda>cs. cs @ [ev_ChatJID ev]) (h_OnCommitted h1)\<rparr>
                         else h1);
                   h3 = log_printf (MessageIngested (ev_ChatJID ev) (ev_MsgID ev) (res_ID res)
                          (res_Inserted res) (res_Updated res) (res_MediaPath res \<noteq> [])) h2
               in ((True, res, None), h3, s')))"

definition Handle ::
  "(event \<Rightarrow> 's \<Rightarrow> (result \<times> go_error option) \<times> 's) \<Rightarrow> int \<Rightarrow> event \<Rightarrow> handler \<Rightarrow> 's \<Rightarrow>
     (bool \<times> go_error option) \<times> handler \<times> 's" where
  "Handle put now ev h s =
     (case HandleResult put now ev h s of ((accepted, _, r), h', s') \<Rightarrow> ((accepted, r), h', s'))"

section \<open>The policy\<close>

lemma redact_fields [simp]:
  "ev_ChatJID (redact g ev) = ev_ChatJID ev" "ev_ChatLabel (redact g ev) = g_Label g"
  "ev_MsgID (redact g ev) = ev_MsgID ev" "ev_SenderJID (redact g ev) = ev_SenderJID ev"
  "ev_SenderName (redact g ev) = ev_SenderName ev"
  "ev_Timestamp (redact g ev) = ev_Timestamp ev" "ev_FromMe (redact g ev) = ev_FromMe ev"
  "ev_MessageType (redact g ev) = ev_MessageType ev"
  "ev_Text (redact g ev) = (if g_IngestText g then ev_Text ev else [])"
  "ev_MediaType (redact g ev) = (if g_IngestMediaMetadata g then ev_MediaType ev else [])"
  "ev_MediaTitle (redact g ev) = (if g_IngestMediaMetadata g then ev_MediaTitle ev else [])"
  "ev_MediaPath (redact g ev) = (if g_IngestMediaMetadata g then ev_MediaPath ev else [])"
  "ev_MediaURL (redact g ev) = (if g_IngestMediaMetadata g then ev_MediaURL ev else [])"
  "ev_MediaSize (redact g ev) = (if g_IngestMediaMetadata g then ev_MediaSize ev else 0)"
  "ev_MediaBytes (redact g ev) = (if g_CopyMedia g then ev_MediaBytes ev else [])"
  "ev_SourcePK (redact g ev) = ev_SourcePK ev"
  "event_key (redact g ev) = event_key ev"
  by (simp_all add: redact_def Let_def event_key_def)

lemma redact_idem: "redact g (redact g ev) = redact g ev"
  by (simp add: redact_def Let_def)

lemma log_printf_fields [simp]:
  "h_Config (log_printf l h) = h_Config h" "h_Status (log_printf l h) = h_Status h"
  "h_OnCommitted (log_printf l h) = h_OnCommitted h"
  by (simp_all add: log_printf_def)

text \<open>The three ways a message can go through the handler.\<close>

lemma HandleResult_cases:
  assumes "HandleResult put now ev h s = ((accepted, res, r), h', s')"
  obtains (dropped) "Group (h_Config h) (ev_ChatJID ev) = None" "\<not> accepted" "r = None" "s' = s"
      "res = zero_result" "h' = log_printf (MessageDropped (ev_ChatJID ev) (ev_MsgID ev)) h"
  | (failed) g res1 e where "Group (h_Config h) (ev_ChatJID ev) = Some g" "accepted" "r = Some e"
      "res = zero_result" "put (redact g ev) s = ((res1, Some e), s')"
      "h_OnCommitted h' = h_OnCommitted h" "h_Config h' = h_Config h"
      "h_Status h' = (if ev_MediaBytes (redact g ev) \<noteq> []
         then map_option (MediaFailure now) (h_Status h) else h_Status h)"
  | (written) g where "Group (h_Config h) (ev_ChatJID ev) = Some g" "accepted" "r = None"
      "put (redact g ev) s = ((res, None), s')" "h_Config h' = h_Config h"
      "h_Status h' = map_option (MessageAt now) (h_Status h)"
      "h_OnCommitted h' = (if res_Inserted res \<or> res_Updated res
         then map_option (\<lambda>cs. cs @ [ev_ChatJID ev]) (h_OnCommitted h) else h_OnCommitted h)"
proof (cases "Group (h_Config h) (ev_ChatJID ev)")
  case None
  then show thesis
    using assms by (intro dropped) (auto simp: HandleResult_def ApplyPolicy_def)
next
  case (Some g)
  obtain res1 r1 s1 where w: "put (redact g ev) s = ((res1, r1), s1)"
    by (metis prod.collapse)
  show thesis
  proof (cases r1)
    case None
    then show thesis
      using assms Some w by (intro written [of g]) (auto simp: HandleResult_def ApplyPolicy_def Let_def)
  next
    case (Some e)
    then show thesis
      using assms \<open>Group (h_Config h) (ev_ChatJID ev) = Some g\<close> w
      by (intro failed [of g e res1]) (auto simp: HandleResult_def ApplyPolicy_def Let_def)
  qed
qed

section \<open>The store as an interface\<close>

text \<open>The columns of a row that carry what the event said.\<close>

definition carries :: "event \<Rightarrow> message_row \<Rightarrow> bool" where
  "carries ev r \<longleftrightarrow>
     mr_text r = nullEmpty (ev_Text ev) \<and> mr_media_type r = nullEmpty (ev_MediaType ev) \<and>
     mr_media_title r = nullEmpty (ev_MediaTitle ev) \<and>
     mr_media_path r = nullEmpty (ev_MediaPath ev) \<and> mr_media_url r = nullEmpty (ev_MediaURL ev) \<and>
     mr_media_size r = nullZero (ev_MediaSize ev)"

definition new_for :: "event \<Rightarrow> message_row \<Rightarrow> bool" where
  "new_for ev r \<longleftrightarrow> natural_key r = event_key ev \<and> mr_chat_label r = ev_ChatLabel ev"

text \<open>
  \<open>rows\<close> are the messages of a store and \<open>media\<close> its files. The laws: every row after a write was
  there before or carries the event's content, and a row under a new id is the event's;
  a write that fails without media bytes changes no row; one without media bytes touches
  no file; a write that succeeds has stored the event under the id it returns.
\<close>

locale event_store =
  fixes put :: "event \<Rightarrow> 's \<Rightarrow> (result \<times> go_error option) \<times> 's"
    and rows :: "'s \<Rightarrow> message_row list"
    and media :: "'s \<Rightarrow> files"
    and ok :: "'s \<Rightarrow> bool"
  assumes write_keeps_ok: "ok s \<Longrightarrow> put ev s = ((res, r), s') \<Longrightarrow> ok s'"
    and write_rows: "ok s \<Longrightarrow> put ev s = ((res, r), s') \<Longrightarrow> q \<in> set (rows s') \<Longrightarrow>
      q \<in> set (rows s) \<or>
      (carries ev q \<and> (row_of mr_id (mr_id q) (rows s) = None \<longrightarrow> new_for ev q))"
    and write_error: "put ev s = ((res, Some e), s') \<Longrightarrow> ev_MediaBytes ev = [] \<Longrightarrow> rows s' = rows s"
    and write_media: "put ev s = ((res, r), s') \<Longrightarrow> ev_MediaBytes ev = [] \<Longrightarrow> media s' = media s"
    and write_stores: "put ev s = ((res, None), s') \<Longrightarrow>
      \<exists>q. row_of mr_id (res_ID res) (rows s') = Some q \<and> carries ev q"
begin

lemma handle_keeps_ok:
  "ok s \<Longrightarrow> HandleResult put now ev h s = ((a, res, r), h', s') \<Longrightarrow> ok s'"
  by (erule HandleResult_cases) (auto intro: write_keeps_ok)

lemma handle_denied:
  assumes "HandleResult put now ev h s = ((a, res, r), h', s')" "\<not> IsAllowed (h_Config h) (ev_ChatJID ev)"
  shows "\<not> a \<and> s' = s \<and> h_OnCommitted h' = h_OnCommitted h \<and> h_Status h' = h_Status h"
  using assms(1)
  by (cases rule: HandleResult_cases) (use assms(2) cfg.allowed_lookup in auto)

lemma handle_rows:
  assumes "ok s" "HandleResult put now ev h s = ((a, res, r), h', s')"
    and "q \<in> set (rows s')" "q \<notin> set (rows s)"
  shows "\<exists>g. Group (h_Config h) (ev_ChatJID ev) = Some g \<and> carries (redact g ev) q \<and>
    (row_of mr_id (mr_id q) (rows s) = None \<longrightarrow> new_for (redact g ev) q)"
  using assms(2)
  by (cases rule: HandleResult_cases) (use assms write_rows in blast)+

lemma handle_no_copy:
  assumes "HandleResult put now ev h s = ((a, res, r), h', s')"
    and "\<And>g. Group (h_Config h) (ev_ChatJID ev) = Some g \<Longrightarrow> \<not> g_CopyMedia g"
  shows "media s' = media s"
  using assms(1)
proof (cases rule: HandleResult_cases)
  case (failed g res1 e)
  then show ?thesis using write_media [OF failed(5)] assms(2) by simp
next
  case (written g)
  then show ?thesis using write_media [OF written(4)] assms(2) by simp
qed simp

lemma handle_committed:
  assumes "HandleResult put now ev h s = ((a, res, r), h', s')" "h_OnCommitted h = Some cs"
  shows "h_OnCommitted h' = Some (if a \<and> r = None \<and> (res_Inserted res \<or> res_Updated res)
    then cs @ [ev_ChatJID ev] else cs)"
  using assms(1) by (cases rule: HandleResult_cases) (use assms(2) in simp_all)

lemma handle_unnoticed:
  assumes "HandleResult put now ev h s = ((a, res, Some e), h', s')"
    and "Group (h_Config h) (ev_ChatJID ev) = Some g" "ev_MediaBytes (redact g ev) = []"
  shows "rows s' = rows s"
  using assms(1)
  by (cases rule: HandleResult_cases) (use assms(2,3) write_error in fastforce)+

end

lemma carries_row_matches: "row_matches H now ev r \<Longrightarrow> carries ev r"
  by (simp add: carries_def row_matches_def)

lemma Write_rows:
  assumes ok: "db_ok H (durable (w_db w))" and W: "Write H ulower env ev w = ((res, r), w')"
    and q: "q \<in> set (t_messages (durable (w_db w')))"
  shows "q \<in> set (t_messages (durable (w_db w))) \<or>
    (carries ev q \<and> (row_of mr_id (mr_id q) (t_messages (durable (w_db w))) = None \<longrightarrow> new_for ev q))"
  using W
proof (cases rule: Write_cases)
  case (rejected e)
  then show ?thesis using q by simp
next
  case (stored res1 runID t1 m w1)
  let ?t = "durable (w_db w)" and ?ev = "stored_event env w ev" and ?i = "event_id H (stored_event env w ev)"
  let ?x = "message_of ?i (we_now env) (event_hash H ev) (status_of ev) (attempts_of ?ev) ?ev"
  have msgs: "t_messages t1 = upsert mr_id merge_message ?x (t_messages ?t)"
    using stored(4) by (simp add: write_effect_def)
  obtain q1 where q1: "q1 \<in> set (t_messages t1)" "q = (if mr_id q1 = ?i then mark_message m q1 else q1)"
    using q stored(5) by (auto simp: mark_tables_def set_update_where)
  show ?thesis
  proof (cases "mr_id q1 = ?i")
    case False
    have "q1 \<in> set (t_messages ?t)"
      using messages_tab.set_upsertD [OF q1(1) [unfolded msgs]] False
      by (metis merge_message_frame(1) message_of_fields(1))
    then show ?thesis using q1(2) False by simp
  next
    case True
    have "unique_key mr_id (t_messages t1)"
      using db_ok_write_effect [OF ok stored(4) refl] by (simp add: db_ok_def)
    then have row: "row_of mr_id ?i (t_messages t1) = Some q1"
      using row_of_Some_in [OF _ q1(1), of mr_id] True by simp
    show ?thesis
    proof (cases "row_of mr_id ?i (t_messages ?t)")
      case None
      then have "q1 = ?x" using row write_effect_row [OF stored(4)] by simp
      then have "row_matches H (we_now env) ev q" "new_for ev q"
        using q1(2) row_matches_new(1) [of H "we_now env" ?ev] row_matches_mark
        by (simp_all add: event_hash_def new_for_def)
      then show ?thesis using carries_row_matches by blast
    next
      case (Some old)
      then have "q1 = merge_message ?x old" using row write_effect_row [OF stored(4)] by simp
      then have "row_matches H (we_now env) ev q"
        using q1(2) row_matches_new(2) [of H "we_now env" ?ev] row_matches_mark
        by (simp add: event_hash_def)
      then show ?thesis using carries_row_matches Some True q1(2) by simp
    qed
  qed
qed

interpretation listener_store: event_store "Write H ulower env" "\<lambda>w. t_messages (durable (w_db w))"
  w_files "\<lambda>w. db_ok H (durable (w_db w))" for H ulower env
proof
  fix ev res r w w' assume "db_ok H (durable (w_db w))" "Write H ulower env ev w = ((res, r), w')"
  then show "db_ok H (durable (w_db w'))" by (rule db_ok_Write)
next
  fix ev res r q and w w' :: writer
  assume "db_ok H (durable (w_db w))" "Write H ulower env ev w = ((res, r), w')"
    "q \<in> set (t_messages (durable (w_db w')))"
  then show "q \<in> set (t_messages (durable (w_db w))) \<or>
      (carries ev q \<and> (row_of mr_id (mr_id q) (t_messages (durable (w_db w))) = None \<longrightarrow> new_for ev q))"
    by (rule Write_rows)
next
  fix ev res e and w w' :: writer
  assume "Write H ulower env ev w = ((res, Some e), w')" "ev_MediaBytes ev = []"
  then show "t_messages (durable (w_db w')) = t_messages (durable (w_db w))"
    using Write_failed by metis
next
  fix ev res r and w w' :: writer
  assume "Write H ulower env ev w = ((res, r), w')" "ev_MediaBytes ev = []"
  then show "w_files w' = w_files w"
    using Write_no_bytes by metis
next
  fix ev res and w w' :: writer
  assume "Write H ulower env ev w = ((res, None), w')"
  then show "\<exists>q. row_of mr_id (res_ID res) (t_messages (durable (w_db w'))) = Some q \<and> carries ev q"
    using Write_stored carries_row_matches by blast
qed


section \<open>What a reader of a chat can see\<close>

text \<open>The messages of a chat and the versions of their content.\<close>

definition message_versions :: "string \<Rightarrow> writer \<Rightarrow> (string \<times> string) list" where
  "message_versions jid w = map (\<lambda>q. (mr_id q, mr_text_hash q))
     (filter (\<lambda>q. mr_chat_jid q = jid) (t_messages (durable (w_db w))))"

lemma Write_messages:
  assumes ok: "db_ok H (durable (w_db w))" and W: "Write H ulower env ev w = ((res, r), w')"
  obtains (same) "t_messages (durable (w_db w')) = t_messages (durable (w_db w))"
  | (fresh) x where "mr_chat_jid x = ev_ChatJID ev" "r = None \<longrightarrow> res_Inserted res"
      "t_messages (durable (w_db w')) = t_messages (durable (w_db w)) @ [x]"
  | (merged) f where "\<And>y. mr_id (f y) = mr_id y \<and> mr_chat_jid (f y) = mr_chat_jid y \<and>
        mr_text_hash (f y) = event_hash H ev"
      "r = None \<longrightarrow> \<not> res_Updated res \<longrightarrow> (\<forall>y \<in> set (t_messages (durable (w_db w))).
         mr_id y = event_id H (stored_event env w ev) \<longrightarrow> mr_text_hash y = event_hash H ev)"
      "t_messages (durable (w_db w')) =
         update_where (\<lambda>y. mr_id y = event_id H (stored_event env w ev)) f (t_messages (durable (w_db w)))"
  using W
proof (cases rule: Write_cases)
  case (rejected e)
  then show thesis using same by simp
next
  case (stored res1 runID t1 m w1)
  let ?t = "durable (w_db w)" and ?ev = "stored_event env w ev"
  let ?i = "event_id H ?ev"
  let ?x = "message_of ?i (we_now env) (event_hash H ev) (status_of ?ev) (attempts_of ?ev) ?ev"
  have msgs: "t_messages t1 = upsert mr_id merge_message ?x (t_messages ?t)"
    using stored(4) by (simp add: write_effect_def)
  have t': "t_messages (durable (w_db w')) = update_where (\<lambda>y. mr_id y = ?i) (mark_message m) (t_messages t1)"
    using stored(5) by (simp add: mark_tables_def)
  have u: "unique_key mr_id (t_messages ?t)" using ok by (simp add: db_ok_def)
  show thesis
  proof (cases "row_of mr_id ?i (t_messages ?t)")
    case None
    then have "\<forall>y \<in> set (t_messages ?t). mr_id y \<noteq> ?i" by (force simp: row_of_None)
    then have "t_messages (durable (w_db w')) = t_messages ?t @ [mark_message m ?x]"
      using t' msgs None messages_tab.upsert_fresh [of ?x "t_messages ?t"]
        update_where_id [of "t_messages ?t" "\<lambda>y. mr_id y = ?i" "mark_message m"]
      by (simp add: update_where_def)
    moreover have "res_Inserted res"
      using None stored(4) media_outcome_result [OF stored(8)] by (simp add: write_effect_def)
    ultimately show thesis by (intro fresh [of "mark_message m ?x"]) simp_all
  next
    case (Some old)
    let ?f = "\<lambda>y. mark_message m (merge_message ?x y)"
    have "t_messages (durable (w_db w')) = update_where (\<lambda>y. mr_id y = ?i) ?f (t_messages ?t)"
      using t' msgs Some messages_tab.upsert_existing [OF u, of ?x] by (simp add: update_where_def)
    moreover have "mr_text_hash y = event_hash H ev"
      if "r = None" "\<not> res_Updated res" "y \<in> set (t_messages ?t)" "mr_id y = ?i" for y
    proof -
      have "y = old" using row_of_Some_in [OF u that(3)] that(4) Some by simp
      then show ?thesis
        using that(1,2) Some stored(4,8) Write_mark [of ulower env ?ev w1 res1 m res w']
        by (auto simp: write_effect_def)
    qed
    ultimately show thesis by (intro merged [of ?f]) (auto simp: merge_message_def)
  qed
qed

lemma Write_other_chat:
  assumes "db_ok H (durable (w_db w))" "Write H ulower env ev w = ((res, r), w')" "jid \<noteq> ev_ChatJID ev"
    and "\<forall>q \<in> set (t_messages (durable (w_db w))). mr_id q = event_id H (stored_event env w ev) \<longrightarrow>
      mr_chat_jid q = ev_ChatJID ev"
  shows "message_versions jid w' = message_versions jid w"
  using assms(1,2)
proof (cases rule: Write_messages)
  case (merged f)
  have "filter (\<lambda>q. mr_chat_jid q = jid) (map (\<lambda>y. if mr_id y = event_id H (stored_event env w ev) then f y else y) ys) =
      filter (\<lambda>q. mr_chat_jid q = jid) ys"
    if "\<forall>q \<in> set ys. mr_id q = event_id H (stored_event env w ev) \<longrightarrow> mr_chat_jid q = ev_ChatJID ev" for ys
    using that assms(3) merged(1) by (induction ys) auto
  then show ?thesis using merged(3) assms(4) by (simp add: message_versions_def update_where_def)
qed (use assms(3) in \<open>simp_all add: message_versions_def\<close>)

lemma Write_quiet:
  assumes "db_ok H (durable (w_db w))" "Write H ulower env ev w = ((res, None), w')"
    and "\<not> res_Inserted res" "\<not> res_Updated res"
  shows "message_versions jid w' = message_versions jid w"
  using assms(1,2)
proof (cases rule: Write_messages)
  case (merged f)
  have "map (\<lambda>q. (mr_id q, mr_text_hash q)) (filter (\<lambda>q. mr_chat_jid q = jid)
        (map (\<lambda>y. if mr_id y = event_id H (stored_event env w ev) then f y else y) ys)) =
      map (\<lambda>q. (mr_id q, mr_text_hash q)) (filter (\<lambda>q. mr_chat_jid q = jid) ys)"
    if "\<forall>y \<in> set ys. mr_id y = event_id H (stored_event env w ev) \<longrightarrow> mr_text_hash y = event_hash H ev" for ys
    using that merged(1) by (induction ys) auto
  then show ?thesis using merged(2,3) assms(4) by (simp add: message_versions_def update_where_def)
qed (use assms(3) in \<open>simp_all add: message_versions_def\<close>)

section \<open>Properties\<close>

text \<open>
  A run of the listener: messages are handled one after the other, the configuration the
  manager holds changes in between, and each write has its own faults and clock.
\<close>

inductive listener_run ::
  "(string \<Rightarrow> string) \<Rightarrow> (string \<Rightarrow> string) \<Rightarrow> handler \<times> writer \<Rightarrow> (event \<times> manager) list \<Rightarrow>
     handler \<times> writer \<Rightarrow> bool" for H ulower where
  lr_start: "listener_run H ulower c [] c"
| lr_message: "listener_run H ulower c past (h, w) \<Longrightarrow>
    listener_run H ulower c (past @ [(ev, h_Config h)])
      (snd (HandleResult (Write H ulower env) now ev h w))"
| lr_config: "listener_run H ulower c past (h, w) \<Longrightarrow>
    listener_run H ulower c past (h\<lparr>h_Config := m\<rparr>, w)"
| lr_groups: "listener_run H ulower c past (h, w) \<Longrightarrow>
    listener_run H ulower c past (h, snd (EnsureGroups e fault now gs w))"

lemma listener_run_ok:
  assumes "listener_run H ulower c past c'" "db_ok H (durable (w_db (snd c)))"
  shows "db_ok H (durable (w_db (snd c')))"
  using assms
proof (induction rule: listener_run.induct)
  case (lr_message c past h w ev env now)
  then show ?case
    using listener_store.handle_keeps_ok [of H w ulower env now ev h] by (metis prod.collapse snd_conv)
next
  case (lr_groups c past h w e fault now gs)
  then show ?case using db_ok_EnsureGroups by (metis prod.collapse snd_conv)
qed simp_all

lemma listener_run_provenance:
  assumes "listener_run H ulower c past c'" "db_ok H (durable (w_db (snd c)))"
    and "q \<in> set (t_messages (durable (w_db (snd c'))))"
    and "q \<notin> set (t_messages (durable (w_db (snd c))))"
  shows "\<exists>ev m g. (ev, m) \<in> set past \<and> Group m (ev_ChatJID ev) = Some g \<and> carries (redact g ev) q"
  using assms
proof (induction rule: listener_run.induct)
  case (lr_message c past h w ev env now)
  let ?w' = "snd (snd (HandleResult (Write H ulower env) now ev h w))"
  have ok: "db_ok H (durable (w_db w))"
    using listener_run_ok [OF lr_message.hyps(1) lr_message.prems(1)] by simp
  show ?case
  proof (cases "q \<in> set (t_messages (durable (w_db w)))")
    case True
    then show ?thesis using lr_message by fastforce
  next
    case False
    obtain a res r h' w' where hr: "HandleResult (Write H ulower env) now ev h w = ((a, res, r), h', w')"
      by (metis prod.collapse)
    then have "q \<in> set (t_messages (durable (w_db w')))" using lr_message.prems(2) by simp
    from listener_store.handle_rows [OF ok hr this False] show ?thesis by auto
  qed
next
  case (lr_groups c past h w e fault now gs)
  then show ?case using EnsureGroups_messages by (metis prod.collapse snd_conv)
qed auto

text \<open>
  C2. Default deny and privacy, end to end. Over any run of the listener, every row that was
  not in the store at the start carries the content of a handled message whose chat the
  configuration allowed when it was handled, after that chat's policy: the text is NULL
  unless the policy ingests text, and the five columns about media are NULL unless it
  ingests media metadata.
\<close>

theorem stored_content_was_allowed:
  assumes "listener_run H ulower (h, w) past (h', w')" "db_ok H (durable (w_db w))"
    and "q \<in> set (t_messages (durable (w_db w')))" "q \<notin> set (t_messages (durable (w_db w)))"
  shows "\<exists>ev m g. (ev, m) \<in> set past \<and> IsAllowed m (ev_ChatJID ev) \<and>
    Group m (ev_ChatJID ev) = Some g \<and>
    mr_text q = (if g_IngestText g then nullEmpty (ev_Text ev) else None) \<and>
    (\<not> g_IngestMediaMetadata g \<longrightarrow> mr_media_type q = None \<and> mr_media_title q = None \<and>
       mr_media_path q = None \<and> mr_media_url q = None \<and> mr_media_size q = None)"
proof -
  obtain ev m g where "(ev, m) \<in> set past" "Group m (ev_ChatJID ev) = Some g" "carries (redact g ev) q"
    using listener_run_provenance [OF assms(1), of q] assms(2-4) by force
  then show ?thesis
    by (intro exI [of _ ev] exI [of _ m] exI [of _ g])
      (auto simp: carries_def cfg.allowed_lookup nullEmpty_def nullZero_def)
qed

definition sample_handler :: handler where
  "sample_handler = \<lparr>h_Config = empty_manager\<lparr>m_groups := [sample_group\<lparr>g_IngestText := False\<rparr>]\<rparr>,
     h_Log = None, h_Status = Some NewStatus, h_OnCommitted = Some []\<rparr>"

lemma sample_store_ok: "db_ok H (durable (w_db sample_writer))"
  by (simp add: sample_writer_def new_writer_def db_ok_def empty_tables_def)

theorem stored_content_was_allowed_witness:
  "\<exists>q. t_messages (durable (w_db (snd (snd (HandleResult (Write (\<lambda>s. s) (\<lambda>s. s) sample_env) 7
      sample_event sample_handler sample_writer))))) = [q] \<and> mr_text q = None"
proof -
  let ?R = "HandleResult (Write (\<lambda>s. s) (\<lambda>s. s) sample_env) 7 sample_event sample_handler sample_writer"
  have "length (t_messages (durable (w_db (snd (snd ?R))))) = 1" by code_simp
  then obtain q where q: "t_messages (durable (w_db (snd (snd ?R)))) = [q]" by (auto simp: length_Suc_conv)
  have "listener_run (\<lambda>s. s) (\<lambda>s. s) (sample_handler, sample_writer)
      ([] @ [(sample_event, h_Config sample_handler)]) (fst (snd ?R), snd (snd ?R))"
    using lr_message [OF lr_start [of "\<lambda>s. s" "\<lambda>s. s" "(sample_handler, sample_writer)"],
        of sample_event sample_env 7] by simp
  from stored_content_was_allowed [OF this sample_store_ok, of q] q show ?thesis
    by (auto simp: sample_handler_def Group_def sample_writer_def new_writer_def empty_tables_def
        split: if_splits)
qed

text \<open>
  C27. A chat that is not allowed leaves no trace: the message is reported as not accepted,
  the store and its files are untouched, nothing is announced and the status does not move.
  A chat whose policy does not copy media leaves no media file, whatever the outcome.
\<close>

theorem disallowed_no_trace:
  assumes "HandleResult (Write H ulower env) now ev h w = ((accepted, res, r), h', w')"
  shows "(\<not> IsAllowed (h_Config h) (ev_ChatJID ev) \<longrightarrow>
      \<not> accepted \<and> w' = w \<and> h_OnCommitted h' = h_OnCommitted h \<and> h_Status h' = h_Status h) \<and>
    ((\<forall>g. Group (h_Config h) (ev_ChatJID ev) = Some g \<longrightarrow> \<not> g_CopyMedia g) \<longrightarrow> w_files w' = w_files w)"
  using listener_store.handle_denied [OF assms] listener_store.handle_no_copy [OF assms] by blast

theorem disallowed_no_trace_witness:
  "\<exists>accepted res r h' w'. HandleResult (Write (\<lambda>s. s) (\<lambda>s. s) sample_env) 7
      (sample_event\<lparr>ev_ChatJID := ''9@lid''\<rparr>) sample_handler sample_writer = ((accepted, res, r), h', w') \<and>
     \<not> accepted \<and> w' = sample_writer"
proof -
  let ?R = "HandleResult (Write (\<lambda>s. s) (\<lambda>s. s) sample_env) 7
      (sample_event\<lparr>ev_ChatJID := ''9@lid''\<rparr>) sample_handler sample_writer"
  obtain a res r h' w' where R: "?R = ((a, res, r), h', w')" by (metis prod.collapse)
  have "\<not> IsAllowed (h_Config sample_handler) ''9@lid''" by code_simp
  then show ?thesis using disallowed_no_trace [OF R] R by auto
qed

lemma Write_noticed:
  assumes "Write H ulower env ev w = ((res, None), w')"
  shows "res_Inserted res \<or> res_Updated res \<longleftrightarrow>
    map_option mr_text_hash (row_of mr_id (res_ID res) (t_messages (durable (w_db w')))) \<noteq>
      map_option mr_text_hash (row_of mr_id (res_ID res) (t_messages (durable (w_db w)))) \<or>
    ev_MediaHydrationStatus ev \<noteq> [] \<or> ev_MediaBytes ev \<noteq> []"
proof -
  note ins = Write_stored [OF assms]
  obtain r where r: "row_of mr_id (res_ID res) (t_messages (durable (w_db w'))) = Some r" using ins by blast
  show ?thesis
    using ins r Write_columns [OF assms r] by (cases "row_of mr_id (res_ID res) (t_messages (durable (w_db w)))") auto
qed

text \<open>
  C36. What is announced, in terms of the store. Take a message of an allowed chat. If its
  write returns no error, the commit callback is called once, with its chat, exactly if the
  row under its id is new or has another text hash (of text and media title) than
  before, or the event had a hydration status or media that the policy copies; and if it is
  not called, then no chat has another list of messages or another text hash than before. If
  the write fails, nothing is announced: where media that the policy copies came with the
  message this counts as a media failure (its row may have been stored all the same), else
  no row has changed.
\<close>

theorem committed_announced:
  assumes HR: "HandleResult (Write H ulower env) now ev h w = ((accepted, res, r), h', w')"
    and ok: "db_ok H (durable (w_db w))" and g: "Group (h_Config h) (ev_ChatJID ev) = Some g"
    and h: "h_OnCommitted h = Some cs" "h_Status h = Some st"
  shows "(r = None \<longrightarrow> h_OnCommitted h' = Some
      (if map_option mr_text_hash (row_of mr_id (res_ID res) (t_messages (durable (w_db w')))) \<noteq>
            map_option mr_text_hash (row_of mr_id (res_ID res) (t_messages (durable (w_db w)))) \<or>
          ev_MediaHydrationStatus ev \<noteq> [] \<or> (g_CopyMedia g \<and> ev_MediaBytes ev \<noteq> [])
       then cs @ [ev_ChatJID ev] else cs)) \<and>
    (r = None \<and> h_OnCommitted h' = Some cs \<longrightarrow> (\<forall>jid. message_versions jid w' = message_versions jid w)) \<and>
    (\<forall>e. r = Some e \<longrightarrow> h_OnCommitted h' = Some cs \<and>
       (if g_CopyMedia g \<and> ev_MediaBytes ev \<noteq> []
        then \<exists>st'. h_Status h' = Some st' \<and> st_mediaFailures st' = st_mediaFailures st @ [now]
        else h_Status h' = Some st \<and> t_messages (durable (w_db w')) = t_messages (durable (w_db w))))"
  using HR
proof (cases rule: HandleResult_cases)
  case (failed g' res1 e)
  have "g_CopyMedia g \<and> ev_MediaBytes ev \<noteq> [] \<or> t_messages (durable (w_db w')) = t_messages (durable (w_db w))"
    using listener_store.handle_unnoticed [OF HR [unfolded failed(3)] g]
    by (cases "g_CopyMedia g \<and> ev_MediaBytes ev \<noteq> []") auto
  then show ?thesis using failed g h by (auto simp: MediaFailure_def)
next
  case (written g')
  have g': "g' = g" using written(1) g by simp
  note W = written(4) [unfolded g']
  have "ev_MediaHydrationStatus (redact g ev) = ev_MediaHydrationStatus ev"
    by (simp add: redact_def Let_def)
  then show ?thesis
    using written(3,7) h(1) Write_noticed [OF W] Write_quiet [OF ok W] by (auto split: if_splits)
qed (use g in simp)

theorem committed_announced_witness:
  "h_OnCommitted (fst (snd (HandleResult (Write (\<lambda>s. s) (\<lambda>s. s) sample_env) 7
      sample_event sample_handler sample_writer))) = Some [''1@lid'']"
proof -
  let ?R = "HandleResult (Write (\<lambda>s. s) (\<lambda>s. s) sample_env) 7 sample_event sample_handler sample_writer"
  obtain a res r h' w' where R: "?R = ((a, res, r), h', w')" by (metis prod.collapse)
  let ?id = "res_ID (fst (snd (fst ?R)))"
  have "snd (snd (fst ?R)) = None \<and>
      map_option mr_text_hash (row_of mr_id ?id (t_messages (durable (w_db (snd (snd ?R)))))) \<noteq>
      map_option mr_text_hash (row_of mr_id ?id (t_messages (durable (w_db sample_writer))))"
    by code_simp
  then have n: "r = None" "map_option mr_text_hash (row_of mr_id (res_ID res) (t_messages (durable (w_db w')))) \<noteq>
      map_option mr_text_hash (row_of mr_id (res_ID res) (t_messages (durable (w_db sample_writer))))"
    using R by simp_all
  have g: "Group (h_Config sample_handler) (ev_ChatJID sample_event) = Some (sample_group\<lparr>g_IngestText := False\<rparr>)"
    by code_simp
  have "h_OnCommitted sample_handler = Some []" "h_Status sample_handler = Some NewStatus"
    by (simp_all add: sample_handler_def)
  from committed_announced [OF R sample_store_ok g this] n R show ?thesis
    by (simp add: sample_event_def)
qed

end
