(* ===== verification/Auth.thy ===== *)
theory Auth
  imports Listener
begin

text \<open>
  \<open>internal/auth/auth.go\<close>: the WhatsApp session. Messages that whatsmeow delivers, live or
  in a history sync, are normalised into store events, checked against the allowlist,
  completed with downloaded media where the policy copies media, and handed to the
  listener. whatsmeow is third-party code: a message is the record of what its getters
  return, and downloading, parsing a chat JID and parsing a history message are parameters.
\<close>

section \<open>WhatsApp messages\<close>

record media_part =
  md_caption :: string
  md_mimetype :: string
  md_filename :: string
  md_title :: string
  md_url :: string
  md_length :: nat
  md_ref :: nat

record poll_part =
  pl_name :: string
  pl_options :: "string list"

text \<open>A getter that returns a pointer is an option; \<open>md_ref\<close> identifies what to download.\<close>

record wa_body =
  wm_conversation :: string
  wm_extended :: "string option"
  wm_poll :: "poll_part option"
  wm_poll2 :: "poll_part option"
  wm_poll3 :: "poll_part option"
  wm_poll5 :: "poll_part option"
  wm_poll6 :: "poll_part option"
  wm_poll_vote :: bool
  wm_image :: "media_part option"
  wm_document :: "media_part option"
  wm_video :: "media_part option"
  wm_audio :: "media_part option"
  wm_ptv :: "media_part option"
  wm_sticker :: "media_part option"

text \<open>The message nested in \<open>PollCreationMessageV4\<close>, if any, makes the type recursive.\<close>

datatype wa_message = WaMessage (wa_body: wa_body) (wa_nested: "wa_message option")

record event_message =
  em_chat :: string
  em_id :: string
  em_sender :: string
  em_push_name :: string
  em_unix :: int64
  em_from_me :: bool
  em_type :: string
  em_message :: "wa_message option"

record web_key =
  wk_id :: string
  wk_remote :: string
  wk_participant :: string
  wk_from_me :: bool

record web_message =
  wb_key :: "web_key option"
  wb_message :: "wa_message option"
  wb_timestamp :: nat

record conversation =
  cv_id :: string
  cv_messages :: "web_message option list"

record history_data =
  hd_sync_type :: string
  hd_on_demand :: bool
  hd_conversations :: "conversation option list"

text \<open>A history event whose \<open>Data\<close> is nil is \<open>None\<close>.\<close>

type_synonym history_event = "history_data option"

section \<open>Normalisation\<close>

fun firstText :: "string list \<Rightarrow> string" where
  "firstText [] = []"
| "firstText (v # vs) = (let t = strings_TrimSpace v in if t \<noteq> [] then t else firstText vs)"

definition fallbackMessageType :: "(string \<Rightarrow> string) \<Rightarrow> string \<Rightarrow> string" where
  "fallbackMessageType ulower infoType =
     (let t = strings_TrimSpace (strings_ToLower ulower infoType)
      in if t = [] then ''unknown'' else t)"

definition uint64ToInt64 :: "nat \<Rightarrow> int64" where
  "uint64ToInt64 v = (if v > 9223372036854775807 then 9223372036854775807 else int v)"

definition known_ext :: "string \<Rightarrow> string option" where
  "known_ext base =
     map_of [(''image/jpeg'', ''.jpg''), (''image/png'', ''.png''), (''image/gif'', ''.gif''),
       (''image/webp'', ''.webp''), (''video/mp4'', ''.mp4''), (''audio/ogg'', ''.ogg''),
       (''audio/mpeg'', ''.mp3''), (''application/pdf'', ''.pdf'')] base"

text \<open>\<open>mime_exts\<close> is \<open>mime.ExtensionsByType\<close>, which reads the system's tables; an error is \<open>None\<close>.\<close>

definition mediaExt ::
  "(string \<Rightarrow> string) \<Rightarrow> (string \<Rightarrow> string list option) \<Rightarrow> string \<Rightarrow> string \<Rightarrow> string" where
  "mediaExt ulower mime_exts mimeType title =
     (let ext = filepath_Ext title in
      if ext \<noteq> [] \<and> length ext \<le> 12 then ext
      else
        let base = strings_ToLower ulower (strings_TrimSpace (hd (strings_Split (CHR '';'') mimeType)))
        in case known_ext base of
             Some e \<Rightarrow> e
           | None \<Rightarrow>
               (case mime_exts base of
                  Some (e # _) \<Rightarrow> if length e \<le> 12 then e else []
                | _ \<Rightarrow> []))"

definition setMedia ::
  "(string \<Rightarrow> string) \<Rightarrow> (string \<Rightarrow> string list option) \<Rightarrow> string \<Rightarrow> string \<Rightarrow> string \<Rightarrow> string \<Rightarrow> nat \<Rightarrow>
     event \<Rightarrow> event" where
  "setMedia ulower mime_exts kind mimeType title url sz ev =
     ev\<lparr>ev_MessageType := kind, ev_MediaType := kind, ev_MediaTitle := title, ev_MediaURL := url,
        ev_MediaSize := uint64ToInt64 sz, ev_MediaExt := mediaExt ulower mime_exts mimeType title\<rparr>"

fun first_some :: "'a option list \<Rightarrow> 'a option" where
  "first_some [] = None"
| "first_some (Some x # xs) = Some x"
| "first_some (None # xs) = first_some xs"

fun pollCreation :: "wa_message \<Rightarrow> poll_part option" where
  "pollCreation (WaMessage b nested) =
     (case first_some [wm_poll b, wm_poll2 b, wm_poll3 b, wm_poll5 b, wm_poll6 b] of
        Some p \<Rightarrow> Some p
      | None \<Rightarrow> (case nested of None \<Rightarrow> None | Some m \<Rightarrow> pollCreation m))"

definition pollText :: "poll_part \<Rightarrow> string" where
  "pollText p =
     strings_Join
       ((''Poll: '' @ strings_TrimSpace (pl_name p)) #
        map (\<lambda>n. ''- '' @ n) (filter (\<lambda>n. n \<noteq> []) (map strings_TrimSpace (pl_options p))))
       [CHR 0x0A]"

definition base_event :: "int64 \<Rightarrow> event_message \<Rightarrow> event" where
  "base_event now evt =
     \<lparr>ev_ChatJID = em_chat evt, ev_ChatLabel = [], ev_MsgID = em_id evt, ev_SenderJID = em_sender evt,
      ev_SenderName = em_push_name evt,
      ev_Timestamp = (if em_unix evt = 0 then now else em_unix evt), ev_FromMe = em_from_me evt,
      ev_Text = [], ev_RawType = 0, ev_MessageType = [], ev_MediaType = [], ev_MediaTitle = [],
      ev_MediaPath = [], ev_MediaURL = [], ev_MediaSize = 0, ev_MediaBytes = [], ev_MediaExt = [],
      ev_MediaHydrationStatus = [], ev_MediaHydrationAttempts = 0, ev_SourcePK = 0\<rparr>"

definition caption_event :: "media_part \<Rightarrow> event \<Rightarrow> event" where
  "caption_event m ev = ev\<lparr>ev_Text := firstText [md_caption m, ev_Text ev]\<rparr>"

definition text_event :: "wa_body \<Rightarrow> event \<Rightarrow> event" where
  "text_event b ev0 =
     (let ev1 = ev0\<lparr>ev_Text := firstText [wm_conversation b]\<rparr>
      in case wm_extended b of
           None \<Rightarrow> ev1
         | Some t \<Rightarrow> ev1\<lparr>ev_Text := firstText [ev_Text ev1, t], ev_MessageType := ''text''\<rparr>)"

definition normalizeMessage ::
  "(string \<Rightarrow> string) \<Rightarrow> (string \<Rightarrow> string list option) \<Rightarrow> int64 \<Rightarrow> event_message \<Rightarrow> event \<times> media_part option" where
  "normalizeMessage ulower mime_exts now evt =
     (let ev0 = base_event now evt;
          media = (\<lambda>kind m title. setMedia ulower mime_exts kind (md_mimetype m) title (md_url m) (md_length m))
      in case em_message evt of
           None \<Rightarrow> (ev0\<lparr>ev_MessageType := fallbackMessageType ulower (em_type evt)\<rparr>, None)
         | Some msg \<Rightarrow>
             let b = wa_body msg; ev = text_event b ev0
             in case pollCreation msg of
                  Some p \<Rightarrow> (ev\<lparr>ev_MessageType := ''poll'', ev_Text := pollText p\<rparr>, None)
                | None \<Rightarrow>
                  if wm_poll_vote b then (ev\<lparr>ev_MessageType := ''poll_vote''\<rparr>, None)
                  else case wm_image b of
                    Some m \<Rightarrow> (media ''image'' m [] (caption_event m ev), Some m)
                  | None \<Rightarrow> (case wm_document b of
                    Some m \<Rightarrow> (media ''document'' m (firstText [md_filename m, md_title m])
                                 (caption_event m ev), Some m)
                  | None \<Rightarrow> (case wm_video b of
                    Some m \<Rightarrow> (media ''video'' m [] (caption_event m ev), Some m)
                  | None \<Rightarrow> (case wm_audio b of
                    Some m \<Rightarrow> (media ''audio'' m [] ev, Some m)
                  | None \<Rightarrow> (case wm_ptv b of
                    Some m \<Rightarrow> (media ''video'' m [] (caption_event m ev), Some m)
                  | None \<Rightarrow> (case wm_sticker b of
                    Some m \<Rightarrow> (media ''sticker'' m [] ev, None)
                  | None \<Rightarrow>
                      if ev_MessageType ev = []
                      then (ev\<lparr>ev_MessageType := fallbackMessageType ulower (em_type evt)\<rparr>, None)
                      else (ev, None)))))))"

section \<open>Handling one message\<close>

datatype messageSource = SourceLive | SourceHistorySync

fun source_String :: "messageSource \<Rightarrow> string" where
  "source_String SourceHistorySync = ''history_sync''"
| "source_String SourceLive = ''live''"

definition isExpiredMediaDownload :: "go_error \<Rightarrow> bool" where
  "isExpiredMediaDownload e \<longleftrightarrow>
     errors_Is e MediaDownloadFailedWith404 \<or> errors_Is e MediaDownloadFailedWith410"

text \<open>
  What one message meets: the clock, the download, and the configuration a concurrent reload
  may have installed between the first look at the policy and the listener's. The options'
  health status and log are the handler's own, as \<open>main\<close> wires them.
\<close>

record message_env =
  me_now :: int64
  me_instant :: int
  me_download :: "media_part \<Rightarrow> go_error + string"
  me_reload :: "manager \<Rightarrow> manager"

record outcome =
  oc_Accepted :: bool
  oc_Result :: result
  oc_Err :: "go_error option"

definition no_outcome :: outcome where
  "no_outcome = \<lparr>oc_Accepted = False, oc_Result = zero_result, oc_Err = None\<rparr>"

definition download_media ::
  "message_env \<Rightarrow> messageSource \<Rightarrow> event \<Rightarrow> media_part \<Rightarrow> event \<Rightarrow> handler \<Rightarrow> event \<times> handler" where
  "download_media env source ev m policyEv h =
     (case me_download env m of
        Inl e \<Rightarrow>
          let h1 = log_printf (MediaDownloadFailed (ev_ChatJID ev) (ev_MsgID ev) (Error e)) h;
              h2 = h1\<lparr>h_Status := map_option (MediaFailure (me_instant env)) (h_Status h1)\<rparr>
          in if source = SourceHistorySync \<and> isExpiredMediaDownload e
             then (policyEv\<lparr>ev_MediaHydrationStatus := ''failed: expired'', ev_MediaHydrationAttempts := 1\<rparr>,
                   log_printf (HistoryMediaExpired (ev_ChatJID ev) (ev_MsgID ev)) h2)
             else (policyEv, h2)
      | Inr body \<Rightarrow>
          (policyEv\<lparr>ev_MediaBytes := body\<rparr>,
           log_printf (MediaDownloaded (ev_ChatJID ev) (ev_MsgID ev) (source_String source) (length body)) h))"

definition handleMessageFrom ::
  "(string \<Rightarrow> string) \<Rightarrow> (string \<Rightarrow> string list option) \<Rightarrow>
     (event \<Rightarrow> 's \<Rightarrow> (result \<times> go_error option) \<times> 's) \<Rightarrow> message_env \<Rightarrow> event_message \<Rightarrow> messageSource \<Rightarrow>
     handler \<Rightarrow> 's \<Rightarrow> outcome \<times> handler \<times> 's" where
  "handleMessageFrom ulower mime_exts put env msg source h0 s =
     (case normalizeMessage ulower mime_exts (me_now env) msg of
        (ev, media) \<Rightarrow>
          (case ApplyPolicy ev h0 of
             ((policyEv, None), h1) \<Rightarrow> (no_outcome, h1, s)
           | ((policyEv, Some g), h1) \<Rightarrow>
               (case (case media of
                        Some m \<Rightarrow> if g_CopyMedia g then download_media env source ev m policyEv h1
                                  else (policyEv, h1)
                      | None \<Rightarrow> (policyEv, h1)) of
                  (policyEv2, h2) \<Rightarrow>
                    (case HandleResult put (me_instant env) policyEv2
                            (h2\<lparr>h_Config := me_reload env (h_Config h2)\<rparr>) s of
                       ((accepted, res, r), h3, s') \<Rightarrow>
                         (\<lparr>oc_Accepted = accepted, oc_Result = res, oc_Err = r\<rparr>,
                          (case r of
                             None \<Rightarrow> h3
                           | Some e \<Rightarrow> log_printf
                               (MessageHandleFailed (ev_ChatJID ev) (ev_MsgID ev) (Error e)) h3), s')))))"

section \<open>History sync\<close>

record historySyncStats =
  hs_SyncType :: string
  hs_Conversations :: nat
  hs_AllowedConversations :: nat
  hs_Messages :: nat
  hs_Dispatched :: nat
  hs_RowsInserted :: nat
  hs_RowsUpdated :: nat
  hs_MediaHydrated :: nat
  hs_SkippedConversations :: nat
  hs_SkippedMessages :: nat
  hs_ParseErrors :: nat

definition new_stats :: "string \<Rightarrow> historySyncStats" where
  "new_stats t = \<lparr>hs_SyncType = t, hs_Conversations = 0, hs_AllowedConversations = 0,
     hs_Messages = 0, hs_Dispatched = 0, hs_RowsInserted = 0, hs_RowsUpdated = 0,
     hs_MediaHydrated = 0, hs_SkippedConversations = 0, hs_SkippedMessages = 0, hs_ParseErrors = 0\<rparr>"

definition historySyncType :: "history_event \<Rightarrow> string" where
  "historySyncType evt = (case evt of None \<Rightarrow> ''unknown'' | Some d \<Rightarrow> hd_sync_type d)"

definition historySyncConversationCount :: "history_event \<Rightarrow> nat" where
  "historySyncConversationCount evt = (case evt of None \<Rightarrow> 0 | Some d \<Rightarrow> length (hd_conversations d))"

definition isOnDemandHistorySync :: "history_event \<Rightarrow> bool" where
  "isOnDemandHistorySync evt = (case evt of None \<Rightarrow> False | Some d \<Rightarrow> hd_on_demand d)"

definition historySyncMessages :: "conversation option \<Rightarrow> web_message option list" where
  "historySyncMessages conv = (case conv of None \<Rightarrow> [] | Some c \<Rightarrow> cv_messages c)"

definition validHistorySyncWebMessage :: "web_message option \<Rightarrow> bool" where
  "validHistorySyncWebMessage m =
     (case m of
        None \<Rightarrow> False
      | Some w \<Rightarrow>
          (case wb_key w of
             None \<Rightarrow> False
           | Some k \<Rightarrow> wk_id k \<noteq> [] \<and> wb_message w \<noteq> None \<and> wb_timestamp w \<noteq> 0))"

text \<open>
  What a history sync meets. \<open>he_parse_jid\<close> is \<open>types.ParseJID\<close> followed by \<open>String\<close>,
  \<open>he_parse\<close> is \<open>ParseWebMessage\<close> (\<open>None\<close> a nil message, a recovered panic an error);
  \<open>he_ctx k\<close> and \<open>he_env k\<close> are what the k-th message finds, \<open>he_conv k\<close> the state of the
  context at the k-th conversation.
\<close>

record history_env =
  he_parse_jid :: "string \<Rightarrow> go_error + string"
  he_parse :: "string \<Rightarrow> web_message \<Rightarrow> go_error + event_message option"
  he_conv :: "nat \<Rightarrow> bool"
  he_ctx :: "nat \<Rightarrow> bool"
  he_env :: "nat \<Rightarrow> message_env"

definition parseHistorySyncChatJID ::
  "history_env \<Rightarrow> conversation \<Rightarrow> handler \<Rightarrow> string option \<times> handler" where
  "parseHistorySyncChatJID he c h =
     (let raw = strings_TrimSpace (cv_id c) in
      if raw = [] then (None, h)
      else case he_parse_jid he raw of
             Inl e \<Rightarrow> (None, log_printf (HistoryBadChatJID raw (Error e)) h)
           | Inr jid \<Rightarrow> (Some jid, h))"

definition count_outcome :: "outcome \<Rightarrow> historySyncStats \<Rightarrow> historySyncStats" where
  "count_outcome oc st =
     st\<lparr>hs_Dispatched := hs_Dispatched st + 1,
        hs_RowsInserted := hs_RowsInserted st + (if res_Inserted (oc_Result oc) then 1 else 0),
        hs_RowsUpdated := hs_RowsUpdated st + (if res_Updated (oc_Result oc) then 1 else 0),
        hs_MediaHydrated := hs_MediaHydrated st + (if res_MediaPath (oc_Result oc) \<noteq> [] then 1 else 0)\<rparr>"

text \<open>
  The body of the inner loop for one message, after \<open>stats.Messages++\<close>.
\<close>

definition history_message ::
  "(string \<Rightarrow> string) \<Rightarrow> (string \<Rightarrow> string list option) \<Rightarrow>
     (event \<Rightarrow> 's \<Rightarrow> (result \<times> go_error option) \<times> 's) \<Rightarrow> history_env \<Rightarrow> message_env \<Rightarrow> string \<Rightarrow>
     web_message option \<Rightarrow> historySyncStats \<Rightarrow> handler \<Rightarrow> 's \<Rightarrow> historySyncStats \<times> handler \<times> 's" where
  "history_message ulower mime_exts put he env chatJID m st h s =
     (case m of
        None \<Rightarrow> (st\<lparr>hs_SkippedMessages := hs_SkippedMessages st + 1\<rparr>, h, s)
      | Some w \<Rightarrow>
          if \<not> validHistorySyncWebMessage m
          then (st\<lparr>hs_SkippedMessages := hs_SkippedMessages st + 1\<rparr>, h, s)
          else case he_parse he chatJID w of
                 Inl e \<Rightarrow> (st\<lparr>hs_ParseErrors := hs_ParseErrors st + 1\<rparr>,
                   log_printf (HistoryParseFailed chatJID
                     (case wb_key w of None \<Rightarrow> [] | Some k \<Rightarrow> wk_id k) (Error e)) h, s)
               | Inr None \<Rightarrow> (st\<lparr>hs_SkippedMessages := hs_SkippedMessages st + 1\<rparr>, h, s)
               | Inr (Some msg) \<Rightarrow>
                   (case handleMessageFrom ulower mime_exts put env msg SourceHistorySync h s of
                      (oc, h', s') \<Rightarrow> (count_outcome oc st, h', s')))"

text \<open>The flag says that the context was cancelled, which ends the whole sync.\<close>

fun history_messages ::
  "(string \<Rightarrow> string) \<Rightarrow> (string \<Rightarrow> string list option) \<Rightarrow>
     (event \<Rightarrow> 's \<Rightarrow> (result \<times> go_error option) \<times> 's) \<Rightarrow> history_env \<Rightarrow> string \<Rightarrow>
     web_message option list \<Rightarrow> nat \<Rightarrow> historySyncStats \<Rightarrow> handler \<Rightarrow> 's \<Rightarrow>
     bool \<times> nat \<times> historySyncStats \<times> handler \<times> 's" where
  "history_messages ulower mime_exts put he chatJID [] k st h s = (False, k, st, h, s)"
| "history_messages ulower mime_exts put he chatJID (m # ms) k st h s =
     (if he_ctx he k then (True, k, st, h, s)
      else
        case history_message ulower mime_exts put he (he_env he k) chatJID m
               (st\<lparr>hs_Messages := hs_Messages st + 1\<rparr>) h s of
          (st', h', s') \<Rightarrow> history_messages ulower mime_exts put he chatJID ms (Suc k) st' h' s')"

definition skip_conversation :: "nat \<Rightarrow> historySyncStats \<Rightarrow> historySyncStats" where
  "skip_conversation n st =
     st\<lparr>hs_SkippedConversations := hs_SkippedConversations st + 1,
        hs_SkippedMessages := hs_SkippedMessages st + n\<rparr>"

fun history_conversations ::
  "(string \<Rightarrow> string) \<Rightarrow> (string \<Rightarrow> string list option) \<Rightarrow>
     (event \<Rightarrow> 's \<Rightarrow> (result \<times> go_error option) \<times> 's) \<Rightarrow> history_env \<Rightarrow>
     conversation option list \<Rightarrow> nat \<Rightarrow> nat \<Rightarrow> historySyncStats \<Rightarrow> handler \<Rightarrow> 's \<Rightarrow>
     historySyncStats \<times> handler \<times> 's" where
  "history_conversations ulower mime_exts put he [] j k st h s = (st, h, s)"
| "history_conversations ulower mime_exts put he (conv # convs) j k st h s =
     (if he_conv he j then (st, h, s)
      else case conv of
        None \<Rightarrow> history_conversations ulower mime_exts put he convs (Suc j) k (skip_conversation 0 st) h s
      | Some c \<Rightarrow>
          (case parseHistorySyncChatJID he c h of
             (None, h1) \<Rightarrow> history_conversations ulower mime_exts put he convs (Suc j) k
                 (skip_conversation (length (cv_messages c)) st) h1 s
           | (Some jid, h1) \<Rightarrow>
               if \<not> IsAllowed (h_Config h1) jid
               then history_conversations ulower mime_exts put he convs (Suc j) k
                      (skip_conversation (length (cv_messages c)) st) h1 s
               else
                 (case history_messages ulower mime_exts put he jid (cv_messages c) k
                         (st\<lparr>hs_AllowedConversations := hs_AllowedConversations st + 1\<rparr>) h1 s of
                    (True, k', st', h', s') \<Rightarrow> (st', h', s')
                  | (False, k', st', h', s') \<Rightarrow>
                      history_conversations ulower mime_exts put he convs (Suc j) k' st' h' s')))"

text \<open>
  \<open>handleHistorySync\<close>; \<open>has_config\<close> is false where neither the options nor the handler hold a
  configuration manager.
\<close>

definition handleHistorySync ::
  "(string \<Rightarrow> string) \<Rightarrow> (string \<Rightarrow> string list option) \<Rightarrow>
     (event \<Rightarrow> 's \<Rightarrow> (result \<times> go_error option) \<times> 's) \<Rightarrow> history_env \<Rightarrow> bool \<Rightarrow> history_event \<Rightarrow>
     handler \<Rightarrow> 's \<Rightarrow> historySyncStats \<times> handler \<times> 's" where
  "handleHistorySync ulower mime_exts put he has_config evt h s =
     (let stats = new_stats (historySyncType evt) in
      case evt of
        None \<Rightarrow> (stats, h, s)
      | Some d \<Rightarrow>
          let convs = hd_conversations d; st = stats\<lparr>hs_Conversations := length convs\<rparr> in
          if convs = [] then (st, h, s)
          else if \<not> has_config
          then (st\<lparr>hs_SkippedConversations := length convs,
                   hs_SkippedMessages := sum_list (map (\<lambda>c. length (historySyncMessages c)) convs)\<rparr>, h, s)
          else history_conversations ulower mime_exts put he convs 0 0 st h s)"

section \<open>Connection events\<close>

datatype conn_event =
    Connected
  | Disconnected
  | LoggedOut string
  | StreamReplaced
  | PermanentDisconnect string
  | OtherEvent

text \<open>
  The session's shared state: the health status with the snapshot on disk, the two channels of
  capacity one, and the log.
\<close>

record session =
  ss_health :: "(status \<times> snapshot option) option"
  ss_connected :: "unit list"
  ss_fatal :: "go_error list"
  ss_states :: "string list"

record health_env =
  hv_now :: int
  hv_now2 :: int
  hv_io :: health_io

definition setConnection :: "health_env \<Rightarrow> bool \<Rightarrow> bool \<Rightarrow> string \<Rightarrow> session \<Rightarrow> session" where
  "setConnection env connected loggedIn state ss =
     ss\<lparr>ss_health := map_option (\<lambda>(st, f).
          snd (Status_Write (hv_now env) (hv_now2 env) (hv_io env) (SetConnection connected loggedIn st, f)))
          (ss_health ss),
        ss_states := ss_states ss @ [state]\<rparr>"

definition setConnected :: "health_env \<Rightarrow> bool \<Rightarrow> string \<Rightarrow> session \<Rightarrow> session" where
  "setConnected env connected state = setConnection env connected connected state"

definition send_fatal :: "go_error \<Rightarrow> session \<Rightarrow> session" where
  "send_fatal e ss = ss\<lparr>ss_fatal := try_send 1 e (ss_fatal ss)\<rparr>"

fun handleConnectionEvent :: "health_env \<Rightarrow> conn_event \<Rightarrow> session \<Rightarrow> bool \<times> session" where
  "handleConnectionEvent env Connected ss =
     (let ss1 = setConnection env True True ''connected'' ss
      in (True, ss1\<lparr>ss_connected := try_send 1 () (ss_connected ss1)\<rparr>))"
| "handleConnectionEvent env Disconnected ss =
     (True, setConnection env False False ''disconnected'' ss)"
| "handleConnectionEvent env (LoggedOut reason) ss =
     (True, send_fatal (ErrMsg (''WhatsApp logged out: '' @ reason))
        (setConnection env False False ''logged_out'' ss))"
| "handleConnectionEvent env StreamReplaced ss =
     (True, send_fatal (ErrMsg ''WhatsApp stream replaced by another client'')
        (setConnection env False False ''stream_replaced'' ss))"
| "handleConnectionEvent env (PermanentDisconnect d) ss =
     (True, send_fatal (ErrMsg (''WhatsApp permanent disconnect: '' @ d))
        (setConnection env False False ''permanent_disconnect'' ss))"
| "handleConnectionEvent env OtherEvent ss = (False, ss)"

section \<open>Waiting until the client is ready\<close>

text \<open>
  One pass of the loop: what the client says, and what the select then receives. The list is
  what happens over time; \<open>None\<close> means that the loop is still waiting at its end.
\<close>

datatype wake = WakeContext go_error | WakeConnected | WakeTick | WakeTimer bool bool

definition show_bool :: "bool \<Rightarrow> string" where
  "show_bool b = (if b then ''true'' else ''false'')"

definition ready_timeout_error :: "string \<Rightarrow> bool \<Rightarrow> bool \<Rightarrow> go_error" where
  "ready_timeout_error shown c l =
     ErrMsg (''timed out waiting '' @ shown @ '' for WhatsApp serve readiness (connected='' @
       show_bool c @ '' logged_in='' @ show_bool l @ '')'')"

fun waitForClientReady :: "string \<Rightarrow> ((bool \<times> bool) \<times> wake) list \<Rightarrow> go_error option option" where
  "waitForClientReady shown [] = None"
| "waitForClientReady shown (((connected, loggedIn), w) # rest) =
     (if connected \<and> loggedIn then Some None
      else case w of
             WakeContext e \<Rightarrow> Some (Some e)
           | WakeTimer c l \<Rightarrow> Some (Some (ready_timeout_error shown c l))
           | _ \<Rightarrow> waitForClientReady shown rest)"

section \<open>The message queue\<close>

definition messageQueueSize :: nat where "messageQueueSize = 128"

text \<open>
  The channel between whatsmeow's event handler and the single worker. Everybody else can
  run between two statements of either, so a step is one statement: the handler's select, the
  \<open>len(messages)\<close> of an update of the depth, its store in the health status. \<open>qs_calls\<close> are the
  calls of the handler that have sent their message and owe an update, with the length once
  they have read it; \<open>qs_depth\<close> is the depth in the health status, \<open>None\<close> without one;
  \<open>qs_handled\<close> is what the worker has handled, in order.
\<close>

datatype worker_pc =
    Receiving
  | Received event_message
  | ReceivedLen event_message nat
  | Handling event_message
  | HandledMessage
  | HandledLen nat
  | WorkerDone

record queue_state =
  qs_queue :: "event_message list"
  qs_calls :: "nat option list"
  qs_worker :: worker_pc
  qs_handled :: "event_message list"
  qs_dropped :: "event_message list"
  qs_depth :: "int option"

definition new_queue :: "bool \<Rightarrow> queue_state" where
  "new_queue has_health = \<lparr>qs_queue = [], qs_calls = [], qs_worker = Receiving, qs_handled = [],
     qs_dropped = [], qs_depth = (if has_health then Some 0 else None)\<rparr>"

text \<open>The handler's select: the message is sent if the channel has room, else it is dropped.\<close>

definition deliver :: "event_message \<Rightarrow> queue_state \<Rightarrow> queue_state" where
  "deliver msg q =
     (if length (qs_queue q) < messageQueueSize
      then q\<lparr>qs_queue := qs_queue q @ [msg], qs_calls := qs_calls q @ [None]\<rparr>
      else q\<lparr>qs_dropped := qs_dropped q @ [msg]\<rparr>)"

definition set_depth :: "nat \<Rightarrow> queue_state \<Rightarrow> queue_state" where
  "set_depth n q = q\<lparr>qs_depth := map_option (\<lambda>_. int n) (qs_depth q)\<rparr>"

text \<open>The next statement of the \<open>i\<close>-th call of the handler that owes an update.\<close>

definition handler_step :: "nat \<Rightarrow> queue_state \<Rightarrow> queue_state" where
  "handler_step i q =
     (if i < length (qs_calls q)
      then case qs_calls q ! i of
             None \<Rightarrow> q\<lparr>qs_calls := (qs_calls q)[i := Some (length (qs_queue q))]\<rparr>
           | Some n \<Rightarrow> set_depth n q\<lparr>qs_calls := take i (qs_calls q) @ drop (Suc i) (qs_calls q)\<rparr>
      else q)"

text \<open>The next statement of the worker; it waits while it receives from an empty channel.\<close>

definition worker_step :: "queue_state \<Rightarrow> queue_state" where
  "worker_step q =
     (case qs_worker q of
        Receiving \<Rightarrow>
          (case qs_queue q of
             [] \<Rightarrow> q
           | msg # rest \<Rightarrow> q\<lparr>qs_queue := rest, qs_worker := Received msg\<rparr>)
      | Received msg \<Rightarrow> q\<lparr>qs_worker := ReceivedLen msg (length (qs_queue q))\<rparr>
      | ReceivedLen msg n \<Rightarrow> set_depth n q\<lparr>qs_worker := Handling msg\<rparr>
      | Handling msg \<Rightarrow> q\<lparr>qs_handled := qs_handled q @ [msg], qs_worker := HandledMessage\<rparr>
      | HandledMessage \<Rightarrow> q\<lparr>qs_worker := HandledLen (length (qs_queue q))\<rparr>
      | HandledLen n \<Rightarrow> set_depth n q\<lparr>qs_worker := Receiving\<rparr>
      | WorkerDone \<Rightarrow> q)"

text \<open>The worker's select takes the end of the context instead.\<close>

definition worker_stop :: "queue_state \<Rightarrow> queue_state" where
  "worker_stop q = (if qs_worker q = Receiving then q\<lparr>qs_worker := WorkerDone\<rparr> else q)"

section \<open>Event dispatch\<close>

record history_result =
  hr_Event :: history_event
  hr_Stats :: historySyncStats
  hr_ProcessedAt :: int

text \<open>
  What the event handler of \<open>Serve\<close> shares with its goroutines; for a message \<open>serve_event\<close> is
  its select, the update that may follow is \<open>handler_step\<close>. \<open>sv_syncs\<close> are the history
  syncs being handled, \<open>sv_processed\<close> the channel of capacity eight to the backfill.
\<close>

record serve_state =
  sv_session :: session
  sv_queue :: queue_state
  sv_syncs :: "history_event list"
  sv_processed :: "history_result list"
  sv_closed :: bool

datatype raw_event =
    RawConnection conn_event
  | RawMessage event_message
  | RawPairSuccess
  | RawHistorySync history_event

fun serve_event :: "health_env \<Rightarrow> raw_event \<Rightarrow> serve_state \<Rightarrow> serve_state" where
  "serve_event env (RawConnection e) sv =
     sv\<lparr>sv_session := snd (handleConnectionEvent env e (sv_session sv))\<rparr>"
| "serve_event env (RawMessage m) sv = sv\<lparr>sv_queue := deliver m (sv_queue sv)\<rparr>"
| "serve_event env RawPairSuccess sv = sv"
| "serve_event env (RawHistorySync evt) sv =
     (if sv_closed sv then sv else sv\<lparr>sv_syncs := sv_syncs sv @ [evt]\<rparr>)"

text \<open>The end of the goroutine that handled \<open>evt\<close>.\<close>

definition sync_done :: "history_event \<Rightarrow> historySyncStats \<Rightarrow> int \<Rightarrow> serve_state \<Rightarrow> serve_state" where
  "sync_done evt stats now sv =
     sv\<lparr>sv_syncs := remove1 evt (sv_syncs sv),
        sv_processed :=
          (if isOnDemandHistorySync evt
           then try_send 8 \<lparr>hr_Event = evt, hr_Stats = stats, hr_ProcessedAt = now\<rparr> (sv_processed sv)
           else sv_processed sv)\<rparr>"

section \<open>Starting a session\<close>

text \<open>What the environment answers while the client is opened; whether the container is left open.\<close>

record open_env =
  oe_abs :: "go_error + string"
  oe_mkdir :: "go_error option"
  oe_store :: "go_error option"
  oe_device :: "go_error option"

definition sqliteDSN :: "string \<Rightarrow> string" where
  "sqliteDSN path = ''file:'' @ path @ ''?_foreign_keys=on&_busy_timeout=5000''"

text \<open>The result, and the DSNs whose container is open afterwards.\<close>

definition openClient :: "open_env \<Rightarrow> string \<Rightarrow> (go_error + string) \<times> string list" where
  "openClient env authDB =
     (if strings_TrimSpace authDB = [] then (Inl (ErrMsg ''missing auth db path''), [])
      else case oe_abs env of Inl e \<Rightarrow> (Inl e, [])
      | Inr path \<Rightarrow>
          (case oe_mkdir env of Some e \<Rightarrow> (Inl e, []) | None \<Rightarrow>
          (case oe_store env of Some e \<Rightarrow> (Inl e, []) | None \<Rightarrow>
          (case oe_device env of Some e \<Rightarrow> (Inl e, [])
           | None \<Rightarrow> (Inr (sqliteDSN path), [sqliteDSN path])))))"

text \<open>
  \<open>Serve\<close> from its call to its return: the stages in order, each of which may end it, and the
  select that waits for the end of the context or for a fatal event. \<open>se_events\<close> are the
  connection events delivered until then, \<open>se_prefer_ctx\<close> the choice of the select when both
  are there. The deferred clean-up closes the container however the call ends.
\<close>

record serve_env =
  se_has_handler :: bool
  se_open :: open_env
  se_paired :: bool
  se_start :: health_env
  se_connect :: "go_error option"
  se_ready :: "((bool \<times> bool) \<times> wake) list"
  se_serve_ready :: "go_error option option"
  se_events :: "(health_env \<times> conn_event) list"
  se_ctx_done :: bool
  se_prefer_ctx :: bool

datatype serve_result = ServeReturned "go_error option" | ServeWaiting

definition conn_run :: "(health_env \<times> conn_event) list \<Rightarrow> session \<Rightarrow> session" where
  "conn_run es ss = foldl (\<lambda>ss (env, e). snd (handleConnectionEvent env e ss)) ss es"

definition serve_select :: "serve_env \<Rightarrow> session \<Rightarrow> serve_result" where
  "serve_select env ss =
     (case ss_fatal ss of
        [] \<Rightarrow> if se_ctx_done env then ServeReturned None else ServeWaiting
      | e # _ \<Rightarrow> if se_ctx_done env \<and> se_prefer_ctx env then ServeReturned None
                 else ServeReturned (Some e))"

definition Serve :: "serve_env \<Rightarrow> string \<Rightarrow> session \<Rightarrow> serve_result \<times> string list \<times> session" where
  "Serve env authDB ss =
     (if \<not> se_has_handler env then (ServeReturned (Some (ErrMsg ''missing listener handler'')), [], ss)
      else case openClient (se_open env) authDB of
        (Inl e, left) \<Rightarrow> (ServeReturned (Some e), left, ss)
      | (Inr dsn, left) \<Rightarrow>
          let closed = remove1 dsn left in
          if \<not> se_paired env
          then (ServeReturned (Some (ErrMsg ''WhatsApp is not paired; run whatsapp-daemon pair first'')), closed, ss)
          else
            let hv = se_start env;
                ss0 = ss\<lparr>ss_health := map_option (\<lambda>(st, f).
                  snd (Status_Write (hv_now hv) (hv_now2 hv) (hv_io hv) (SetConnected False st, f))) (ss_health ss)\<rparr>;
                ss1 = conn_run (se_events env) ss0
            in case se_connect env of
            Some e \<Rightarrow> (ServeReturned (Some e), closed, ss1)
          | None \<Rightarrow>
              (case waitForClientReady ''30s'' (se_ready env) of
                 None \<Rightarrow> (ServeWaiting, left, ss1)
               | Some (Some e) \<Rightarrow> (ServeReturned (Some e), closed, ss1)
               | Some None \<Rightarrow>
                   (case se_serve_ready env of
                      Some (Some e) \<Rightarrow> (ServeReturned (Some e), closed, ss1)
                    | _ \<Rightarrow>
                        (case serve_select env ss1 of
                           ServeWaiting \<Rightarrow> (ServeWaiting, left, ss1)
                         | r \<Rightarrow> (r, closed, ss1)))))"

section \<open>Pairing\<close>

datatype settle = SettledEvent | SettleTimeout

datatype pair_input =
    PairTimeout go_error
  | QRClosed
  | QRCode string
  | QRError go_error
  | QRSuccess settle
  | QROther string

text \<open>The loop of \<open>Pair\<close> over what it receives (names of events need no escaping between
  quotes); \<open>None\<close> means that it is still waiting.\<close>

fun pair_loop :: "pair_input list \<Rightarrow> go_error option option" where
  "pair_loop [] = None"
| "pair_loop (i # rest) =
     (case i of
        PairTimeout e \<Rightarrow> Some (Some (ErrWrap ''pairing timed out: '' e []))
      | QRClosed \<Rightarrow> Some (Some (ErrMsg ''pairing QR channel closed before success''))
      | QRCode c \<Rightarrow> pair_loop rest
      | QRError e \<Rightarrow> Some (Some (ErrWrap ''pairing failed: '' e []))
      | QRSuccess st \<Rightarrow> Some None
      | QROther name \<Rightarrow> Some (Some (ErrMsg (''pairing ended with event '' @ [CHR 0x22] @ name @ [CHR 0x22]))))"

definition Pair ::
  "open_env \<Rightarrow> string \<Rightarrow> bool \<Rightarrow> go_error option \<Rightarrow> go_error option \<Rightarrow> pair_input list \<Rightarrow>
     go_error option option" where
  "Pair env authDB already_paired qr_err connect_err inputs =
     (case openClient env authDB of
        (Inl e, _) \<Rightarrow> Some (Some e)
      | (Inr dsn, _) \<Rightarrow>
          if already_paired then Some None
          else case qr_err of Some e \<Rightarrow> Some (Some e)
          | None \<Rightarrow> (case connect_err of Some e \<Rightarrow> Some (Some e) | None \<Rightarrow> pair_loop inputs))"

end
