(* ===== verification/Go_Time_Parse.thy ===== *)
theory Go_Time_Parse
  imports Go_Time
begin

text \<open>
  \<open>time.Parse\<close> for the three layouts of the sources. A layout is the list of its chunks. A
  time is its Unix second, rounded down, and its nanoseconds, which is all that \<open>Unix()\<close> and
  \<open>IsZero()\<close> look at; every error is \<open>None\<close>, as no caller tells them apart.
\<close>

datatype time_chunk = Literal string | LongYear | ZeroMonth | ZeroDay | Hour | ZeroMinute | ZeroSecond | ColonTZ

definition RFC3339 :: "time_chunk list" where
  "RFC3339 = [LongYear, Literal ''-'', ZeroMonth, Literal ''-'', ZeroDay, Literal ''T'', Hour, Literal '':'',
     ZeroMinute, Literal '':'', ZeroSecond, ColonTZ]"

definition DateTime :: "time_chunk list" where
  "DateTime = [LongYear, Literal ''-'', ZeroMonth, Literal ''-'', ZeroDay, Literal '' '', Hour, Literal '':'',
     ZeroMinute, Literal '':'', ZeroSecond]"

definition DateOnly :: "time_chunk list" where
  "DateOnly = [LongYear, Literal ''-'', ZeroMonth, Literal ''-'', ZeroDay]"

record time_fields =
  tf_year :: int
  tf_month :: nat
  tf_day :: int
  tf_hour :: int
  tf_min :: int
  tf_sec :: int
  tf_nsec :: nat
  tf_offset :: int

definition no_fields :: time_fields where
  "no_fields = \<lparr>tf_year = 0, tf_month = 1, tf_day = 1, tf_hour = 0, tf_min = 0, tf_sec = 0, tf_nsec = 0,
     tf_offset = 0\<rparr>"

definition digit_at :: "string \<Rightarrow> nat \<Rightarrow> bool" where
  "digit_at s n \<longleftrightarrow> n < length s \<and> is_digit (s ! n)"

definition digit_num :: "char \<Rightarrow> nat" where
  "digit_num c = byte c - 48"

text \<open>One or two digits, or exactly two.\<close>

definition getnum :: "string \<Rightarrow> bool \<Rightarrow> (nat \<times> string) option" where
  "getnum s fixed =
     (if \<not> digit_at s 0 then None
      else if digit_at s 1 then Some (10 * digit_num (s ! 0) + digit_num (s ! 1), drop 2 s)
      else if fixed then None else Some (digit_num (s ! 0), drop 1 s))"

text \<open>\<open>skip\<close>: a space of the layout stands for any number of spaces.\<close>

function skip_literal :: "string \<Rightarrow> string \<Rightarrow> string option" where
  "skip_literal [] v = Some v"
| "skip_literal (p # ps) v =
     (if p = CHR '' '' then
        (if v \<noteq> [] \<and> hd v \<noteq> CHR '' '' then None
         else skip_literal (dropWhile (\<lambda>c. c = CHR '' '') ps) (dropWhile (\<lambda>c. c = CHR '' '') v))
      else if v = [] \<or> hd v \<noteq> p then None else skip_literal ps (tl v))"
  by pat_completeness auto
termination
  by (relation "measure (\<lambda>(p, v). length p)") (auto simp: le_imp_less_Suc length_dropWhile_le)

text \<open>A fraction of a second that the layout does not mention: at most nine digits count.\<close>

definition fraction_digits :: "string \<Rightarrow> string" where
  "fraction_digits v =
     (if v \<noteq> [] \<and> (hd v = CHR ''.'' \<or> hd v = CHR '','') then takeWhile is_digit (tl v) else [])"

definition nanoseconds :: "string \<Rightarrow> nat" where
  "nanoseconds ds = (case digits_value 0 (take 9 ds) of None \<Rightarrow> 0 | Some n \<Rightarrow> n * 10 ^ (9 - length (take 9 ds)))"

text \<open>\<open>Z\<close>, or a sign, two digits, a colon and two digits; hours up to 24 and minutes up to 60.\<close>

definition parse_zone :: "string \<Rightarrow> (int \<times> string) option" where
  "parse_zone v =
     (if v \<noteq> [] \<and> hd v = CHR ''Z'' then Some (0, tl v)
      else if length v < 6 \<or> v ! 3 \<noteq> CHR '':'' then None
      else case (getnum (take 2 (drop 1 v)) True, getnum (take 2 (drop 4 v)) True) of
        (Some (h, _), Some (m, _)) \<Rightarrow>
          if h > 24 \<or> m > 60 then None
          else if hd v = CHR ''+'' then Some (60 * (60 * int h + int m), drop 6 v)
          else if hd v = CHR ''-'' then Some (- (60 * (60 * int h + int m)), drop 6 v)
          else None
      | _ \<Rightarrow> None)"

fun parse_chunk :: "time_chunk \<Rightarrow> string \<Rightarrow> time_fields \<Rightarrow> (time_fields \<times> string) option" where
  "parse_chunk (Literal p) v f = map_option (Pair f) (skip_literal p v)"
| "parse_chunk LongYear v f =
     (if length v < 4 \<or> \<not> list_all is_digit (take 4 v) then None
      else case digits_value 0 (take 4 v) of
        None \<Rightarrow> None | Some y \<Rightarrow> Some (f\<lparr>tf_year := int y\<rparr>, drop 4 v))"
| "parse_chunk ZeroMonth v f =
     (case getnum v True of None \<Rightarrow> None
      | Some (m, r) \<Rightarrow> if m = 0 \<or> 12 < m then None else Some (f\<lparr>tf_month := m\<rparr>, r))"
| "parse_chunk ZeroDay v f =
     (case getnum v True of None \<Rightarrow> None | Some (d, r) \<Rightarrow> Some (f\<lparr>tf_day := int d\<rparr>, r))"
| "parse_chunk Hour v f =
     (case getnum v False of None \<Rightarrow> None
      | Some (h, r) \<Rightarrow> if 24 \<le> h then None else Some (f\<lparr>tf_hour := int h\<rparr>, r))"
| "parse_chunk ZeroMinute v f =
     (case getnum v True of None \<Rightarrow> None
      | Some (m, r) \<Rightarrow> if 60 \<le> m then None else Some (f\<lparr>tf_min := int m\<rparr>, r))"
| "parse_chunk ZeroSecond v f =
     (case getnum v True of None \<Rightarrow> None
      | Some (s, r) \<Rightarrow>
          if 60 \<le> s then None
          else let ds = fraction_digits r
               in if ds = [] then Some (f\<lparr>tf_sec := int s\<rparr>, r)
                  else Some (f\<lparr>tf_sec := int s, tf_nsec := nanoseconds ds\<rparr>, drop (Suc (length ds)) r))"
| "parse_chunk ColonTZ v f =
     (case parse_zone v of None \<Rightarrow> None | Some (z, r) \<Rightarrow> Some (f\<lparr>tf_offset := z\<rparr>, r))"

fun parse_chunks :: "time_chunk list \<Rightarrow> string \<Rightarrow> time_fields \<Rightarrow> time_fields option" where
  "parse_chunks [] v f = (if v = [] then Some f else None)"
| "parse_chunks (c # cs) v f =
     (case parse_chunk c v f of None \<Rightarrow> None | Some (f', r) \<Rightarrow> parse_chunks cs r f')"

section \<open>From a date to its day\<close>

definition days_before_year :: "int \<Rightarrow> int" where
  "days_before_year y = 365 * (y - 1) + (y - 1) div 4 - (y - 1) div 100 + (y - 1) div 400"

definition days_in :: "int \<Rightarrow> nat \<Rightarrow> int" where
  "days_in y m = month_lengths (is_leap y) ! (m - 1)"

definition day_number :: "int \<Rightarrow> nat \<Rightarrow> int \<Rightarrow> int" where
  "day_number y m d = days_before_year y + sum_list (take (m - 1) (month_lengths (is_leap y))) + d - 1"

text \<open>\<open>time.Date\<close> in UTC, for fields in range.\<close>

definition unix_of_fields :: "time_fields \<Rightarrow> int" where
  "unix_of_fields f =
     (day_number (tf_year f) (tf_month f) (tf_day f) - 719162) * 86400 +
     3600 * tf_hour f + 60 * tf_min f + tf_sec f - tf_offset f"

type_synonym go_time = "int \<times> nat"

text \<open>\<open>time.Time{}\<close>, the start of the year 1.\<close>

definition zero_time :: go_time where
  "zero_time = (- 62135596800, 0)"

definition time_Parse :: "time_chunk list \<Rightarrow> string \<Rightarrow> go_time option" where
  "time_Parse layout value =
     (case parse_chunks layout value no_fields of
        None \<Rightarrow> None
      | Some f \<Rightarrow>
          if tf_day f < 1 \<or> tf_day f > days_in (tf_year f) (tf_month f) then None
          else Some (unix_of_fields f, tf_nsec f))"

section \<open>Days and dates are inverse\<close>

lemma days_before_year_decomp:
  assumes "0 \<le> b" "b \<le> 3" "0 \<le> c" "c \<le> 24" "0 \<le> f" "f \<le> 3"
  shows "days_before_year (400 * a + 100 * b + 4 * c + f + 1) = 146097 * a + 36524 * b + 1461 * c + 365 * f"
proof -
  let ?z = "400 * a + 100 * b + 4 * c + f"
  have "?z div 4 = 100 * a + 25 * b + c" using assms by (intro int_div_pos_eq [where r = f]) auto
  moreover have "?z div 100 = 4 * a + b" using assms by (intro int_div_pos_eq [where r = "4 * c + f"]) auto
  moreover have "?z div 400 = a" using assms by (intro int_div_pos_eq [where r = "100 * b + 4 * c + f"]) auto
  ultimately show ?thesis by (simp add: days_before_year_def)
qed

lemma days_before_year_day: "days_before_year (fst (year_day d)) + snd (year_day d) = d"
proof -
  obtain a b c f yd where "year_day d = (400 * a + 100 * b + 4 * c + f + 1, yd)"
    "d = 146097 * a + 36524 * b + 1461 * c + 365 * f + yd"
    "0 \<le> b" "b \<le> 3" "0 \<le> c" "c \<le> 24" "0 \<le> f" "f \<le> 3"
    by (rule year_day_decomp [of d])
  then show ?thesis by (simp add: days_before_year_decomp)
qed

lemma month_day_sum:
  assumes "0 \<le> d" "d < sum_list ls" "month_day m ls d = (m', dd)"
  shows "m \<le> m' \<and> m' < m + length ls \<and> 1 \<le> dd \<and> dd \<le> ls ! (m' - m) \<and>
    d = sum_list (take (m' - m) ls) + dd - 1"
  using assms
proof (induction m ls d arbitrary: m' dd rule: month_day.induct)
  case (2 m l ls d)
  show ?case
  proof (cases "d < l")
    case False
    then have "Suc m \<le> m' \<and> m' < Suc m + length ls \<and> 1 \<le> dd \<and> dd \<le> ls ! (m' - Suc m) \<and>
        d - l = sum_list (take (m' - Suc m) ls) + dd - 1"
      using "2.IH" "2.prems" by simp
    moreover from this have "m' - m = Suc (m' - Suc m)" by linarith
    ultimately show ?thesis by simp
  qed (use 2 in auto)
qed simp

lemma is_leap_400: "is_leap (400 * k)"
proof -
  have "400 * k mod 4 = 0" using mod_mult_self1_is_0 [of 4 "100 * k"] by simp
  then show ?thesis by (simp add: is_leap_def)
qed

lemma year_day_range:
  shows "0 \<le> snd (year_day d)" "snd (year_day d) < (if is_leap (fst (year_day d)) then 366 else 365)"
proof -
  define n400 where "n400 = d div 146097"
  define d1 where "d1 = d mod 146097"
  define n100 where "n100 = min 3 (d1 div 36524)"
  define d2 where "d2 = d1 - 36524 * n100"
  define n4 where "n4 = d2 div 1461"
  define d3 where "d3 = d2 mod 1461"
  define n1 where "n1 = min 3 (d3 div 365)"
  have yd: "year_day d = (400 * n400 + 100 * n100 + 4 * n4 + n1 + 1, d3 - 365 * n1)"
    unfolding year_day_def Let_def n400_def d1_def n100_def d2_def n4_def d3_def n1_def by (rule refl)
  have d1: "0 \<le> d1" "d1 < 146097" by (simp_all add: d1_def)
  note q1 = div_between [of 36524 d1, simplified]
  have q10: "0 \<le> d1 div 36524" using d1(1) by (simp add: pos_imp_zdiv_nonneg_iff)
  have d2: "0 \<le> n100" "n100 \<le> 3" "0 \<le> d2" "n100 < 3 \<longrightarrow> d2 < 36524" "d2 < 36525"
    using q1 q10 d1 unfolding d2_def n100_def by (auto simp: min_def)
  note q2 = div_between [of 1461 d2, simplified]
  have d3: "0 \<le> n4" "n4 \<le> 24" "0 \<le> d3" "d3 < 1461" "d2 = 1461 * n4 + d3"
  proof -
    show "0 \<le> n4" using d2(3) by (simp add: n4_def pos_imp_zdiv_nonneg_iff)
    show "n4 \<le> 24" using q2 d2(5) unfolding n4_def by linarith
    show "0 \<le> d3" "d3 < 1461" "d2 = 1461 * n4 + d3" by (simp_all add: d3_def n4_def)
  qed
  note q3 = div_between [of 365 d3, simplified]
  have q30: "0 \<le> d3 div 365" using d3(3) by (simp add: pos_imp_zdiv_nonneg_iff)
  have n1: "0 \<le> n1" "n1 \<le> 3" "0 \<le> d3 - 365 * n1" "n1 < 3 \<longrightarrow> d3 - 365 * n1 < 365" "d3 - 365 * n1 < 366"
    using q3 q30 d3(4) unfolding n1_def by (auto simp: min_def)
  show "0 \<le> snd (year_day d)" using n1(3) by (simp add: yd)
  have leap: "is_leap (400 * n400 + 100 * n100 + 4 * n4 + n1 + 1)" if "n1 = 3" "n4 \<noteq> 24 \<or> n100 = 3"
  proof -
    have y: "400 * n400 + 100 * n100 + 4 * n4 + n1 + 1 = 100 * (4 * n400 + n100) + 4 * (n4 + 1)" using that(1) by simp
    show ?thesis
    proof (cases "n4 = 24")
      case True
      then have "400 * n400 + 100 * n100 + 4 * n4 + n1 + 1 = 400 * (n400 + 1)" using that by simp
      then show ?thesis by (simp only: is_leap_400)
    next
      case False
      then have "(100 * (4 * n400 + n100) + 4 * (n4 + 1)) mod 100 = 4 * (n4 + 1)"
        using d3(1,2) by (intro int_mod_pos_eq [where q = "4 * n400 + n100"]) auto
      moreover have "(100 * (4 * n400 + n100) + 4 * (n4 + 1)) mod 4 = 0"
        using mod_mult_self1_is_0 [of 4 "25 * (4 * n400 + n100) + (n4 + 1)"] by (simp add: algebra_simps)
      ultimately show ?thesis unfolding y is_leap_def using d3(1) by simp
    qed
  qed
  show "snd (year_day d) < (if is_leap (fst (year_day d)) then 366 else 365)"
  proof (cases "n1 = 3 \<and> (n4 \<noteq> 24 \<or> n100 = 3)")
    case True
    then show ?thesis using leap n1(5) by (simp add: yd)
  next
    case False
    then have "d3 - 365 * n1 < 365"
      using n1(2,4) d2(2,4) d3(5) by auto
    then show ?thesis by (simp add: yd)
  qed
qed

lemma sum_month_lengths: "sum_list (month_lengths leap) = (if leap then 366 else 365)"
  by (simp add: month_lengths_def)

lemma civil_date_number:
  assumes "civil_date n = (y, m, d)"
  shows "1 \<le> m" "m \<le> 12" "1 \<le> d" "d \<le> days_in y m" "day_number y m d = n" "y = fst (year_day n)"
proof -
  show y: "y = fst (year_day n)" using assms by (simp add: civil_date_def Let_def split: prod.splits)
  have md: "month_day 1 (month_lengths (is_leap y)) (snd (year_day n)) = (m, d)"
    using assms by (auto simp: civil_date_def Let_def split: prod.splits)
  have "snd (year_day n) < sum_list (month_lengths (is_leap y))"
    using year_day_range(2) [of n] by (simp add: sum_month_lengths y)
  note * = month_day_sum [OF year_day_range(1) this md]
  then show "1 \<le> m" "m \<le> 12" "1 \<le> d" "d \<le> days_in y m" by (auto simp: days_in_def month_lengths_def)
  show "day_number y m d = n"
    using * days_before_year_day [of n] by (simp add: day_number_def y)
qed

section \<open>Printed numbers are read back\<close>

lemma show_nat_length: "n < 10 ^ w \<Longrightarrow> 0 < w \<Longrightarrow> length (show_nat n) \<le> w"
proof (induction n arbitrary: w rule: show_nat.induct)
  case (1 n)
  show ?case
  proof (cases "n < 10")
    case True
    then show ?thesis using "1.prems" by (subst show_nat.simps) simp
  next
    case False
    then obtain v where v: "w = Suc v" "0 < v" using "1.prems" by (cases w; cases "w - 1") auto
    then have "n div 10 < 10 ^ v" using "1.prems" by (simp add: less_mult_imp_div_less mult.commute)
    then show ?thesis using "1.IH" [OF False _ v(2)] False v(1) by (subst show_nat.simps) simp
  qed
qed

lemma digits_value_zeros: "digits_value 0 (replicate k CHR ''0'' @ s) = digits_value 0 s"
proof -
  have "is_digit CHR ''0''" "byte CHR ''0'' = 48" by code_simp+
  then show ?thesis by (induction k) simp_all
qed

lemma pad_int_digits:
  assumes "0 \<le> x" "x < 10 ^ w" "0 < w"
  shows "length (pad_int w x) = w" "list_all is_digit (pad_int w x)" "digits_value 0 (pad_int w x) = Some (nat x)"
proof -
  have "nat x < 10 ^ w" using assms by (simp add: nat_less_iff)
  then have "length (show_nat (nat x)) \<le> w" using assms(3) by (rule show_nat_length)
  then show "length (pad_int w x) = w" using assms(1) by (simp add: pad_int_def Let_def)
  have "is_digit CHR ''0''" by code_simp
  then show "list_all is_digit (pad_int w x)"
    using assms(1) show_nat_digits [of "nat x"] by (auto simp: pad_int_def Let_def list_all_iff)
  show "digits_value 0 (pad_int w x) = Some (nat x)"
    using assms(1) by (simp add: pad_int_def Let_def digits_value_zeros digits_value_show_nat)
qed

lemma getnum_pad:
  assumes "0 \<le> x" "x < 100"
  shows "getnum (pad_int 2 x @ r) fixed = Some (nat x, r)"
proof -
  note p = pad_int_digits [of x 2, simplified, OF assms]
  obtain a b where ab: "pad_int 2 x = [a, b]"
    using p(1) by (cases "pad_int 2 x"; cases "tl (pad_int 2 x)") auto
  then have "is_digit a" "is_digit b" "10 * digit_num a + digit_num b = nat x"
    using p(2,3) by (auto simp: digit_num_def)
  then show ?thesis by (simp add: getnum_def digit_at_def ab)
qed

lemma skip_one: "p \<noteq> CHR '' '' \<Longrightarrow> skip_literal [p] (p # v) = Some v"
  by simp

lemma parse_year_pad:
  assumes "0 \<le> y" "y < 10000"
  shows "parse_chunk LongYear (pad_int 4 y @ r) f = Some (f\<lparr>tf_year := y\<rparr>, r)"
  using pad_int_digits [of y 4, simplified, OF assms] assms(1) by simp

text \<open>What the layout RFC 3339 prints of a UTC time between the years 0 and 9999 is read back.\<close>

lemma seconds_of_day: "(t mod 86400) div 3600 * 3600 + (t mod 3600) div 60 * 60 + t mod 60 = (t :: int) mod 86400"
proof -
  have "t mod 3600 = t mod 86400 mod 3600" "t mod 60 = t mod 3600 mod 60"
    by (simp_all add: mod_mod_cancel)
  then show ?thesis
    using div_mult_mod_eq [of "t mod 86400" 3600] div_mult_mod_eq [of "t mod 3600" 60] by presburger
qed

lemma day_month_bounds:
  assumes "civil_date n = (y, m, d)"
  shows "int m < 100" "d < 100"
proof -
  note c = civil_date_number [OF assms]
  show "int m < 100" using c(2) by simp
  have "m - 1 < 12" using c(2) by simp
  then have "days_in y m \<in> set (month_lengths (is_leap y))"
    unfolding days_in_def by (intro nth_mem) (simp add: month_lengths_def)
  then show "d < 100" using c(4) by (auto simp: month_lengths_def split: if_splits)
qed

lemma time_Parse_format_rfc3339:
  assumes "utc_Date t = (y, m, d)" "0 \<le> y" "y < 10000"
  shows "time_Parse RFC3339 (format_rfc3339 t) = Some (t, 0)"
proof -
  have c: "civil_date (unix_day t + 719162) = (y, m, d)" using assms(1) by (simp add: utc_Date_def)
  note date = civil_date_number [OF c] and small = day_month_bounds [OF c]
  define h where "h = (t mod 86400) div 3600"
  define mi where "mi = (t mod 3600) div 60"
  define sec where "sec = t mod 60"
  have h: "0 \<le> h" "h < 24" and mi: "0 \<le> mi" "mi < 60" and sec: "0 \<le> sec" "sec < 60"
    using pos_mod_bound [of 86400 t] pos_mod_sign [of 86400 t] pos_mod_bound [of 3600 t] pos_mod_sign [of 3600 t]
      div_between(1) [of 3600 "t mod 86400"] div_between(1) [of 60 "t mod 3600"]
    by (simp_all add: h_def mi_def sec_def pos_imp_zdiv_nonneg_iff)
  have out: "format_rfc3339 t = pad_int 4 y @ ''-'' @ pad_int 2 (int m) @ ''-'' @ pad_int 2 d @ ''T'' @
      pad_int 2 h @ '':'' @ pad_int 2 mi @ '':'' @ pad_int 2 sec @ ''Z''"
    using assms(1) by (simp add: format_rfc3339_def date_ymd_def clock_hm_def h_def mi_def sec_def)
  define f where "f = no_fields\<lparr>tf_year := y, tf_month := m, tf_day := d, tf_hour := h, tf_min := mi, tf_sec := sec\<rparr>"
  have "parse_chunks RFC3339 (format_rfc3339 t) no_fields = Some f"
    unfolding out RFC3339_def f_def
    using parse_year_pad [OF assms(2,3)] date(1-4) small h mi sec
    by (simp add: getnum_pad fraction_digits_def parse_zone_def no_fields_def le_nat_iff del: parse_chunk.simps(2))
  moreover have "unix_of_fields f = t"
  proof -
    have "unix_of_fields f = t div 86400 * 86400 + (h * 3600 + mi * 60 + sec)"
      using date(5) by (simp add: unix_of_fields_def f_def no_fields_def unix_day_def)
    also have "h * 3600 + mi * 60 + sec = t mod 86400" unfolding h_def mi_def sec_def by (rule seconds_of_day)
    finally show ?thesis by simp
  qed
  ultimately show ?thesis
    using date(3,4) by (simp add: time_Parse_def f_def no_fields_def)
qed

end
