(* ===== verification/Backfill.thy ===== *)
theory Backfill
  imports Auth Go_Time_Parse
begin

text \<open>
  \<open>internal/backfill/backfill.go\<close>: asking WhatsApp for older messages. An anchor, a message
  the store already has, is sent with a count; the answer comes as an on-demand history
  sync, whose summary gives the next anchor. Durations and instants are nanoseconds. \<open>types.ParseJID\<close>
  is the parameter \<open>parse_jid\<close>; what a wait or a connection gives over time is a list.
\<close>

section \<open>Constants and errors\<close>

definition second :: int where "second = 1000000000"
definition millisecond :: int where "millisecond = 1000000"

definition DefaultChunkSize :: int where "DefaultChunkSize = 50"
definition DefaultResponseTimeout :: int where "DefaultResponseTimeout = 60 * second"
definition DefaultBackoff :: int where "DefaultBackoff = 2 * second"
definition DefaultPruneAge :: int where "DefaultPruneAge = 30 * 24 * 3600 * second"

definition ErrAnchorNotFound :: go_error where
  "ErrAnchorNotFound = ErrSentinel AnchorNotFound ''no local anchor message found''"

definition ErrChatNotAllowed :: go_error where
  "ErrChatNotAllowed = ErrSentinel ChatNotAllowed ''chat is not in the WhatsApp allowlist''"

definition ErrEnvelopeUnavailable :: go_error where
  "ErrEnvelopeUnavailable = ErrSentinel EnvelopeUnavailable
     ''envelope not available - server-side retention may have pruned it''"

definition ErrNilClient :: go_error where "ErrNilClient = ErrMsg ''nil whatsmeow client''"

section \<open>Anchors\<close>

record anchor =
  an_ChatJID :: string
  an_MsgID :: string
  an_SenderJID :: string
  an_Timestamp :: int64
  an_FromMe :: bool

definition empty_anchor :: anchor where
  "empty_anchor = \<lparr>an_ChatJID = [], an_MsgID = [], an_SenderJID = [], an_Timestamp = 0, an_FromMe = False\<rparr>"

record jid =
  jid_String :: string
  jid_Server :: string

record message_info =
  mi_Chat :: jid
  mi_Sender :: "jid option"
  mi_IsFromMe :: bool
  mi_IsGroup :: bool
  mi_ID :: string
  mi_Timestamp :: int64

text \<open>An empty sender JID is \<open>None\<close>; the group server is \<open>g.us\<close>.\<close>

definition MessageInfo :: "(string \<Rightarrow> go_error + jid) \<Rightarrow> anchor \<Rightarrow> go_error + message_info" where
  "MessageInfo parse_jid a =
     (if strings_TrimSpace (an_ChatJID a) = [] \<or> strings_TrimSpace (an_MsgID a) = [] \<or> an_Timestamp a = 0
      then Inl (ErrMsg ''anchor missing chat_jid, msg_id, or timestamp'')
      else case parse_jid (an_ChatJID a) of
        Inl e \<Rightarrow> Inl (ErrWrap ''parse anchor chat jid: '' e [])
      | Inr chat \<Rightarrow>
          (let info = (\<lambda>sender. \<lparr>mi_Chat = chat, mi_Sender = sender, mi_IsFromMe = an_FromMe a,
                 mi_IsGroup = (jid_Server chat = ''g.us''), mi_ID = an_MsgID a,
                 mi_Timestamp = an_Timestamp a\<rparr>)
           in if strings_TrimSpace (an_SenderJID a) = [] then Inr (info None)
              else case parse_jid (an_SenderJID a) of
                     Inl e \<Rightarrow> Inl (ErrWrap ''parse anchor sender jid: '' e [])
                   | Inr sender \<Rightarrow> Inr (info (Some sender))))"

text \<open>A result row of the driver, from column names to values.\<close>

datatype sql_value = SqlNull | SqlInt int64 | SqlText string

type_synonym sql_row = "string \<Rightarrow> sql_value option"

definition text_column :: "sql_row \<Rightarrow> string \<Rightarrow> string" where
  "text_column row c = (case row c of Some (SqlText s) \<Rightarrow> s | _ \<Rightarrow> [])"

definition anchorFromRow :: "(string \<Rightarrow> go_error + jid) \<Rightarrow> sql_row \<Rightarrow> go_error + anchor" where
  "anchorFromRow parse_jid row =
     (case row ''ts'' of
        Some (SqlInt ts) \<Rightarrow>
          (let a = \<lparr>an_ChatJID = text_column row ''chat_jid'', an_MsgID = text_column row ''msg_id'',
                 an_SenderJID = text_column row ''sender_jid'', an_Timestamp = ts,
                 an_FromMe = (case row ''from_me'' of Some (SqlInt n) \<Rightarrow> n \<noteq> 0 | _ \<Rightarrow> False)\<rparr>
           in case MessageInfo parse_jid a of Inl e \<Rightarrow> Inl e | Inr _ \<Rightarrow> Inr a)
      | _ \<Rightarrow> Inl (ErrMsg ''anchor row has non-integer ts''))"

text \<open>The columns that both queries select.\<close>

definition anchor_columns :: "message_row \<Rightarrow> sql_row" where
  "anchor_columns r = map_of
     [(''chat_jid'', SqlText (mr_chat_jid r)), (''msg_id'', SqlText (mr_msg_id r)),
      (''sender_jid'', SqlText (coalesce_empty (mr_sender_jid r))), (''ts'', SqlInt (mr_ts r)),
      (''from_me'', SqlInt (if mr_from_me r then 1 else 0))]"

text \<open>\<open>order by ts desc, ingested_at desc, source_pk desc limit 1\<close>.\<close>

definition newest_key :: "message_row \<Rightarrow> int list" where
  "newest_key r = [- mr_ts r, - mr_ingested_at r, - mr_source_pk r]"

definition newest_anchor ::
  "(string \<Rightarrow> go_error + jid) \<Rightarrow> go_error option \<Rightarrow> (message_row list \<Rightarrow> message_row list) \<Rightarrow>
     (message_row \<Rightarrow> bool) \<Rightarrow> tables \<Rightarrow> go_error + anchor" where
  "newest_anchor parse_jid fault scan p t =
     (case fault of
        Some e \<Rightarrow> Inl e
      | None \<Rightarrow>
          (case sort_key newest_key (filter p (scan (t_messages t))) of
             [] \<Rightarrow> Inl ErrAnchorNotFound
           | r # _ \<Rightarrow> anchorFromRow parse_jid (anchor_columns r)))"

text \<open>\<open>before\<close> is in seconds, \<open>None\<close> the zero time.\<close>

definition anchor_filter :: "string \<Rightarrow> int64 option \<Rightarrow> message_row \<Rightarrow> bool" where
  "anchor_filter chatJID before r \<longleftrightarrow>
     (strings_TrimSpace chatJID = [] \<or> mr_chat_jid r = chatJID) \<and>
     (case before of None \<Rightarrow> True | Some b \<Rightarrow> mr_ts r < b)"

definition latestAnchorFromDB ::
  "(string \<Rightarrow> go_error + jid) \<Rightarrow> go_error option \<Rightarrow> (message_row list \<Rightarrow> message_row list) \<Rightarrow>
     string \<Rightarrow> int64 option \<Rightarrow> tables \<Rightarrow> go_error + anchor" where
  "latestAnchorFromDB parse_jid fault scan chatJID before =
     newest_anchor parse_jid fault scan (anchor_filter chatJID before)"

record anchor_query =
  aq_ChatJID :: string
  aq_Before :: "int64 option"
  aq_FallbackAny :: bool

record anchor_env =
  ae_ctx :: "go_error option"
  ae_open :: "go_error option"
  ae_query :: "go_error option"
  ae_fallback :: "go_error option"
  ae_scan :: "message_row list \<Rightarrow> message_row list"

definition LatestAnchor ::
  "(string \<Rightarrow> go_error + jid) \<Rightarrow> anchor_env \<Rightarrow> anchor_query \<Rightarrow> tables \<Rightarrow> go_error + anchor" where
  "LatestAnchor parse_jid env q t =
     (case ae_ctx env of Some e \<Rightarrow> Inl e | None \<Rightarrow>
     (case ae_open env of Some e \<Rightarrow> Inl e | None \<Rightarrow>
     (case latestAnchorFromDB parse_jid (ae_query env) (ae_scan env) (aq_ChatJID q) (aq_Before q) t of
        Inr a \<Rightarrow> Inr a
      | Inl e \<Rightarrow>
          if \<not> errors_Is e AnchorNotFound \<or> \<not> aq_FallbackAny q then Inl e
          else latestAnchorFromDB parse_jid (ae_fallback env) (ae_scan env) [] (aq_Before q) t)))"

definition AnchorByMessageID ::
  "(string \<Rightarrow> go_error + jid) \<Rightarrow> anchor_env \<Rightarrow> string \<Rightarrow> string \<Rightarrow> tables \<Rightarrow> go_error + anchor" where
  "AnchorByMessageID parse_jid env chatJID0 msgID0 t =
     (case ae_ctx env of Some e \<Rightarrow> Inl e | None \<Rightarrow>
       (let chatJID = strings_TrimSpace chatJID0; msgID = strings_TrimSpace msgID0 in
        if chatJID = [] \<or> msgID = [] then Inl (ErrMsg ''anchor lookup requires chat_jid and msg_id'')
        else case ae_open env of Some e \<Rightarrow> Inl e
        | None \<Rightarrow> newest_anchor parse_jid (ae_query env) (ae_scan env)
            (\<lambda>r. mr_chat_jid r = chatJID \<and> mr_msg_id r = msgID) t))"

section \<open>Summaries\<close>

record summary =
  sm_SyncType :: string
  sm_Conversations :: nat
  sm_Messages :: nat
  sm_RequestedChatMessages :: nat
  sm_MediaEnvelopes :: nat
  sm_PrunedAgeMediaEnvelopes :: nat
  sm_MinTimestamp :: int64
  sm_MaxTimestamp :: int64
  sm_ChatJIDs :: "string list"
  sm_ContainsRequestedChat :: bool
  sm_SameDayBeforeAnchor :: bool
  sm_OldestRequestedChat :: anchor
  sm_OldestRequestedChatFound :: bool

definition zero_summary :: summary where
  "zero_summary = \<lparr>sm_SyncType = [], sm_Conversations = 0, sm_Messages = 0, sm_RequestedChatMessages = 0,
     sm_MediaEnvelopes = 0, sm_PrunedAgeMediaEnvelopes = 0, sm_MinTimestamp = 0, sm_MaxTimestamp = 0,
     sm_ChatJIDs = [], sm_ContainsRequestedChat = False, sm_SameDayBeforeAnchor = False,
     sm_OldestRequestedChat = empty_anchor, sm_OldestRequestedChatFound = False\<rparr>"

definition DateRange :: "summary \<Rightarrow> string" where
  "DateRange s =
     (if sm_MinTimestamp s = 0 \<or> sm_MaxTimestamp s = 0 then ''n/a''
      else if sm_MinTimestamp s = sm_MaxTimestamp s then format_rfc3339 (sm_MinTimestamp s)
      else format_rfc3339 (sm_MinTimestamp s) @ '' to '' @ format_rfc3339 (sm_MaxTimestamp s))"

definition Verdict :: "summary \<Rightarrow> bool \<times> string" where
  "Verdict s =
     (if sm_Messages s = 0 then (False, ''no ON_DEMAND messages returned'')
      else if sm_MediaEnvelopes s = 0 then (False, ''no image/document/video media envelopes returned'')
      else if \<not> sm_SameDayBeforeAnchor s then (False, ''no same-day messages before the anchor returned'')
      else (True, ''ON_DEMAND returned same-day message history with media envelopes''))"

definition validWebMessage :: "web_message option \<Rightarrow> bool" where
  "validWebMessage m =
     (case m of
        None \<Rightarrow> False
      | Some w \<Rightarrow>
          (case wb_key w of
             None \<Rightarrow> False
           | Some k \<Rightarrow> wk_id k \<noteq> [] \<and> wb_message w \<noteq> None \<and> wb_timestamp w \<noteq> 0))"

definition hasMediaEnvelope :: "wa_message option \<Rightarrow> bool" where
  "hasMediaEnvelope m =
     (case m of
        None \<Rightarrow> False
      | Some w \<Rightarrow> wm_image (wa_body w) \<noteq> None \<or> wm_document (wa_body w) \<noteq> None \<or> wm_video (wa_body w) \<noteq> None)"

definition sameUTCDay :: "int64 \<Rightarrow> int64 \<Rightarrow> bool" where
  "sameUTCDay a b = (if a = 0 \<or> b = 0 then False else utc_Date a = utc_Date b)"

text \<open>\<open>int64(webMsg.GetMessageTimestamp())\<close> of an unsigned 64-bit value.\<close>

definition message_ts :: "web_message \<Rightarrow> int64" where
  "message_ts w = wrap64 (int (wb_timestamp w))"

definition AnchorFromWebMessage :: "string \<Rightarrow> web_message option \<Rightarrow> anchor option" where
  "AnchorFromWebMessage chatJID m =
     (if \<not> validWebMessage m then None
      else case m of
        None \<Rightarrow> None
      | Some w \<Rightarrow>
          (case wb_key w of
             None \<Rightarrow> None
           | Some k \<Rightarrow>
               Some \<lparr>an_ChatJID = (if chatJID = [] then wk_remote k else chatJID), an_MsgID = wk_id k,
                 an_SenderJID = (if wk_participant k = [] \<and> \<not> wk_from_me k then wk_remote k
                                 else wk_participant k),
                 an_Timestamp = message_ts w, an_FromMe = wk_from_me k\<rparr>))"

definition oldest_of :: "anchor option \<Rightarrow> summary \<Rightarrow> summary" where
  "oldest_of a s =
     (case a of
        None \<Rightarrow> s
      | Some x \<Rightarrow>
          if \<not> sm_OldestRequestedChatFound s \<or> an_Timestamp x < an_Timestamp (sm_OldestRequestedChat s)
          then s\<lparr>sm_OldestRequestedChat := x, sm_OldestRequestedChatFound := True\<rparr> else s)"

text \<open>
  The body of the inner loop of \<open>SummarizeHistorySync\<close>; \<open>now\<close> is \<open>None\<close> for the zero time. The
  difference saturates in the source, which no comparison with thirty days can tell.
\<close>

definition summarize_message ::
  "int64 \<Rightarrow> string \<Rightarrow> int option \<Rightarrow> string \<Rightarrow> web_message option \<Rightarrow> summary \<Rightarrow> summary" where
  "summarize_message anchor_ts requested now chatJID m s =
     (case m of
        None \<Rightarrow> s
      | Some w \<Rightarrow>
          if \<not> validWebMessage m then s
          else
            let ts = message_ts w;
                s1 = s\<lparr>sm_Messages := sm_Messages s + 1,
                       sm_MinTimestamp := (if sm_MinTimestamp s = 0 \<or> ts < sm_MinTimestamp s then ts
                                           else sm_MinTimestamp s),
                       sm_MaxTimestamp := (if ts > sm_MaxTimestamp s then ts else sm_MaxTimestamp s)\<rparr>;
                s2 = (if hasMediaEnvelope (wb_message w)
                      then s1\<lparr>sm_MediaEnvelopes := sm_MediaEnvelopes s1 + 1,
                              sm_PrunedAgeMediaEnvelopes := sm_PrunedAgeMediaEnvelopes s1 +
                                (case now of None \<Rightarrow> 0
                                 | Some n \<Rightarrow> if n - time_Unix ts * second \<ge> DefaultPruneAge then 1 else 0)\<rparr>
                      else s1);
                s3 = (if sameUTCDay ts anchor_ts \<and> ts < anchor_ts
                      then s2\<lparr>sm_SameDayBeforeAnchor := True\<rparr> else s2)
            in if chatJID = requested
               then oldest_of (AnchorFromWebMessage chatJID m)
                      (s3\<lparr>sm_RequestedChatMessages := sm_RequestedChatMessages s3 + 1\<rparr>)
               else s3)"

text \<open>The set of chats is kept in the field that it ends in, as a list without duplicates.\<close>

definition note_conversation :: "string \<Rightarrow> string \<Rightarrow> summary \<Rightarrow> summary" where
  "note_conversation requested chatJID s =
     (let s1 = (if chatJID \<noteq> [] then s\<lparr>sm_ChatJIDs := List.insert chatJID (sm_ChatJIDs s)\<rparr> else s)
      in if chatJID = requested then s1\<lparr>sm_ContainsRequestedChat := True\<rparr> else s1)"

definition summarize_conversation ::
  "int64 \<Rightarrow> string \<Rightarrow> int option \<Rightarrow> conversation option \<Rightarrow> summary \<Rightarrow> summary" where
  "summarize_conversation anchor_ts requested now conv s =
     (case conv of
        None \<Rightarrow> s
      | Some c \<Rightarrow> fold (summarize_message anchor_ts requested now (cv_id c)) (cv_messages c)
          (note_conversation requested (cv_id c) s))"

definition SummarizeHistorySync :: "history_event \<Rightarrow> anchor \<Rightarrow> string \<Rightarrow> int option \<Rightarrow> summary" where
  "SummarizeHistorySync evt a requested now =
     (case evt of
        None \<Rightarrow> zero_summary\<lparr>sm_SyncType := ''unknown''\<rparr>
      | Some d \<Rightarrow>
          let s0 = zero_summary\<lparr>sm_SyncType := hd_sync_type d, sm_Conversations := length (hd_conversations d)\<rparr>;
              s = fold (summarize_conversation (an_Timestamp a) requested now) (hd_conversations d) s0
          in s\<lparr>sm_ChatJIDs := sort (sm_ChatJIDs s)\<rparr>)"

definition MergeStats :: "historySyncStats \<Rightarrow> historySyncStats \<Rightarrow> historySyncStats" where
  "MergeStats a b =
     a\<lparr>hs_SyncType := (if hs_SyncType a = [] then hs_SyncType b else hs_SyncType a),
       hs_Conversations := hs_Conversations a + hs_Conversations b,
       hs_AllowedConversations := hs_AllowedConversations a + hs_AllowedConversations b,
       hs_Messages := hs_Messages a + hs_Messages b,
       hs_Dispatched := hs_Dispatched a + hs_Dispatched b,
       hs_RowsInserted := hs_RowsInserted a + hs_RowsInserted b,
       hs_RowsUpdated := hs_RowsUpdated a + hs_RowsUpdated b,
       hs_MediaHydrated := hs_MediaHydrated a + hs_MediaHydrated b,
       hs_SkippedConversations := hs_SkippedConversations a + hs_SkippedConversations b,
       hs_SkippedMessages := hs_SkippedMessages a + hs_SkippedMessages b,
       hs_ParseErrors := hs_ParseErrors a + hs_ParseErrors b\<rparr>"

definition MergeSummaries :: "summary \<Rightarrow> summary \<Rightarrow> summary" where
  "MergeSummaries a b =
     (let s = a\<lparr>sm_SyncType := (if sm_SyncType a = [] then sm_SyncType b else sm_SyncType a),
            sm_Conversations := sm_Conversations a + sm_Conversations b,
            sm_Messages := sm_Messages a + sm_Messages b,
            sm_RequestedChatMessages := sm_RequestedChatMessages a + sm_RequestedChatMessages b,
            sm_MediaEnvelopes := sm_MediaEnvelopes a + sm_MediaEnvelopes b,
            sm_PrunedAgeMediaEnvelopes := sm_PrunedAgeMediaEnvelopes a + sm_PrunedAgeMediaEnvelopes b,
            sm_MinTimestamp := (if sm_MinTimestamp a = 0 \<or>
                (sm_MinTimestamp b \<noteq> 0 \<and> sm_MinTimestamp b < sm_MinTimestamp a)
              then sm_MinTimestamp b else sm_MinTimestamp a),
            sm_MaxTimestamp := (if sm_MaxTimestamp b > sm_MaxTimestamp a then sm_MaxTimestamp b
              else sm_MaxTimestamp a),
            sm_ContainsRequestedChat := sm_ContainsRequestedChat a \<or> sm_ContainsRequestedChat b,
            sm_SameDayBeforeAnchor := sm_SameDayBeforeAnchor a \<or> sm_SameDayBeforeAnchor b\<rparr>;
          s1 = oldest_of (if sm_OldestRequestedChatFound b then Some (sm_OldestRequestedChat b) else None) s
      in s1\<lparr>sm_ChatJIDs := sort (remdups (sm_ChatJIDs a @ sm_ChatJIDs b))\<rparr>)"

section \<open>Processing one on-demand sync\<close>

definition IsOnDemand :: "history_event \<Rightarrow> bool" where
  "IsOnDemand evt \<longleftrightarrow> (case evt of None \<Rightarrow> False | Some d \<Rightarrow> hd_on_demand d)"

text \<open>\<open>configFromOptions\<close>: the options' manager, else the handler's.\<close>

definition configFromOptions :: "manager option \<Rightarrow> manager option \<Rightarrow> manager option" where
  "configFromOptions opts_config handler_config =
     (case opts_config of Some m \<Rightarrow> Some m | None \<Rightarrow> handler_config)"

definition ProcessOnDemand ::
  "(string \<Rightarrow> string) \<Rightarrow> (string \<Rightarrow> string list option) \<Rightarrow>
     (event \<Rightarrow> 's \<Rightarrow> (result \<times> go_error option) \<times> 's) \<Rightarrow> history_env \<Rightarrow> bool \<Rightarrow> history_event \<Rightarrow> anchor \<Rightarrow>
     int option \<Rightarrow> handler \<Rightarrow> 's \<Rightarrow> (go_error + summary \<times> historySyncStats) \<times> handler \<times> 's" where
  "ProcessOnDemand ulower mime_exts put he has_config evt a now h s =
     (if \<not> IsOnDemand evt then (Inl (ErrMsg ''ignoring non-ON_DEMAND history sync''), h, s)
      else if has_config \<and> an_ChatJID a \<noteq> [] \<and> \<not> IsAllowed (h_Config h) (an_ChatJID a)
      then (Inl ErrChatNotAllowed, h, s)
      else
        case handleHistorySync ulower mime_exts put he has_config evt h s of
          (stats, h', s') \<Rightarrow> (Inr (SummarizeHistorySync evt a (an_ChatJID a) now, stats), h', s'))"

section \<open>Waiting for an answer\<close>

definition historySyncHasConversation :: "history_event \<Rightarrow> string \<Rightarrow> bool" where
  "historySyncHasConversation evt chatJID \<longleftrightarrow>
     (case evt of
        None \<Rightarrow> False
      | Some d \<Rightarrow> list_ex (\<lambda>c. case c of None \<Rightarrow> False | Some c \<Rightarrow> cv_id c = chatJID) (hd_conversations d))"

definition requestTimeout :: "int \<Rightarrow> int" where
  "requestTimeout timeout = (if timeout \<le> 0 then DefaultResponseTimeout else timeout)"

text \<open>What the select of a waiting loop receives, pass by pass; \<open>None\<close> is still waiting.\<close>

datatype 'a wait_input = WaitContext go_error | WaitTimer | WaitClosed | WaitValue 'a

fun wait_on_demand :: "('a \<Rightarrow> history_event) \<Rightarrow> string \<Rightarrow> 'a wait_input list \<Rightarrow> (go_error + 'a) option" where
  "wait_on_demand event_of chatJID [] = None"
| "wait_on_demand event_of chatJID (i # rest) =
     (case i of
        WaitContext e \<Rightarrow> Some (Inl e)
      | WaitTimer \<Rightarrow> Some (Inl ErrEnvelopeUnavailable)
      | WaitClosed \<Rightarrow> Some (Inl ErrEnvelopeUnavailable)
      | WaitValue v \<Rightarrow>
          if \<not> IsOnDemand (event_of v) then wait_on_demand event_of chatJID rest
          else if chatJID = [] \<or> historySyncHasConversation (event_of v) chatJID then Some (Inr v)
          else wait_on_demand event_of chatJID rest)"

definition WaitForOnDemand :: "string \<Rightarrow> history_event wait_input list \<Rightarrow> (go_error + history_event) option" where
  "WaitForOnDemand = wait_on_demand (\<lambda>e. e)"

definition WaitForProcessedOnDemand ::
  "string \<Rightarrow> history_result wait_input list \<Rightarrow> (go_error + history_result) option" where
  "WaitForProcessedOnDemand = wait_on_demand hr_Event"

definition ParseTimestamp :: "string \<Rightarrow> go_error + go_time" where
  "ParseTimestamp value0 =
     (let v = strings_TrimSpace value0 in
      if v = [] then Inr zero_time
      else case strconv_ParseInt v of
        Some secs \<Rightarrow> Inr (secs, 0)
      | None \<Rightarrow> (case time_Parse RFC3339 v of Some t \<Rightarrow> Inr t
      | None \<Rightarrow> (case time_Parse DateTime v of Some t \<Rightarrow> Inr t
      | None \<Rightarrow> (case time_Parse DateOnly v of Some t \<Rightarrow> Inr t
      | None \<Rightarrow> Inl (ErrMsg ''timestamp must be unix seconds, RFC3339, or YYYY-MM-DD'')))))"

section \<open>Sending a request\<close>

record send_options =
  so_ReadyTimeout :: int
  so_StableDuration :: int
  so_PollInterval :: int
  so_InitialBackoff :: int
  so_MaxBackoff :: int

definition defaultSendRetryOptions :: send_options where
  "defaultSendRetryOptions = \<lparr>so_ReadyTimeout = 10 * second, so_StableDuration = 750 * millisecond,
     so_PollInterval = 100 * millisecond, so_InitialBackoff = 250 * millisecond,
     so_MaxBackoff = 2 * second\<rparr>"

definition positive_or :: "int \<Rightarrow> int \<Rightarrow> int" where
  "positive_or d x = (if x \<le> 0 then d else x)"

definition normalizeSendRetryOptions :: "send_options \<Rightarrow> send_options" where
  "normalizeSendRetryOptions opts =
     (let d = defaultSendRetryOptions;
          init = positive_or (so_InitialBackoff d) (so_InitialBackoff opts);
          most = positive_or (so_MaxBackoff d) (so_MaxBackoff opts)
      in \<lparr>so_ReadyTimeout = positive_or (so_ReadyTimeout d) (so_ReadyTimeout opts),
          so_StableDuration = (if so_StableDuration opts < 0 then 0 else so_StableDuration opts),
          so_PollInterval = positive_or (so_PollInterval d) (so_PollInterval opts),
          so_InitialBackoff = (if init > most then most else init),
          so_MaxBackoff = most\<rparr>)"

record connection_snapshot =
  cs_connected :: bool
  cs_loggedIn :: bool

definition snapshot_ready :: "connection_snapshot \<Rightarrow> bool" where
  "snapshot_ready s \<longleftrightarrow> cs_connected s \<and> cs_loggedIn s"

text \<open>One pass of the polling loop: the instant, what the client says, what the select receives.\<close>

datatype poll_wake = PollContext go_error | PollTimer | PollTick

record poll =
  po_now :: int
  po_snap :: connection_snapshot
  po_wake :: poll_wake

fun poll_ready :: "send_options \<Rightarrow> int \<Rightarrow> int option \<Rightarrow> poll list \<Rightarrow> go_error option option" where
  "poll_ready opts timeout stableSince [] = None"
| "poll_ready opts timeout stableSince (p # rest) =
     (let since = (if snapshot_ready (po_snap p)
                   then (case stableSince of None \<Rightarrow> Some (po_now p) | Some t \<Rightarrow> Some t) else None)
      in if snapshot_ready (po_snap p) \<and>
            (so_StableDuration opts = 0 \<or>
             (case since of None \<Rightarrow> False | Some t \<Rightarrow> po_now p - t \<ge> so_StableDuration opts))
         then Some None
         else case po_wake p of
           PollContext e \<Rightarrow> Some (Some e)
         | PollTimer \<Rightarrow> Some (Some (ErrMsg (''timed out waiting '' @
             duration_String (duration_Round timeout millisecond) @
             '' for WhatsApp websocket send readiness (connected='' @ show_bool (cs_connected (po_snap p)) @
             '' logged_in='' @ show_bool (cs_loggedIn (po_snap p)) @ '')'')))
         | PollTick \<Rightarrow> poll_ready opts timeout since rest)"

definition waitForPeerSendReady :: "send_options \<Rightarrow> int \<Rightarrow> poll list \<Rightarrow> go_error option option" where
  "waitForPeerSendReady opts0 timeout polls =
     (let opts = normalizeSendRetryOptions opts0
      in poll_ready opts (if timeout \<le> 0 \<or> timeout > so_ReadyTimeout opts then so_ReadyTimeout opts else timeout)
           None polls)"

definition isTransientSendConnectionError :: "go_error \<Rightarrow> bool" where
  "isTransientSendConnectionError e = errors_Is e NotConnected"

text \<open>
  One attempt: the instants at which \<open>time.Until\<close> is read, the polls, the answer of
  \<open>SendPeerMessage\<close> and how the pause ended.
\<close>

record send_attempt =
  sa_start :: int
  sa_polls :: "poll list"
  sa_send :: "go_error + string"
  sa_after :: int
  sa_sleep :: "go_error option"

definition not_ready_after :: "send_options \<Rightarrow> go_error \<Rightarrow> go_error" where
  "not_ready_after opts e =
     ErrWrap (''history sync peer send not ready after '' @ duration_String (so_ReadyTimeout opts) @ '': '') e []"

fun send_loop ::
  "send_options \<Rightarrow> int \<Rightarrow> go_error option \<Rightarrow> int \<Rightarrow> send_attempt list \<Rightarrow> (go_error + string) option" where
  "send_loop opts deadline lastErr backoff [] = None"
| "send_loop opts deadline lastErr backoff (a # rest) =
     (if deadline - sa_start a \<le> 0
      then Some (Inl (case lastErr of
             Some e \<Rightarrow> not_ready_after opts e
           | None \<Rightarrow> ErrMsg (''timed out waiting '' @ duration_String (so_ReadyTimeout opts) @
               '' for WhatsApp websocket send readiness'')))
      else case waitForPeerSendReady opts (deadline - sa_start a) (sa_polls a) of
        None \<Rightarrow> None
      | Some (Some e) \<Rightarrow> Some (Inl (case lastErr of
            Some l \<Rightarrow> ErrWrap2 e '' after transient send failure: '' l | None \<Rightarrow> e))
      | Some None \<Rightarrow>
          (case sa_send a of
             Inr sid \<Rightarrow> Some (Inr sid)
           | Inl e \<Rightarrow>
               if \<not> isTransientSendConnectionError e then Some (Inl e)
               else
                 let remaining = deadline - sa_after a;
                     sleep = (if backoff > remaining then remaining else backoff)
                 in if sleep \<le> 0 then Some (Inl (not_ready_after opts e))
                    else case sa_sleep a of
                      Some e' \<Rightarrow> Some (Inl e')
                    | None \<Rightarrow>
                        let doubled = wrap64 (backoff * 2)
                        in send_loop opts deadline (Some e)
                             (if doubled > so_MaxBackoff opts then so_MaxBackoff opts else doubled) rest))"

text \<open>
  The request that is sent on every attempt, and the outcome. \<open>None\<close> in place of the outcome
  means that the call is still waiting when \<open>attempts\<close> ends.
\<close>

definition sendHistorySyncRequest ::
  "(string \<Rightarrow> go_error + jid) \<Rightarrow> bool \<Rightarrow> anchor \<Rightarrow> int \<Rightarrow> send_options \<Rightarrow> int \<Rightarrow> send_attempt list \<Rightarrow>
     (message_info \<times> int) option \<times> (go_error + string) option" where
  "sendHistorySyncRequest parse_jid has_client a count0 opts0 now attempts =
     (if \<not> has_client then (None, Some (Inl ErrNilClient))
      else if count0 \<le> 0 then (None, Some (Inl (ErrMsg ''history sync count must be positive'')))
      else
        let count = (if count0 > DefaultChunkSize then DefaultChunkSize else count0) in
        case MessageInfo parse_jid a of
          Inl e \<Rightarrow> (None, Some (Inl e))
        | Inr info \<Rightarrow>
            let opts = normalizeSendRetryOptions opts0 in
            (Some (info, count),
             send_loop opts (now + so_ReadyTimeout opts) None (so_InitialBackoff opts) attempts))"

definition SendHistorySyncRequest ::
  "(string \<Rightarrow> go_error + jid) \<Rightarrow> bool \<Rightarrow> anchor \<Rightarrow> int \<Rightarrow> int \<Rightarrow> send_attempt list \<Rightarrow>
     (message_info \<times> int) option \<times> (go_error + string) option" where
  "SendHistorySyncRequest parse_jid has_client a count =
     sendHistorySyncRequest parse_jid has_client a count defaultSendRetryOptions"

section \<open>Running a backfill\<close>

text \<open>
  A request; the callbacks act on a state of their own. \<open>rq_Limit\<close> and \<open>rq_ChunkSize\<close> are Go
  ints, \<open>rq_Timeout\<close> and \<open>rq_Backoff\<close> durations.
\<close>

record request_sent =
  rs_SendID :: string
  rs_Anchor :: anchor
  rs_Count :: int

record 's run_request =
  rq_ChatJID :: string
  rq_Anchor :: anchor
  rq_Limit :: int
  rq_ChunkSize :: int
  rq_Timeout :: int
  rq_Backoff :: int
  rq_OnRequestSent :: "request_sent \<Rightarrow> 's \<Rightarrow> go_error option \<times> 's"
  rq_OnHistorySyncReceived :: "summary \<Rightarrow> 's \<Rightarrow> go_error option \<times> 's"
  rq_OnHistorySyncIngested :: "historySyncStats \<Rightarrow> 's \<Rightarrow> go_error option \<times> 's"

record run_result =
  rr_Anchor :: anchor
  rr_Requested :: int
  rr_Chunks :: nat
  rr_Summary :: summary
  rr_Stats :: historySyncStats
  rr_LastSendID :: string
  rr_LastResponse :: "int option"

definition zero_stats :: historySyncStats where "zero_stats = new_stats []"

definition zero_run :: "anchor \<Rightarrow> run_result" where
  "zero_run a = \<lparr>rr_Anchor = a, rr_Requested = 0, rr_Chunks = 0, rr_Summary = zero_summary,
     rr_Stats = zero_stats, rr_LastSendID = [], rr_LastResponse = None\<rparr>"

text \<open>What one chunk meets: the clock and attempts of the send, the answers, the pause.\<close>

record chunk_env =
  ce_now :: int
  ce_attempts :: "send_attempt list"
  ce_answers :: "history_result wait_input list"
  ce_summary_now :: int
  ce_response_now :: int
  ce_sleep :: "go_error option"

text \<open>
  The answer to one chunk, its summary and the callbacks about it: how the run stops, or the
  next anchor.
\<close>

datatype chunk_end = ChunkStop go_error | ChunkNext anchor

definition chunk_answer ::
  "'s run_request \<Rightarrow> chunk_env \<Rightarrow> anchor \<Rightarrow> history_result \<Rightarrow> run_result \<Rightarrow> 's \<Rightarrow>
     chunk_end \<times> run_result \<times> 's" where
  "chunk_answer req env a processed r s =
     (let sm = SummarizeHistorySync (hr_Event processed) a (rq_ChatJID req) (Some (ce_summary_now env));
          r1 = r\<lparr>rr_Summary := MergeSummaries (rr_Summary r) sm,
                 rr_Stats := MergeStats (rr_Stats r) (hr_Stats processed),
                 rr_LastResponse := Some (ce_response_now env)\<rparr>
      in case rq_OnHistorySyncReceived req sm s of
           (Some e, s1) \<Rightarrow> (ChunkStop e, r1, s1)
         | (None, s1) \<Rightarrow>
             (case rq_OnHistorySyncIngested req (hr_Stats processed) s1 of
                (Some e, s2) \<Rightarrow> (ChunkStop e, r1, s2)
              | (None, s2) \<Rightarrow>
                  if sm_RequestedChatMessages sm = 0 \<or> \<not> sm_OldestRequestedChatFound sm
                  then (ChunkStop ErrEnvelopeUnavailable, r1, s2)
                  else (ChunkNext (sm_OldestRequestedChat sm), r1\<lparr>rr_Anchor := sm_OldestRequestedChat sm\<rparr>, s2)))"

text \<open>
  One chunk from the send to the answer; \<open>None\<close> means that it is still waiting.
\<close>

definition run_chunk ::
  "(string \<Rightarrow> go_error + jid) \<Rightarrow> bool \<Rightarrow> 's run_request \<Rightarrow> chunk_env \<Rightarrow> anchor \<Rightarrow> int \<Rightarrow> run_result \<Rightarrow> 's \<Rightarrow>
     chunk_end option \<times> run_result \<times> 's" where
  "run_chunk parse_jid has_client req env a count r s =
     (case snd (sendHistorySyncRequest parse_jid has_client a count defaultSendRetryOptions (ce_now env)
              (ce_attempts env)) of
        None \<Rightarrow> (None, r, s)
      | Some (Inl e) \<Rightarrow> (Some (ChunkStop e), r, s)
      | Some (Inr sid) \<Rightarrow>
          (let r1 = r\<lparr>rr_LastSendID := sid, rr_Requested := rr_Requested r + count,
                     rr_Chunks := rr_Chunks r + 1\<rparr>
           in case rq_OnRequestSent req \<lparr>rs_SendID = sid, rs_Anchor = a, rs_Count = count\<rparr> s of
                (Some e, s1) \<Rightarrow> (Some (ChunkStop e), r1, s1)
              | (None, s1) \<Rightarrow>
                  (case WaitForProcessedOnDemand (rq_ChatJID req) (ce_answers env) of
                     None \<Rightarrow> (None, r1, s1)
                   | Some (Inl e) \<Rightarrow> (Some (ChunkStop e), r1, s1)
                   | Some (Inr processed) \<Rightarrow>
                       (case chunk_answer req env a processed r1 s1 of (x, r2, s2) \<Rightarrow> (Some x, r2, s2)))))"

text \<open>
  The loop over the remaining count; \<open>io k\<close> is what the k-th chunk meets. The chunk size is
  never 0, which is in the guard only for the recursion.
\<close>

function run_chunks ::
  "(string \<Rightarrow> go_error + jid) \<Rightarrow> bool \<Rightarrow> 's run_request \<Rightarrow> (nat \<Rightarrow> chunk_env) \<Rightarrow> nat \<Rightarrow> nat \<Rightarrow> nat \<Rightarrow> anchor \<Rightarrow>
     run_result \<Rightarrow> 's \<Rightarrow> (run_result \<times> go_error option) option \<times> 's" where
  "run_chunks parse_jid has_client req io chunkSize remaining k a r s =
     (if remaining = 0 \<or> chunkSize = 0 then (Some (r, None), s)
      else
        let count = (if remaining < chunkSize then remaining else chunkSize) in
        case run_chunk parse_jid has_client req (io k) a (int count) r s of
          (None, _, s1) \<Rightarrow> (None, s1)
        | (Some (ChunkStop e), r1, s1) \<Rightarrow> (Some (r1, Some e), s1)
        | (Some (ChunkNext a1), r1, s1) \<Rightarrow>
            if remaining - count > 0
            then (case ce_sleep (io k) of
                    Some e \<Rightarrow> (Some (r1, Some e), s1)
                  | None \<Rightarrow> run_chunks parse_jid has_client req io chunkSize (remaining - count) (Suc k) a1 r1 s1)
            else (Some (r1, None), s1))"
  by pat_completeness auto
termination
  by (relation "measure (\<lambda>(parse_jid, has_client, req, io, chunkSize, remaining, k, a, r, s). remaining)") auto

declare run_chunks.simps [simp del]

text \<open>
  The pause of the source is \<open>rq_Backoff\<close> or its default, and the wait's \<open>requestTimeout\<close> of
  \<open>rq_Timeout\<close>; in the model both happen in \<open>io\<close>.
\<close>

definition effective_chunk :: "int \<Rightarrow> int" where
  "effective_chunk n = (if n \<le> 0 \<or> n > DefaultChunkSize then DefaultChunkSize else n)"

definition effective_anchor :: "string \<Rightarrow> anchor \<Rightarrow> anchor" where
  "effective_anchor chatJID a = (if an_ChatJID a = [] then a\<lparr>an_ChatJID := chatJID\<rparr> else a)"

definition RunProcessedRequests ::
  "(string \<Rightarrow> go_error + jid) \<Rightarrow> bool \<Rightarrow> 's run_request \<Rightarrow> (nat \<Rightarrow> chunk_env) \<Rightarrow> 's \<Rightarrow>
     (run_result \<times> go_error option) option \<times> 's" where
  "RunProcessedRequests parse_jid has_client req io s =
     (if \<not> has_client then (Some (zero_run empty_anchor, Some ErrNilClient), s)
      else if rq_Limit req \<le> 0
      then (Some (zero_run empty_anchor, Some (ErrMsg ''limit must be positive'')), s)
      else
        let chunkSize = effective_chunk (rq_ChunkSize req);
            a = effective_anchor (rq_ChatJID req) (rq_Anchor req)
        in case MessageInfo parse_jid a of
             Inl e \<Rightarrow> (Some (zero_run empty_anchor, Some e), s)
           | Inr _ \<Rightarrow>
               run_chunks parse_jid has_client req io (nat chunkSize) (nat (rq_Limit req)) 0 a (zero_run a) s)"

end
