(* ===== verification/Wire.thy ===== *)
theory Wire
  imports Go_Json_Laws Backfill
begin

text \<open>
  The messages of the control socket (\<open>internal/control/control.go\<close>): requests and events,
  the JSON values that \<open>encoding/json\<close> makes of them and reads back. An \<open>omitempty\<close> member
  is left out when it has its zero value; a nil slice is the empty list.
\<close>

record ctl_request =
  cr_Op :: string
  cr_ChatJID :: string
  cr_Tenant :: string
  cr_AnchorMsgID :: string
  cr_BeforeUnix :: int64
  cr_Limit :: int

record wire_anchor =
  cn_ChatJID :: string
  cn_MsgID :: string
  cn_SenderJID :: string
  cn_Timestamp :: int64
  cn_FromMe :: bool

record ctl_event =
  ct_Event :: string
  ct_SendID :: string
  ct_Anchor :: "wire_anchor option"
  ct_Requested :: int
  ct_Messages :: int
  ct_MediaEnvelopes :: int
  ct_Chats :: "string list"
  ct_RowsInserted :: int
  ct_RowsUpdated :: int
  ct_MediaHydrated :: int
  ct_Verdict :: string
  ct_Reason :: string

definition zero_request :: ctl_request where
  "zero_request = \<lparr>cr_Op = [], cr_ChatJID = [], cr_Tenant = [], cr_AnchorMsgID = [], cr_BeforeUnix = 0,
     cr_Limit = 0\<rparr>"

definition zero_wire_anchor :: wire_anchor where
  "zero_wire_anchor = \<lparr>cn_ChatJID = [], cn_MsgID = [], cn_SenderJID = [], cn_Timestamp = 0, cn_FromMe = False\<rparr>"

definition zero_event :: ctl_event where
  "zero_event = \<lparr>ct_Event = [], ct_SendID = [], ct_Anchor = None, ct_Requested = 0, ct_Messages = 0,
     ct_MediaEnvelopes = 0, ct_Chats = [], ct_RowsInserted = 0, ct_RowsUpdated = 0, ct_MediaHydrated = 0,
     ct_Verdict = [], ct_Reason = []\<rparr>"

definition anchorToWire :: "anchor \<Rightarrow> wire_anchor" where
  "anchorToWire a = \<lparr>cn_ChatJID = an_ChatJID a, cn_MsgID = an_MsgID a, cn_SenderJID = an_SenderJID a,
     cn_Timestamp = an_Timestamp a, cn_FromMe = an_FromMe a\<rparr>"

definition doneEvent :: "string \<Rightarrow> string \<Rightarrow> ctl_event" where
  "doneEvent verdict reason = zero_event\<lparr>ct_Event := ''done'', ct_Verdict := verdict, ct_Reason := reason\<rparr>"

section \<open>Encoding\<close>

definition omit_string :: "string \<Rightarrow> string \<Rightarrow> (string \<times> json) list" where
  "omit_string k s = (if s = [] then [] else [(k, JStr s)])"

definition omit_int :: "string \<Rightarrow> int \<Rightarrow> (string \<times> json) list" where
  "omit_int k n = (if n = 0 then [] else [(k, JNum (strconv_FormatInt n))])"

definition request_json :: "ctl_request \<Rightarrow> json" where
  "request_json r = JObj
     ([(''op'', JStr (cr_Op r)), (''chat_jid'', JStr (cr_ChatJID r))] @
      omit_string ''tenant'' (cr_Tenant r) @ omit_string ''anchor_msg_id'' (cr_AnchorMsgID r) @
      omit_int ''before_unix'' (cr_BeforeUnix r) @ omit_int ''limit'' (cr_Limit r))"

definition anchor_json :: "wire_anchor \<Rightarrow> json" where
  "anchor_json a = JObj
     ([(''chat_jid'', JStr (cn_ChatJID a)), (''msg_id'', JStr (cn_MsgID a))] @
      omit_string ''sender_jid'' (cn_SenderJID a) @
      [(''timestamp'', JNum (strconv_FormatInt (cn_Timestamp a))), (''from_me'', JBool (cn_FromMe a))])"

definition chats_member :: "string list \<Rightarrow> (string \<times> json) list" where
  "chats_member xs = (if xs = [] then [] else [(''chats'', JArr (map JStr xs))])"

definition anchor_member :: "wire_anchor option \<Rightarrow> (string \<times> json) list" where
  "anchor_member a = (case a of None \<Rightarrow> [] | Some x \<Rightarrow> [(''anchor'', anchor_json x)])"

definition event_json :: "ctl_event \<Rightarrow> json" where
  "event_json e = JObj
     ([(''event'', JStr (ct_Event e))] @ omit_string ''send_id'' (ct_SendID e) @
      anchor_member (ct_Anchor e) @
      omit_int ''requested'' (ct_Requested e) @ omit_int ''messages'' (ct_Messages e) @
      omit_int ''media_envelopes'' (ct_MediaEnvelopes e) @
      chats_member (ct_Chats e) @
      omit_int ''rows_inserted'' (ct_RowsInserted e) @ omit_int ''rows_updated'' (ct_RowsUpdated e) @
      omit_int ''media_hydrated'' (ct_MediaHydrated e) @
      omit_string ''verdict'' (ct_Verdict e) @ omit_string ''reason'' (ct_Reason e))"

section \<open>Decoding\<close>

fun dec_int :: "int \<Rightarrow> json \<Rightarrow> int option" where
  "dec_int old (JNum n) = strconv_ParseInt n"
| "dec_int old JNull = Some old"
| "dec_int old _ = None"

definition set_request_member :: "ctl_request \<Rightarrow> string \<times> json \<Rightarrow> ctl_request option" where
  "set_request_member r kv =
     (let k = fold_key (fst kv); j = snd kv in
      if k = ''op'' then map_option (\<lambda>v. r\<lparr>cr_Op := v\<rparr>) (dec_string (cr_Op r) j)
      else if k = ''chat_jid'' then map_option (\<lambda>v. r\<lparr>cr_ChatJID := v\<rparr>) (dec_string (cr_ChatJID r) j)
      else if k = ''tenant'' then map_option (\<lambda>v. r\<lparr>cr_Tenant := v\<rparr>) (dec_string (cr_Tenant r) j)
      else if k = ''anchor_msg_id'' then
        map_option (\<lambda>v. r\<lparr>cr_AnchorMsgID := v\<rparr>) (dec_string (cr_AnchorMsgID r) j)
      else if k = ''before_unix'' then map_option (\<lambda>v. r\<lparr>cr_BeforeUnix := v\<rparr>) (dec_int (cr_BeforeUnix r) j)
      else if k = ''limit'' then map_option (\<lambda>v. r\<lparr>cr_Limit := v\<rparr>) (dec_int (cr_Limit r) j)
      else Some r)"

fun dec_request :: "json \<Rightarrow> ctl_request option" where
  "dec_request JNull = Some zero_request"
| "dec_request (JObj kvs) = fold_opt set_request_member zero_request kvs"
| "dec_request _ = None"

definition set_anchor_member :: "wire_anchor \<Rightarrow> string \<times> json \<Rightarrow> wire_anchor option" where
  "set_anchor_member a kv =
     (let k = fold_key (fst kv); j = snd kv in
      if k = ''chat_jid'' then map_option (\<lambda>v. a\<lparr>cn_ChatJID := v\<rparr>) (dec_string (cn_ChatJID a) j)
      else if k = ''msg_id'' then map_option (\<lambda>v. a\<lparr>cn_MsgID := v\<rparr>) (dec_string (cn_MsgID a) j)
      else if k = ''sender_jid'' then map_option (\<lambda>v. a\<lparr>cn_SenderJID := v\<rparr>) (dec_string (cn_SenderJID a) j)
      else if k = ''timestamp'' then map_option (\<lambda>v. a\<lparr>cn_Timestamp := v\<rparr>) (dec_int (cn_Timestamp a) j)
      else if k = ''from_me'' then map_option (\<lambda>v. a\<lparr>cn_FromMe := v\<rparr>) (dec_bool (cn_FromMe a) j)
      else Some a)"

text \<open>\<open>null\<close> makes the pointer nil, an object is stored into what it points to already, if anything.\<close>

fun dec_anchor_ptr :: "wire_anchor option \<Rightarrow> json \<Rightarrow> wire_anchor option option" where
  "dec_anchor_ptr old JNull = Some None"
| "dec_anchor_ptr old (JObj kvs) =
     map_option Some (fold_opt set_anchor_member (case old of None \<Rightarrow> zero_wire_anchor | Some a \<Rightarrow> a) kvs)"
| "dec_anchor_ptr old _ = None"

definition dec_strings :: "json \<Rightarrow> string list option" where
  "dec_strings j = map_option (case_option [] (\<lambda>xs. xs)) (dec_strings_ptr j)"

definition set_event_member :: "ctl_event \<Rightarrow> string \<times> json \<Rightarrow> ctl_event option" where
  "set_event_member e kv =
     (let k = fold_key (fst kv); j = snd kv in
      if k = ''event'' then map_option (\<lambda>v. e\<lparr>ct_Event := v\<rparr>) (dec_string (ct_Event e) j)
      else if k = ''send_id'' then map_option (\<lambda>v. e\<lparr>ct_SendID := v\<rparr>) (dec_string (ct_SendID e) j)
      else if k = ''anchor'' then map_option (\<lambda>v. e\<lparr>ct_Anchor := v\<rparr>) (dec_anchor_ptr (ct_Anchor e) j)
      else if k = ''requested'' then map_option (\<lambda>v. e\<lparr>ct_Requested := v\<rparr>) (dec_int (ct_Requested e) j)
      else if k = ''messages'' then map_option (\<lambda>v. e\<lparr>ct_Messages := v\<rparr>) (dec_int (ct_Messages e) j)
      else if k = ''media_envelopes'' then
        map_option (\<lambda>v. e\<lparr>ct_MediaEnvelopes := v\<rparr>) (dec_int (ct_MediaEnvelopes e) j)
      else if k = ''chats'' then map_option (\<lambda>v. e\<lparr>ct_Chats := v\<rparr>) (dec_strings j)
      else if k = ''rows_inserted'' then map_option (\<lambda>v. e\<lparr>ct_RowsInserted := v\<rparr>) (dec_int (ct_RowsInserted e) j)
      else if k = ''rows_updated'' then map_option (\<lambda>v. e\<lparr>ct_RowsUpdated := v\<rparr>) (dec_int (ct_RowsUpdated e) j)
      else if k = ''media_hydrated'' then
        map_option (\<lambda>v. e\<lparr>ct_MediaHydrated := v\<rparr>) (dec_int (ct_MediaHydrated e) j)
      else if k = ''verdict'' then map_option (\<lambda>v. e\<lparr>ct_Verdict := v\<rparr>) (dec_string (ct_Verdict e) j)
      else if k = ''reason'' then map_option (\<lambda>v. e\<lparr>ct_Reason := v\<rparr>) (dec_string (ct_Reason e) j)
      else Some e)"

fun dec_event :: "json \<Rightarrow> ctl_event option" where
  "dec_event JNull = Some zero_event"
| "dec_event (JObj kvs) = fold_opt set_event_member zero_event kvs"
| "dec_event _ = None"

section \<open>Round trips\<close>

lemma fold_opt_append:
  "fold_opt f a (xs @ ys) = (case fold_opt f a xs of None \<Rightarrow> None | Some b \<Rightarrow> fold_opt f b ys)"
  by (induction xs arbitrary: a) (auto split: option.splits)

lemma map_opt_strings: "map_opt (dec_string []) (map JStr xs) = Some xs"
  by (induction xs) simp_all

lemma dec_strings_JArr: "dec_strings (JArr (map JStr xs)) = Some xs"
  by (simp add: dec_strings_def map_opt_strings)

lemma dec_int_FormatInt: "is_int64 n \<Longrightarrow> dec_int old (JNum (strconv_FormatInt n)) = Some n"
  by (simp add: ParseInt_FormatInt)

lemma wire_key_names:
  "fold_key ''op'' = ''op''" "fold_key ''chat_jid'' = ''chat_jid''" "fold_key ''tenant'' = ''tenant''"
  "fold_key ''anchor_msg_id'' = ''anchor_msg_id''" "fold_key ''before_unix'' = ''before_unix''"
  "fold_key ''limit'' = ''limit''" "fold_key ''msg_id'' = ''msg_id''" "fold_key ''sender_jid'' = ''sender_jid''"
  "fold_key ''timestamp'' = ''timestamp''" "fold_key ''from_me'' = ''from_me''"
  "fold_key ''event'' = ''event''" "fold_key ''send_id'' = ''send_id''" "fold_key ''anchor'' = ''anchor''"
  "fold_key ''requested'' = ''requested''" "fold_key ''messages'' = ''messages''"
  "fold_key ''media_envelopes'' = ''media_envelopes''" "fold_key ''chats'' = ''chats''"
  "fold_key ''rows_inserted'' = ''rows_inserted''" "fold_key ''rows_updated'' = ''rows_updated''"
  "fold_key ''media_hydrated'' = ''media_hydrated''" "fold_key ''verdict'' = ''verdict''"
  "fold_key ''reason'' = ''reason''"
  by code_simp+

declare fold_key.simps [simp del]

text \<open>One member of an event or request, stored into a value that has the zero value there.\<close>

lemma event_pieces:
  "set_event_member e (''event'', JStr x) = Some (e\<lparr>ct_Event := x\<rparr>)"
  "ct_SendID e = [] \<Longrightarrow> fold_opt set_event_member e (omit_string ''send_id'' x) = Some (e\<lparr>ct_SendID := x\<rparr>)"
  "ct_Verdict e = [] \<Longrightarrow> fold_opt set_event_member e (omit_string ''verdict'' x) = Some (e\<lparr>ct_Verdict := x\<rparr>)"
  "ct_Reason e = [] \<Longrightarrow> fold_opt set_event_member e (omit_string ''reason'' x) = Some (e\<lparr>ct_Reason := x\<rparr>)"
  "ct_Requested e = 0 \<Longrightarrow> is_int64 n \<Longrightarrow>
     fold_opt set_event_member e (omit_int ''requested'' n) = Some (e\<lparr>ct_Requested := n\<rparr>)"
  "ct_Messages e = 0 \<Longrightarrow> is_int64 n \<Longrightarrow>
     fold_opt set_event_member e (omit_int ''messages'' n) = Some (e\<lparr>ct_Messages := n\<rparr>)"
  "ct_MediaEnvelopes e = 0 \<Longrightarrow> is_int64 n \<Longrightarrow>
     fold_opt set_event_member e (omit_int ''media_envelopes'' n) = Some (e\<lparr>ct_MediaEnvelopes := n\<rparr>)"
  "ct_RowsInserted e = 0 \<Longrightarrow> is_int64 n \<Longrightarrow>
     fold_opt set_event_member e (omit_int ''rows_inserted'' n) = Some (e\<lparr>ct_RowsInserted := n\<rparr>)"
  "ct_RowsUpdated e = 0 \<Longrightarrow> is_int64 n \<Longrightarrow>
     fold_opt set_event_member e (omit_int ''rows_updated'' n) = Some (e\<lparr>ct_RowsUpdated := n\<rparr>)"
  "ct_MediaHydrated e = 0 \<Longrightarrow> is_int64 n \<Longrightarrow>
     fold_opt set_event_member e (omit_int ''media_hydrated'' n) = Some (e\<lparr>ct_MediaHydrated := n\<rparr>)"
  "ct_Chats e = [] \<Longrightarrow> fold_opt set_event_member e (chats_member xs) = Some (e\<lparr>ct_Chats := xs\<rparr>)"
  by (cases e, auto simp: set_event_member_def omit_string_def omit_int_def wire_key_names Let_def
      chats_member_def dec_strings_JArr ParseInt_FormatInt)+

lemma anchor_roundtrip:
  assumes "is_int64 (cn_Timestamp a)"
  shows "dec_anchor_ptr None (anchor_json a) = Some (Some a)"
  using assms
  by (cases a) (auto simp: anchor_json_def zero_wire_anchor_def set_anchor_member_def omit_string_def
      wire_key_names Let_def ParseInt_FormatInt)

lemma anchor_piece:
  assumes "ct_Anchor e = None" "case a of None \<Rightarrow> True | Some x \<Rightarrow> is_int64 (cn_Timestamp x)"
  shows "fold_opt set_event_member e (anchor_member a) = Some (e\<lparr>ct_Anchor := a\<rparr>)"
  using assms anchor_roundtrip
  by (cases e; cases a) (simp_all add: set_event_member_def anchor_member_def wire_key_names Let_def)

text \<open>The numbers of an event fit into their Go types.\<close>

definition event_ints :: "ctl_event \<Rightarrow> bool" where
  "event_ints e \<longleftrightarrow>
     (case ct_Anchor e of None \<Rightarrow> True | Some a \<Rightarrow> is_int64 (cn_Timestamp a)) \<and>
     list_all is_int64 [ct_Requested e, ct_Messages e, ct_MediaEnvelopes e, ct_RowsInserted e,
       ct_RowsUpdated e, ct_MediaHydrated e]"

lemma event_json_decodes:
  assumes "event_ints e"
  shows "dec_event (event_json e) = Some e"
  using assms
  by (simp add: event_json_def fold_opt_append event_pieces anchor_piece event_ints_def zero_event_def)

lemma request_pieces:
  "set_request_member r (''op'', JStr x) = Some (r\<lparr>cr_Op := x\<rparr>)"
  "set_request_member r (''chat_jid'', JStr x) = Some (r\<lparr>cr_ChatJID := x\<rparr>)"
  "cr_Tenant r = [] \<Longrightarrow> fold_opt set_request_member r (omit_string ''tenant'' x) = Some (r\<lparr>cr_Tenant := x\<rparr>)"
  "cr_AnchorMsgID r = [] \<Longrightarrow>
     fold_opt set_request_member r (omit_string ''anchor_msg_id'' x) = Some (r\<lparr>cr_AnchorMsgID := x\<rparr>)"
  "cr_BeforeUnix r = 0 \<Longrightarrow> is_int64 n \<Longrightarrow>
     fold_opt set_request_member r (omit_int ''before_unix'' n) = Some (r\<lparr>cr_BeforeUnix := n\<rparr>)"
  "cr_Limit r = 0 \<Longrightarrow> is_int64 n \<Longrightarrow>
     fold_opt set_request_member r (omit_int ''limit'' n) = Some (r\<lparr>cr_Limit := n\<rparr>)"
  by (cases r, auto simp: set_request_member_def omit_string_def omit_int_def wire_key_names Let_def
      ParseInt_FormatInt)+

lemma request_json_decodes:
  assumes "is_int64 (cr_BeforeUnix r)" "is_int64 (cr_Limit r)"
  shows "dec_request (request_json r) = Some r"
  using assms by (simp add: request_json_def fold_opt_append request_pieces zero_request_def)

section \<open>The bytes on the socket\<close>

text \<open>
  What \<open>Encode\<close> writes for an event or a request, and what \<open>Decode\<close> and \<open>Unmarshal\<close> read. A
  string arrives with every byte that is not valid UTF-8 replaced by U+FFFD.
\<close>

definition encode_event :: "ctl_event \<Rightarrow> string" where
  "encode_event e = json_Encode (event_json e)"

definition encode_request :: "ctl_request \<Rightarrow> string" where
  "encode_request r = json_Encode (request_json r)"

definition unmarshal_event :: "string \<Rightarrow> ctl_event option" where
  "unmarshal_event line = Option.bind (json_Unmarshal line) dec_event"

definition decode_request :: "string \<Rightarrow> bool \<Rightarrow> ctl_request option" where
  "decode_request s eof = Option.bind (json_Decode s eof) dec_request"

definition utf8_anchor :: "wire_anchor \<Rightarrow> wire_anchor" where
  "utf8_anchor a = a\<lparr>cn_ChatJID := strings_ToValidUTF8 (cn_ChatJID a), cn_MsgID := strings_ToValidUTF8 (cn_MsgID a),
     cn_SenderJID := strings_ToValidUTF8 (cn_SenderJID a)\<rparr>"

definition utf8_event :: "ctl_event \<Rightarrow> ctl_event" where
  "utf8_event e = e\<lparr>ct_Event := strings_ToValidUTF8 (ct_Event e), ct_SendID := strings_ToValidUTF8 (ct_SendID e),
     ct_Anchor := map_option utf8_anchor (ct_Anchor e), ct_Chats := map strings_ToValidUTF8 (ct_Chats e),
     ct_Verdict := strings_ToValidUTF8 (ct_Verdict e), ct_Reason := strings_ToValidUTF8 (ct_Reason e)\<rparr>"

definition utf8_request :: "ctl_request \<Rightarrow> ctl_request" where
  "utf8_request r = r\<lparr>cr_Op := strings_ToValidUTF8 (cr_Op r), cr_ChatJID := strings_ToValidUTF8 (cr_ChatJID r),
     cr_Tenant := strings_ToValidUTF8 (cr_Tenant r), cr_AnchorMsgID := strings_ToValidUTF8 (cr_AnchorMsgID r)\<rparr>"

lemma wire_key_utf8:
  "list_all (\<lambda>k. strings_ToValidUTF8 k = k) [''op'', ''chat_jid'', ''tenant'', ''anchor_msg_id'', ''before_unix'',
     ''limit'', ''msg_id'', ''sender_jid'', ''timestamp'', ''from_me'', ''event'', ''send_id'', ''anchor'',
     ''requested'', ''messages'', ''media_envelopes'', ''chats'', ''rows_inserted'', ''rows_updated'',
     ''media_hydrated'', ''verdict'', ''reason'']"
  by code_simp

lemmas key_utf8 = wire_key_utf8 [unfolded list.pred_inject]

definition clean_member :: "string \<times> json \<Rightarrow> string \<times> json" where
  "clean_member kv = (strings_ToValidUTF8 (fst kv), json_clean (snd kv))"

lemma json_clean_JObj: "json_clean (JObj kvs) = JObj (map clean_member kvs)"
  by (simp add: clean_member_def)

lemma clean_pieces:
  "strings_ToValidUTF8 k = k \<Longrightarrow> map clean_member (omit_string k s) = omit_string k (strings_ToValidUTF8 s)"
  "strings_ToValidUTF8 k = k \<Longrightarrow> map clean_member (omit_int k n) = omit_int k n"
  "strings_ToValidUTF8 k = k \<Longrightarrow> clean_member (k, JStr s) = (k, JStr (strings_ToValidUTF8 s))"
  "strings_ToValidUTF8 k = k \<Longrightarrow> clean_member (k, JNum num) = (k, JNum num)"
  "strings_ToValidUTF8 k = k \<Longrightarrow> clean_member (k, JBool b) = (k, JBool b)"
  "map clean_member (chats_member xs) = chats_member (map strings_ToValidUTF8 xs)"
  using key_utf8 by (simp_all add: omit_string_def omit_int_def chats_member_def clean_member_def)

lemma clean_anchor: "map clean_member (anchor_member a) = anchor_member (map_option utf8_anchor a)"
  using key_utf8
  by (cases a) (simp_all add: anchor_member_def anchor_json_def clean_member_def omit_string_def utf8_anchor_def)

lemma clean_event: "json_clean (event_json e) = event_json (utf8_event e)"
  using key_utf8
  by (simp add: event_json_def json_clean_JObj clean_pieces clean_anchor utf8_event_def del: json_clean.simps)

lemma clean_request: "json_clean (request_json r) = request_json (utf8_request r)"
  using key_utf8
  by (simp add: request_json_def json_clean_JObj clean_pieces utf8_request_def del: json_clean.simps)

lemma omit_printable:
  "kv \<in> set (omit_string k s) \<Longrightarrow> json_printable (snd kv) \<and> json_fits d (snd kv)"
  "kv \<in> set (omit_int k n) \<Longrightarrow> json_printable (snd kv) \<and> json_fits d (snd kv)"
  "kv \<in> set (chats_member xs) \<Longrightarrow> json_printable (snd kv) \<and> json_fits (Suc d) (snd kv)"
  by (auto simp: omit_string_def omit_int_def chats_member_def FormatInt_numeral split: if_splits)

lemma anchor_printable:
  "kv \<in> set (anchor_member a) \<Longrightarrow> json_printable (snd kv) \<and> json_fits (Suc d) (snd kv)"
  by (auto simp: anchor_member_def anchor_json_def FormatInt_numeral split: option.splits dest: omit_printable)

lemma event_printable: "json_printable (event_json e) \<and> json_fits maxNestingDepth (event_json e)"
  by (auto simp: event_json_def maxNestingDepth_def
      dest: omit_printable [where d = 9998, simplified] omit_printable [where d = 9999, simplified]
        anchor_printable [where d = 9998, simplified])

lemma request_printable: "json_printable (request_json r) \<and> json_fits maxNestingDepth (request_json r)"
  by (auto simp: request_json_def maxNestingDepth_def dest: omit_printable)

lemma unmarshal_encode_event:
  assumes "event_ints e"
  shows "unmarshal_event (json_Marshal (event_json e)) = Some (utf8_event e)"
proof -
  have "event_ints (utf8_event e)"
    using assms by (auto simp: event_ints_def utf8_event_def utf8_anchor_def split: option.splits)
  then show ?thesis
    using json_Unmarshal_Marshal [of "event_json e" "[]"] event_printable [of e]
    by (simp add: unmarshal_event_def clean_event event_json_decodes)
qed

lemma decode_encode_request:
  assumes "is_int64 (cr_BeforeUnix r)" "is_int64 (cr_Limit r)"
  shows "decode_request (encode_request r) eof = Some (utf8_request r)"
proof -
  have "dec_request (request_json (utf8_request r)) = Some (utf8_request r)"
    by (rule request_json_decodes) (use assms in \<open>simp_all add: utf8_request_def\<close>)
  then show ?thesis
    using json_Decode_Encode [of "request_json r" eof] request_printable [of r]
    by (simp add: decode_request_def encode_request_def clean_request)
qed

text \<open>The events that a connection carries are the lines that a scanner finds on it.\<close>

lemma event_lines:
  assumes "\<forall>e\<in>set es. length (json_Marshal (event_json e)) < cap"
  shows "bufio_lines cap (concat (map encode_event es)) = (map (\<lambda>e. json_Marshal (event_json e)) es, False)"
proof -
  have "newline \<notin> set (json_Marshal (event_json e)) \<and> drop_cr (json_Marshal (event_json e)) = json_Marshal (event_json e)" for e
    using printed_line json_Marshal_printed event_printable by blast
  then have "bufio_lines cap (concat (map (\<lambda>l. l @ [newline]) (map (\<lambda>e. json_Marshal (event_json e)) es))) =
      (map (\<lambda>e. json_Marshal (event_json e)) es, False)"
    using assms by (intro bufio_lines_concat) auto
  then show ?thesis by (simp add: comp_def encode_event_def [abs_def] json_Encode_def)
qed

lemma event_line_too_long:
  assumes "cap \<le> length (json_Marshal (event_json e))"
  shows "bufio_lines cap (encode_event e) = ([], True)"
proof -
  have "takeWhile (\<lambda>c. c \<noteq> newline) (encode_event e) = json_Marshal (event_json e)"
    using printed_line [OF json_Marshal_printed, of "event_json e"] event_printable [of e]
    by (auto simp: encode_event_def json_Encode_def takeWhile_append)
  then show ?thesis
    using assms by (subst bufio_lines.simps) (simp add: encode_event_def json_Encode_def)
qed

text \<open>
  C32. Requests and events survive the control socket. Of the bytes that the encoder writes
  for a request, the server's decoder makes the request again. The client's scanner finds
  one line in the bytes of an event, of which it makes the event again, unless the line
  does not fit the scanner's buffer, which then finds none. Both arrive up to bytes that are
  not valid UTF-8, which become U+FFFD; the members left out because they are zero, the
  optional anchor, the list of chats, and quotes, newlines and HTML characters inside the
  strings survive.
\<close>

theorem wire_roundtrip:
  "(event_ints e \<longrightarrow>
     (if length (json_Marshal (event_json e)) < cap
      then \<exists>line. bufio_lines cap (encode_event e) = ([line], False) \<and> unmarshal_event line = Some (utf8_event e)
      else bufio_lines cap (encode_event e) = ([], True))) \<and>
   (is_int64 (cr_BeforeUnix r) \<and> is_int64 (cr_Limit r) \<longrightarrow>
     decode_request (encode_request r) eof = Some (utf8_request r))"
  using event_lines [of "[e]" cap] event_line_too_long [of cap e] unmarshal_encode_event [of e]
    decode_encode_request [of r eof] by auto

definition sample_event_out :: ctl_event where
  "sample_event_out = zero_event\<lparr>ct_Event := ''request_sent'', ct_SendID := ''<S>'', ct_Requested := 50,
     ct_Anchor := Some (zero_wire_anchor\<lparr>cn_ChatJID := ''1@lid'', cn_MsgID := ''A'', cn_Timestamp := - 5\<rparr>)\<rparr>"

theorem wire_roundtrip_witness:
  "(\<exists>line. bufio_lines 1048576 (encode_event sample_event_out) = ([line], False) \<and>
     unmarshal_event line = Some sample_event_out) \<and>
   decode_request (encode_request (zero_request\<lparr>cr_Op := ''backfill'', cr_Limit := 50\<rparr>)) False =
     Some (zero_request\<lparr>cr_Op := ''backfill'', cr_Limit := 50\<rparr>)"
proof -
  let ?r = "zero_request\<lparr>cr_Op := ''backfill'', cr_Limit := 50\<rparr>"
  have "event_ints sample_event_out \<and> utf8_event sample_event_out = sample_event_out \<and>
      length (json_Marshal (event_json sample_event_out)) < 1048576" by code_simp
  moreover have "is_int64 (cr_BeforeUnix ?r) \<and> is_int64 (cr_Limit ?r) \<and> utf8_request ?r = ?r" by code_simp
  ultimately show ?thesis
    using wire_roundtrip [of sample_event_out 1048576 ?r False] by presburger
qed

end
