(* ===== verification/Changes.thy ===== *)
theory Changes
  imports Wire Listener
begin

text \<open>
  \<open>internal/control/changes.go\<close>: coalesced wake-ups. A subscriber has a channel of capacity
  one; a commit to its chat puts a wake into it unless one is waiting. What the wakes stand
  for is in the database: the question is whether a subscriber that reads it when told so
  can miss a message that the listener stored.
\<close>

section \<open>Subscriptions\<close>

text \<open>The key of the map is the channel, here its number; the value the chat and what waits in it.\<close>

record subscription =
  sb_id :: nat
  sb_jid :: string
  sb_wakes :: nat

record changes =
  ch_subs :: "subscription list"
  ch_next :: nat

definition Subscribe_changes :: "string \<Rightarrow> changes \<Rightarrow> nat \<times> changes" where
  "Subscribe_changes jid c =
     (ch_next c, c\<lparr>ch_subs := ch_subs c @ [\<lparr>sb_id = ch_next c, sb_jid = jid, sb_wakes = 0\<rparr>],
                   ch_next := Suc (ch_next c)\<rparr>)"

definition unsubscribe :: "nat \<Rightarrow> changes \<Rightarrow> changes" where
  "unsubscribe i c = c\<lparr>ch_subs := filter (\<lambda>s. sb_id s \<noteq> i) (ch_subs c)\<rparr>"

definition Notify :: "string \<Rightarrow> changes \<Rightarrow> changes" where
  "Notify jid c = c\<lparr>ch_subs := update_where (\<lambda>s. sb_jid s = jid \<and> sb_wakes s < 1)
     (\<lambda>s. s\<lparr>sb_wakes := sb_wakes s + 1\<rparr>) (ch_subs c)\<rparr>"

definition pending :: "nat \<Rightarrow> changes \<Rightarrow> bool" where
  "pending i c = list_ex (\<lambda>s. sb_id s = i \<and> 0 < sb_wakes s) (ch_subs c)"

definition take_wake :: "nat \<Rightarrow> changes \<Rightarrow> changes" where
  "take_wake i c = c\<lparr>ch_subs := update_where (\<lambda>s. sb_id s = i)
     (\<lambda>s. s\<lparr>sb_wakes := sb_wakes s - 1\<rparr>) (ch_subs c)\<rparr>"

section \<open>A watching connection\<close>

definition sole_tenant :: "manager \<Rightarrow> string \<Rightarrow> string \<Rightarrow> bool" where
  "sole_tenant m jid tenant \<longleftrightarrow>
     (case Group m jid of
        None \<Rightarrow> False
      | Some g \<Rightarrow> length (g_Tenants g) = 1 \<and> HasTenant g tenant)"

datatype watch_phase = Starting | Subscribed nat | Waiting nat | Woken nat | WatchClosed

text \<open>
  One watching connection among the rest of the daemon. \<open>wt_handler\<close> is the listener's handler,
  with the configuration it shares with the control server, and \<open>wt_store\<close> its store.
  \<open>wt_inflight\<close> are the calls of its commit callback that have not been carried out yet.
  \<open>wt_seen\<close> is what the subscriber could read of its chat when it was last told to look,
  \<open>wt_events\<close> what it was told, with the same. \<open>wt_hidden\<close> is bookkeeping: since the subscriber
  was last told to look, its chat changed without the callback being due.
\<close>

record watch_world =
  wt_changes :: changes
  wt_handler :: handler
  wt_store :: writer
  wt_inflight :: "string list"
  wt_phase :: watch_phase
  wt_seen :: "(string \<times> string) list"
  wt_hidden :: bool
  wt_events :: "(string \<times> (string \<times> string) list) list"

definition tell :: "string \<Rightarrow> string \<Rightarrow> watch_world \<Rightarrow> watch_world" where
  "tell what jid w =
     w\<lparr>wt_seen := message_versions jid (wt_store w), wt_hidden := False,
       wt_events := wt_events w @ [(what, message_versions jid (wt_store w))]\<rparr>"

text \<open>
  The two ways in which a handled message changes what a chat's reader can see and the callback
  is not called for that chat: its media could not be written or marked, so the handler reports an
  error although the row may be stored; its id is that of a message of another chat.
\<close>

definition hides :: "(string \<Rightarrow> string) \<Rightarrow> write_env \<Rightarrow> event \<Rightarrow> handler \<Rightarrow> writer \<Rightarrow> go_error option \<Rightarrow> bool" where
  "hides H env ev h w r =
     (case Group (h_Config h) (ev_ChatJID ev) of
        None \<Rightarrow> False
      | Some g \<Rightarrow> (r \<noteq> None \<and> g_CopyMedia g \<and> ev_MediaBytes ev \<noteq> []) \<or>
          list_ex (\<lambda>q. mr_id q = event_id H (stored_event env w (redact g ev)) \<and> mr_chat_jid q \<noteq> ev_ChatJID ev)
            (t_messages (durable (w_db w))))"

datatype watch_label =
    WHandle write_env int event
  | WNotify string
  | WConfig manager
  | WGroups tx_env "string \<Rightarrow> go_error option" int64 "group list"
  | WOtherSubscribes string
  | WOtherLeaves nat
  | WSubscribe
  | WReady bool
  | WWake
  | WChanged bool
  | WGone

text \<open>
  \<open>watchChanges jid tenant\<close> and what happens around it; \<open>None\<close> where a step cannot happen. A
  message is handled by \<open>HandleResult\<close> on the store; the call of its callback it makes is
  carried out in a later step, for other things may happen first. The flag
  of \<open>WReady\<close> and \<open>WChanged\<close> says whether the write to the connection succeeded; \<open>WGone\<close> is the
  end of the context or of the connection, which the select takes at any pass.
\<close>

fun watch_step :: "(string \<Rightarrow> string) \<Rightarrow> (string \<Rightarrow> string) \<Rightarrow> string \<Rightarrow> string \<Rightarrow>
    watch_label \<Rightarrow> watch_world \<Rightarrow> watch_world option" where
  "watch_step H ulower jid tenant (WHandle env now ev) w =
     (case HandleResult (Write H ulower env) now ev ((wt_handler w)\<lparr>h_OnCommitted := Some []\<rparr>) (wt_store w) of
        ((accepted, res, r), h, s) \<Rightarrow>
          Some (w\<lparr>wt_handler := h, wt_store := s,
                  wt_inflight := wt_inflight w @ (case h_OnCommitted h of None \<Rightarrow> [] | Some calls \<Rightarrow> calls),
                  wt_hidden := (wt_hidden w \<or>
                    (hides H env ev (wt_handler w) (wt_store w) r \<and>
                     message_versions jid s \<noteq> message_versions jid (wt_store w)))\<rparr>))"
| "watch_step H ulower jid tenant (WNotify c) w =
     (if c \<in> set (wt_inflight w)
      then Some (w\<lparr>wt_inflight := remove1 c (wt_inflight w), wt_changes := Notify c (wt_changes w)\<rparr>)
      else None)"
| "watch_step H ulower jid tenant (WConfig m) w = Some (w\<lparr>wt_handler := (wt_handler w)\<lparr>h_Config := m\<rparr>\<rparr>)"
| "watch_step H ulower jid tenant (WGroups e fault now gs) w =
     Some (w\<lparr>wt_store := snd (EnsureGroups e fault now gs (wt_store w))\<rparr>)"
| "watch_step H ulower jid tenant (WOtherSubscribes c) w =
     Some (w\<lparr>wt_changes := snd (Subscribe_changes c (wt_changes w))\<rparr>)"
| "watch_step H ulower jid tenant (WOtherLeaves i) w =
     (if wt_phase w \<in> {Subscribed i, Waiting i, Woken i} then None
      else Some (w\<lparr>wt_changes := unsubscribe i (wt_changes w)\<rparr>))"
| "watch_step H ulower jid tenant WSubscribe w =
     (if wt_phase w = Starting
      then (case Subscribe_changes jid (wt_changes w) of
              (i, c) \<Rightarrow> Some (w\<lparr>wt_changes := c, wt_phase := Subscribed i\<rparr>))
      else None)"
| "watch_step H ulower jid tenant (WReady ok) w =
     (case wt_phase w of
        Subscribed i \<Rightarrow>
          if ok then Some ((tell ''ready'' jid w)\<lparr>wt_phase := Waiting i\<rparr>)
          else Some (w\<lparr>wt_changes := unsubscribe i (wt_changes w), wt_phase := WatchClosed\<rparr>)
      | _ \<Rightarrow> None)"
| "watch_step H ulower jid tenant WWake w =
     (case wt_phase w of
        Waiting i \<Rightarrow>
          if pending i (wt_changes w)
          then Some (w\<lparr>wt_changes := take_wake i (wt_changes w), wt_phase := Woken i\<rparr>) else None
      | _ \<Rightarrow> None)"
| "watch_step H ulower jid tenant (WChanged ok) w =
     (case wt_phase w of
        Woken i \<Rightarrow>
          if sole_tenant (h_Config (wt_handler w)) jid tenant \<and> ok
          then Some ((tell ''changed'' jid w)\<lparr>wt_phase := Waiting i\<rparr>)
          else Some (w\<lparr>wt_changes := unsubscribe i (wt_changes w), wt_phase := WatchClosed\<rparr>)
      | _ \<Rightarrow> None)"
| "watch_step H ulower jid tenant WGone w =
     (case wt_phase w of
        Waiting i \<Rightarrow> Some (w\<lparr>wt_changes := unsubscribe i (wt_changes w), wt_phase := WatchClosed\<rparr>)
      | _ \<Rightarrow> None)"

inductive watch_reach ::
  "(string \<Rightarrow> string) \<Rightarrow> (string \<Rightarrow> string) \<Rightarrow> string \<Rightarrow> string \<Rightarrow> watch_world \<Rightarrow> watch_world \<Rightarrow> bool"
  for H ulower jid tenant w0 where
  wr_start: "watch_reach H ulower jid tenant w0 w0"
| wr_step: "watch_reach H ulower jid tenant w0 w \<Longrightarrow> watch_step H ulower jid tenant l w = Some w' \<Longrightarrow>
    watch_reach H ulower jid tenant w0 w'"

section \<open>The invariant\<close>

definition subs_ok :: "changes \<Rightarrow> bool" where
  "subs_ok c \<longleftrightarrow> distinct (map sb_id (ch_subs c)) \<and>
     (\<forall>s\<in>set (ch_subs c). sb_id s < ch_next c \<and> sb_wakes s \<le> 1)"

definition subscribed :: "nat \<Rightarrow> string \<Rightarrow> changes \<Rightarrow> bool" where
  "subscribed i jid c \<longleftrightarrow> (i, jid) \<in> (\<lambda>s. (sb_id s, sb_jid s)) ` set (ch_subs c)"

text \<open>
  What the subscriber has not been told to look at is on its way: not announced yet, or waiting
  in the channel, or taken from it and about to be passed on, unless it is hidden.
\<close>

definition on_its_way :: "string \<Rightarrow> nat \<Rightarrow> watch_world \<Rightarrow> bool" where
  "on_its_way jid i w \<longleftrightarrow>
     wt_seen w = message_versions jid (wt_store w) \<or> wt_hidden w \<or>
     jid \<in> set (wt_inflight w) \<or> pending i (wt_changes w)"

definition watch_inv :: "(string \<Rightarrow> string) \<Rightarrow> string \<Rightarrow> watch_world \<Rightarrow> bool" where
  "watch_inv H jid w \<longleftrightarrow>
     subs_ok (wt_changes w) \<and> db_ok H (durable (w_db (wt_store w))) \<and>
     (case wt_phase w of
        Starting \<Rightarrow> True
      | Subscribed i \<Rightarrow> subscribed i jid (wt_changes w)
      | Waiting i \<Rightarrow> subscribed i jid (wt_changes w) \<and> on_its_way jid i w
      | Woken i \<Rightarrow> subscribed i jid (wt_changes w)
      | WatchClosed \<Rightarrow> True)"

text \<open>A handled message that changes what the subscriber can read calls the callback, or is hidden.\<close>

lemma handled_change:
  assumes HR: "HandleResult (Write H ulower env) now ev (h\<lparr>h_OnCommitted := Some []\<rparr>) w = ((a, res, r), h', w')"
    and ok: "db_ok H (durable (w_db w))"
  shows "message_versions jid w' = message_versions jid w \<or> h_OnCommitted h' = Some [jid] \<or> hides H env ev h w r"
  using HR
proof (cases rule: HandleResult_cases)
  case (failed g res1 e)
  have "g_CopyMedia g \<and> ev_MediaBytes ev \<noteq> [] \<or> t_messages (durable (w_db w')) = t_messages (durable (w_db w))"
    using listener_store.handle_unnoticed [OF HR [unfolded failed(3)] failed(1)]
    by (cases "g_CopyMedia g \<and> ev_MediaBytes ev \<noteq> []") auto
  then show ?thesis using failed(1,3) by (auto simp: hides_def message_versions_def)
next
  case (written g)
  consider (clash) "hides H env ev h w r"
    | (other) "jid \<noteq> ev_ChatJID ev"
        "\<forall>q \<in> set (t_messages (durable (w_db w))). mr_id q = event_id H (stored_event env w (redact g ev)) \<longrightarrow>
           mr_chat_jid q = ev_ChatJID (redact g ev)"
    | (own) "jid = ev_ChatJID ev"
    using written(1) by (auto simp: hides_def list_ex_iff)
  then show ?thesis
  proof cases
    case other
    then show ?thesis using Write_other_chat [OF ok written(4), of jid] by simp
  next
    case own
    then show ?thesis using written(7) Write_quiet [OF ok written(4), of jid] by auto
  qed simp
qed simp

lemma subs_ok_Subscribe: "subs_ok c \<Longrightarrow> subs_ok (snd (Subscribe_changes jid c))"
  by (fastforce simp: subs_ok_def Subscribe_changes_def)

lemma subs_ok_unsubscribe: "subs_ok c \<Longrightarrow> subs_ok (unsubscribe i c)"
  by (auto simp: subs_ok_def unsubscribe_def distinct_map_filter)

lemma keys_kept [simp]:
  "map sb_id (update_where P (\<lambda>s. s\<lparr>sb_wakes := f s\<rparr>) ss) = map sb_id ss"
  "(\<lambda>s. (sb_id s, sb_jid s)) ` set (update_where P (\<lambda>s. s\<lparr>sb_wakes := f s\<rparr>) ss) =
   (\<lambda>s. (sb_id s, sb_jid s)) ` set ss"
  by (induction ss) (auto simp: update_where_def)

lemma subs_ok_Notify: "subs_ok c \<Longrightarrow> subs_ok (Notify jid c)"
  by (auto simp: subs_ok_def Notify_def set_update_where)

lemma subs_ok_take: "subs_ok c \<Longrightarrow> subs_ok (take_wake i c)"
  by (fastforce simp: subs_ok_def take_wake_def set_update_where)

lemma subscribed_steps:
  "subscribed i jid (Notify k c) = subscribed i jid c"
  "subscribed i jid (take_wake j c) = subscribed i jid c"
  "subscribed i jid c \<Longrightarrow> subscribed i jid (snd (Subscribe_changes k c))"
  "subscribed i jid c \<Longrightarrow> i \<noteq> j \<Longrightarrow> subscribed i jid (unsubscribe j c)"
  "subscribed (fst (Subscribe_changes jid c)) jid (snd (Subscribe_changes jid c))"
  by (simp_all add: subscribed_def Notify_def take_wake_def)
    (auto simp: Subscribe_changes_def unsubscribe_def)

lemma pending_Notify: "subscribed i jid c \<Longrightarrow> pending i (Notify jid c)"
proof -
  assume "subscribed i jid c"
  then obtain s where s: "s \<in> set (ch_subs c)" "sb_id s = i" "sb_jid s = jid" by (auto simp: subscribed_def)
  let ?f = "\<lambda>s. if sb_jid s = jid \<and> sb_wakes s < 1 then s\<lparr>sb_wakes := sb_wakes s + 1\<rparr> else s"
  have "?f s \<in> set (ch_subs (Notify jid c))" using s(1) by (simp add: Notify_def update_where_def)
  moreover have "sb_id (?f s) = i \<and> 0 < sb_wakes (?f s)" using s by auto
  ultimately show ?thesis unfolding pending_def list_ex_iff by blast
qed

lemma pending_steps:
  "pending i c \<Longrightarrow> pending i (Notify k c)"
  "pending i c \<Longrightarrow> pending i (snd (Subscribe_changes k c))"
  "pending i c \<Longrightarrow> i \<noteq> j \<Longrightarrow> pending i (unsubscribe j c)"
  by (force simp: pending_def list_ex_iff Notify_def Subscribe_changes_def unsubscribe_def set_update_where)+

lemma watch_inv_step:
  assumes "watch_inv H jid w" "watch_step H ulower jid tenant l w = Some w'"
  shows "watch_inv H jid w'"
proof (cases l)
  case (WHandle env now ev)
  obtain a res r h s where HR: "HandleResult (Write H ulower env) now ev
      ((wt_handler w)\<lparr>h_OnCommitted := Some []\<rparr>) (wt_store w) = ((a, res, r), h, s)"
    by (metis prod.collapse)
  have ok: "db_ok H (durable (w_db (wt_store w)))" using assms(1) by (simp add: watch_inv_def)
  note w' = assms(2) [unfolded WHandle watch_step.simps HR prod.case option.inject, symmetric]
  show ?thesis
    using assms(1) handled_change [OF HR ok, of jid] listener_store.handle_keeps_ok [OF ok HR]
    unfolding w' by (auto simp: watch_inv_def on_its_way_def split: watch_phase.splits option.splits)
next
  case (WGroups e fault now gs)
  have "message_versions jid (snd (EnsureGroups e fault now gs (wt_store w))) = message_versions jid (wt_store w)"
    using EnsureGroups_messages by (metis message_versions_def prod.collapse)
  moreover have "db_ok H (durable (w_db (snd (EnsureGroups e fault now gs (wt_store w)))))"
    using assms(1) db_ok_EnsureGroups by (metis prod.collapse watch_inv_def)
  ultimately show ?thesis
    using WGroups assms by (auto simp: watch_inv_def on_its_way_def split: watch_phase.splits)
next
  case (WNotify c)
  then have w': "c \<in> set (wt_inflight w)"
    "w' = w\<lparr>wt_inflight := remove1 c (wt_inflight w), wt_changes := Notify c (wt_changes w)\<rparr>"
    using assms(2) by (auto split: if_splits)
  have "jid \<in> set (remove1 c (wt_inflight w)) \<or> c = jid" if "jid \<in> set (wt_inflight w)"
    using that by (metis in_set_remove1)
  then show ?thesis
    using assms(1) subs_ok_Notify subscribed_steps(1) pending_steps(1) pending_Notify unfolding w'(2)
    by (auto simp: watch_inv_def on_its_way_def split: watch_phase.splits)
next
  case (WConfig m)
  then show ?thesis
    using assms by (auto simp: watch_inv_def on_its_way_def split: watch_phase.splits)
next
  case (WOtherSubscribes c)
  then show ?thesis
    using assms subs_ok_Subscribe subscribed_steps(3) pending_steps(2)
    by (auto simp: watch_inv_def on_its_way_def split: watch_phase.splits)
next
  case (WOtherLeaves i)
  then show ?thesis
    using assms subs_ok_unsubscribe subscribed_steps(4) pending_steps(3)
    by (auto simp: watch_inv_def on_its_way_def split: watch_phase.splits if_splits)
next
  case WSubscribe
  then have "w' = w\<lparr>wt_changes := snd (Subscribe_changes jid (wt_changes w)),
      wt_phase := Subscribed (fst (Subscribe_changes jid (wt_changes w)))\<rparr>"
    using assms(2) by (auto split: if_splits prod.splits)
  then show ?thesis
    using assms(1) subs_ok_Subscribe subscribed_steps(5) by (simp add: watch_inv_def)
next
  case (WReady ok)
  then show ?thesis
    using assms subs_ok_unsubscribe
    by (auto simp: watch_inv_def on_its_way_def tell_def split: watch_phase.splits if_splits)
next
  case WWake
  then show ?thesis
    using assms subs_ok_take subscribed_steps(2)
    by (auto simp: watch_inv_def split: watch_phase.splits if_splits)
next
  case (WChanged ok)
  then show ?thesis
    using assms subs_ok_unsubscribe
    by (auto simp: watch_inv_def on_its_way_def tell_def split: watch_phase.splits if_splits)
next
  case WGone
  then show ?thesis
    using assms subs_ok_unsubscribe
    by (auto simp: watch_inv_def split: watch_phase.splits if_splits)
qed

lemma watch_inv_reach: "watch_reach H ulower jid tenant w0 w \<Longrightarrow> watch_inv H jid w0 \<Longrightarrow> watch_inv H jid w"
  by (induction rule: watch_reach.induct) (auto intro: watch_inv_step)

section \<open>Properties\<close>

text \<open>
  C5. No announced message is missed, however the messages the listener handles, the calls of its
  commit callback, reloads and other subscribers interleave with a watching connection. While it
  waits, the messages of its chat and their text hashes are those that the subscriber could read
  when it was last told to look, or a call of the callback for the chat is still due, or a wake
  waits in its channel; the exception is a change that the listener does not announce for the
  chat, a message whose media could not be written or that has the id of another chat's.
  So once every call has been carried out, nothing was hidden and the chat still belongs
  to the tenant, the next two steps tell it, and what it then reads is complete. At most one
  wake waits in any channel, and a subscriber that no longer owns its chat is told nothing more.
\<close>

theorem no_commit_missed:
  assumes "watch_reach H ulower jid tenant w0 w" "wt_phase w0 = Starting" "subs_ok (wt_changes w0)"
    and "db_ok H (durable (w_db (wt_store w0)))" "wt_phase w = Waiting i"
  shows "(wt_seen w = message_versions jid (wt_store w) \<or> wt_hidden w \<or>
      jid \<in> set (wt_inflight w) \<or> pending i (wt_changes w)) \<and>
    (\<forall>s\<in>set (ch_subs (wt_changes w)). sb_wakes s \<le> 1) \<and>
    (jid \<notin> set (wt_inflight w) \<and> \<not> wt_hidden w \<and> wt_seen w \<noteq> message_versions jid (wt_store w) \<longrightarrow>
       (\<exists>w1 w2. watch_step H ulower jid tenant WWake w = Some w1 \<and>
          watch_step H ulower jid tenant (WChanged True) w1 = Some w2 \<and>
          (if sole_tenant (h_Config (wt_handler w)) jid tenant
           then wt_phase w2 = Waiting i \<and> wt_seen w2 = message_versions jid (wt_store w2) \<and>
             wt_events w2 = wt_events w @ [(''changed'', message_versions jid (wt_store w))]
           else wt_phase w2 = WatchClosed \<and> wt_events w2 = wt_events w)))"
proof -
  have "watch_inv H jid w0" using assms(2-4) by (simp add: watch_inv_def)
  then have inv: "watch_inv H jid w" by (rule watch_inv_reach [OF assms(1)])
  then have way: "wt_seen w = message_versions jid (wt_store w) \<or> wt_hidden w \<or>
      jid \<in> set (wt_inflight w) \<or> pending i (wt_changes w)"
    and one: "\<forall>s\<in>set (ch_subs (wt_changes w)). sb_wakes s \<le> 1"
    using assms(5) by (auto simp: watch_inv_def on_its_way_def subs_ok_def)
  have "\<exists>w1 w2. watch_step H ulower jid tenant WWake w = Some w1 \<and>
      watch_step H ulower jid tenant (WChanged True) w1 = Some w2 \<and>
      (if sole_tenant (h_Config (wt_handler w)) jid tenant
       then wt_phase w2 = Waiting i \<and> wt_seen w2 = message_versions jid (wt_store w2) \<and>
         wt_events w2 = wt_events w @ [(''changed'', message_versions jid (wt_store w))]
       else wt_phase w2 = WatchClosed \<and> wt_events w2 = wt_events w)"
    if "pending i (wt_changes w)"
    using that assms(5) by (simp add: tell_def)
  then show ?thesis using way one by blast
qed

definition sample_watch :: watch_world where
  "sample_watch = \<lparr>wt_changes = \<lparr>ch_subs = [], ch_next = 0\<rparr>,
     wt_handler = sample_handler, wt_store = sample_writer,
     wt_inflight = [], wt_phase = Starting, wt_seen = [], wt_hidden = False, wt_events = []\<rparr>"

fun watch_steps :: "(string \<Rightarrow> string) \<Rightarrow> (string \<Rightarrow> string) \<Rightarrow> string \<Rightarrow> string \<Rightarrow>
    watch_label list \<Rightarrow> watch_world \<Rightarrow> watch_world option" where
  "watch_steps H ulower jid tenant [] w = Some w"
| "watch_steps H ulower jid tenant (l # ls) w =
     (case watch_step H ulower jid tenant l w of
        None \<Rightarrow> None | Some w' \<Rightarrow> watch_steps H ulower jid tenant ls w')"

lemma watch_steps_reach:
  "watch_reach H ulower jid tenant w0 w \<Longrightarrow> watch_steps H ulower jid tenant ls w = Some w' \<Longrightarrow>
    watch_reach H ulower jid tenant w0 w'"
  by (induction ls arbitrary: w) (auto intro: wr_step split: option.splits)

text \<open>A message stored after \<open>ready\<close>, and announced.\<close>

definition watch_sample :: "watch_label list" where
  "watch_sample = [WSubscribe, WReady True, WHandle sample_env 7 sample_event, WNotify ''1@lid'']"

definition watched :: "watch_world \<Rightarrow> watch_phase \<times> string list \<times> bool \<times> nat \<times> nat \<times> bool" where
  "watched w = (wt_phase w, wt_inflight w, wt_hidden w, length (wt_seen w),
     length (message_versions ''1@lid'' (wt_store w)), sole_tenant (h_Config (wt_handler w)) ''1@lid'' ''t'')"

theorem no_commit_missed_witness:
  "\<exists>w w1 w2. watch_steps (\<lambda>s. s) (\<lambda>s. s) ''1@lid'' ''t'' watch_sample sample_watch = Some w \<and>
     watch_step (\<lambda>s. s) (\<lambda>s. s) ''1@lid'' ''t'' WWake w = Some w1 \<and>
     watch_step (\<lambda>s. s) (\<lambda>s. s) ''1@lid'' ''t'' (WChanged True) w1 = Some w2 \<and>
     wt_seen w2 = message_versions ''1@lid'' (wt_store w2)"
proof -
  have "map_option watched (watch_steps (\<lambda>s. s) (\<lambda>s. s) ''1@lid'' ''t'' watch_sample sample_watch) =
      Some (Waiting 0, [], False, 0, 1, True)"
    by code_simp
  then obtain w where w: "watch_steps (\<lambda>s. s) (\<lambda>s. s) ''1@lid'' ''t'' watch_sample sample_watch = Some w"
    "wt_phase w = Waiting 0" "wt_inflight w = []" "\<not> wt_hidden w" "wt_seen w = []"
    "length (message_versions ''1@lid'' (wt_store w)) = 1"
    "sole_tenant (h_Config (wt_handler w)) ''1@lid'' ''t''"
    by (auto simp: watched_def)
  have start: "wt_phase sample_watch = Starting" "subs_ok (wt_changes sample_watch)"
    "db_ok (\<lambda>s. s) (durable (w_db (wt_store sample_watch)))"
    using sample_store_ok by (simp_all add: sample_watch_def subs_ok_def)
  have "wt_seen w \<noteq> message_versions ''1@lid'' (wt_store w)" using w(5,6) by auto
  then show ?thesis
    using no_commit_missed [OF watch_steps_reach [OF wr_start w(1)] start w(2)] w by auto
qed

end
