(* ===== verification/Logging.thy ===== *)
theory Logging
  imports Health Go_Strings
begin

text \<open>
  The log of \<open>internal/health/health.go\<close>, the minute ticks of \<open>Status.Run\<close>, and the logger that
  \<open>auth.go\<close> gives to whatsmeow. A line is its text; \<open>quote\<close> is the verb \<open>%q\<close>. Dates in front
  of the lines are left out.
\<close>

section \<open>The log file\<close>

record logger =
  lg_open :: bool
  lg_lines :: "string list"

definition NewLogger :: "go_error option \<Rightarrow> go_error option \<Rightarrow> string list \<Rightarrow> go_error + logger" where
  "NewLogger mkdir_err open_err old =
     (case mkdir_err of Some e \<Rightarrow> Inl e | None \<Rightarrow>
     (case open_err of Some e \<Rightarrow> Inl e | None \<Rightarrow> Inr \<lparr>lg_open = True, lg_lines = old\<rparr>))"

text \<open>A second call does nothing; after the first, what is printed is lost with the closed file.\<close>

definition Close_log :: "go_error option \<Rightarrow> logger \<Rightarrow> go_error option \<times> logger" where
  "Close_log err l = (if \<not> lg_open l then (None, l) else (err, l\<lparr>lg_open := False\<rparr>))"

definition Printf :: "string \<Rightarrow> logger \<Rightarrow> logger" where
  "Printf line l = (if lg_open l then l\<lparr>lg_lines := lg_lines l @ [line]\<rparr> else l)"

definition LogConnection :: "string \<Rightarrow> logger option \<Rightarrow> logger option" where
  "LogConnection state l = map_option (Printf (''connection_state state='' @ state)) l"

definition LogMediaFailure ::
  "(string \<Rightarrow> string) \<Rightarrow> string \<Rightarrow> string \<Rightarrow> go_error \<Rightarrow> logger option \<Rightarrow> logger option" where
  "LogMediaFailure quote chatJID msgID err l =
     map_option (Printf (''media_download_failed chat_jid='' @ chatJID @ '' msg_id='' @ msgID @
       '' error='' @ quote (Error err))) l"

section \<open>The health file\<close>

definition write_failed :: "(string \<Rightarrow> string) \<Rightarrow> go_error \<Rightarrow> string" where
  "write_failed quote e = ''health_write_failed error='' @ quote (Error e)"

text \<open>The ticks of \<open>Status.Run\<close> until it is stopped: the two clock readings and the file operations of each.\<close>

fun Status_Run ::
  "(string \<Rightarrow> string) \<Rightarrow> (int \<times> int \<times> health_io) list \<Rightarrow> status \<times> snapshot option \<Rightarrow> logger option \<Rightarrow>
     (status \<times> snapshot option) \<times> logger option" where
  "Status_Run quote [] sf l = (sf, l)"
| "Status_Run quote ((now, now2, io) # ticks) sf l =
     (case Status_Write now now2 io sf of
        (None, sf') \<Rightarrow> Status_Run quote ticks sf' l
      | (Some e, sf') \<Rightarrow> Status_Run quote ticks sf'
          (map_option (Printf (write_failed quote e)) l))"

section \<open>The logger for whatsmeow\<close>

record whatsmeowLogger =
  wl_base :: "logger option"
  wl_module :: string

definition Sub :: "string \<Rightarrow> whatsmeowLogger \<Rightarrow> whatsmeowLogger" where
  "Sub m l = l\<lparr>wl_module := (if wl_module l = [] then m else wl_module l @ ''/'' @ m)\<rparr>"

definition whatsmeow_log :: "(string \<Rightarrow> string) \<Rightarrow> string \<Rightarrow> string \<Rightarrow> whatsmeowLogger \<Rightarrow> whatsmeowLogger" where
  "whatsmeow_log quote level msg l =
     (case wl_base l of
        None \<Rightarrow> l
      | Some b \<Rightarrow> l\<lparr>wl_base := Some (Printf (''whatsmeow level='' @ level @ '' module='' @ wl_module l @
          '' msg='' @ quote msg) b)\<rparr>)"

section \<open>What the log keeps\<close>

text \<open>The log only grows, and the ticks log exactly the writes of the health file that failed.\<close>

lemma Printf_grows: "\<exists>new. lg_lines (Printf line l) = lg_lines l @ new"
  by (simp add: Printf_def)

lemma Status_Write_error: "fst (Status_Write now now2 io sf) = health_error io"
  by (simp add: Status_Write_def Let_def split: option.splits)

lemma Status_Run_logs:
  assumes "lg_open l"
  shows "\<exists>l'. snd (Status_Run quote ticks sf (Some l)) = Some l' \<and> lg_open l' \<and>
    lg_lines l' = lg_lines l @ map (write_failed quote) (List.map_filter (\<lambda>(now, now2, io). health_error io) ticks)"
  using assms
proof (induction ticks arbitrary: sf l)
  case Nil
  then show ?case by (simp add: List.map_filter_def)
next
  case (Cons x ticks)
  obtain now now2 io where x: "x = (now, now2, io)" by (cases x)
  obtain r sf' where w: "Status_Write now now2 io sf = (r, sf')" by (metis prod.collapse)
  then have r: "r = health_error io" using Status_Write_error [of now now2 io sf] by simp
  show ?case
  proof (cases r)
    case None
    then show ?thesis using Cons.IH [OF Cons.prems, of sf'] x w r by (simp add: List.map_filter_simps)
  next
    case (Some e)
    have p: "lg_open (Printf (write_failed quote e) l)"
      "lg_lines (Printf (write_failed quote e) l) = lg_lines l @ [write_failed quote e]"
      using Cons.prems by (simp_all add: Printf_def)
    from Cons.IH [OF p(1), of sf'] show ?thesis
      using x w r Some p(2) by (fastforce simp: List.map_filter_simps)
  qed
qed

end
