(* ===== verification/Control.thy ===== *)
theory Control
  imports Changes Logging
begin

text \<open>
  \<open>internal/control/control.go\<close>: the control socket. The server authorises one request per
  connection and either watches a chat or runs a backfill through its executor, which
  emits events while it works; the client prints the events and turns the verdict into an
  exit code. What the server writes to a connection is kept as the list of its events, whose
  bytes are those of \<open>encode_event\<close>, one after the other; both ends read bytes.
\<close>

definition VerdictViable :: string where "VerdictViable = ''VIABLE''"
definition VerdictUnavailable :: string where "VerdictUnavailable = ''UNAVAILABLE''"
definition VerdictError :: string where "VerdictError = ''ERROR''"

section \<open>Connections\<close>

text \<open>The k-th write fails with \<open>werr k\<close>, if that is an error.\<close>

record ctl_conn =
  co_out :: "ctl_event list"
  co_count :: nat

definition Encode :: "(nat \<Rightarrow> go_error option) \<Rightarrow> ctl_event \<Rightarrow> ctl_conn \<Rightarrow> go_error option \<times> ctl_conn" where
  "Encode werr e c =
     (case werr (co_count c) of
        Some x \<Rightarrow> (Some x, c\<lparr>co_count := Suc (co_count c)\<rparr>)
      | None \<Rightarrow> (None, c\<lparr>co_out := co_out c @ [e], co_count := Suc (co_count c)\<rparr>))"

definition normalizeRequest :: "ctl_request \<Rightarrow> ctl_request" where
  "normalizeRequest r =
     (let r1 = r\<lparr>cr_Op := strings_TrimSpace (cr_Op r), cr_ChatJID := strings_TrimSpace (cr_ChatJID r),
            cr_Tenant := strings_TrimSpace (cr_Tenant r),
            cr_AnchorMsgID := strings_TrimSpace (cr_AnchorMsgID r)\<rparr>;
          r2 = (if cr_Limit r1 \<le> 0 then r1\<lparr>cr_Limit := DefaultChunkSize\<rparr> else r1)
      in if cr_Limit r2 > DefaultChunkSize then r2\<lparr>cr_Limit := DefaultChunkSize\<rparr> else r2)"

section \<open>The executor\<close>

record executor =
  ex_DBPath :: string
  ex_has_client :: bool
  ex_has_channel :: bool
  ex_Timeout :: int

definition verdictForResult :: "run_result \<Rightarrow> go_error option \<Rightarrow> ctl_event" where
  "verdictForResult r err =
     (case err of
        Some e \<Rightarrow> doneEvent (if errors_Is e EnvelopeUnavailable then VerdictUnavailable else VerdictError) (Error e)
      | None \<Rightarrow>
          (case Verdict (rr_Summary r) of
             (ok, reason) \<Rightarrow> doneEvent (if ok then VerdictViable else VerdictUnavailable) reason))"

definition resolveAnchor ::
  "(string \<Rightarrow> go_error + jid) \<Rightarrow> executor \<Rightarrow> anchor_env \<Rightarrow> tables \<Rightarrow> ctl_request \<Rightarrow> go_error + anchor" where
  "resolveAnchor parse_jid ex env t req =
     (if strings_TrimSpace (ex_DBPath ex) = [] then Inl (ErrMsg ''missing message database path'')
      else if cr_AnchorMsgID req \<noteq> []
      then AnchorByMessageID parse_jid env (cr_ChatJID req) (cr_AnchorMsgID req) t
      else LatestAnchor parse_jid env
        \<lparr>aq_ChatJID = cr_ChatJID req,
         aq_Before = (if cr_BeforeUnix req > 0 then Some (cr_BeforeUnix req) else None),
         aq_FallbackAny = False\<rparr> t)"

definition sent_event :: "request_sent \<Rightarrow> ctl_event" where
  "sent_event s = zero_event\<lparr>ct_Event := ''request_sent'', ct_SendID := rs_SendID s,
     ct_Anchor := Some (anchorToWire (rs_Anchor s)), ct_Requested := rs_Count s\<rparr>"

definition received_event :: "summary \<Rightarrow> ctl_event" where
  "received_event s = zero_event\<lparr>ct_Event := ''history_sync_received'', ct_Messages := int (sm_Messages s),
     ct_MediaEnvelopes := int (sm_MediaEnvelopes s), ct_Chats := sm_ChatJIDs s\<rparr>"

definition ingested_event :: "historySyncStats \<Rightarrow> ctl_event" where
  "ingested_event st = zero_event\<lparr>ct_Event := ''ingested'', ct_RowsInserted := int (hs_RowsInserted st),
     ct_RowsUpdated := int (hs_RowsUpdated st), ct_MediaHydrated := int (hs_MediaHydrated st)\<rparr>"

definition backfill_request ::
  "executor \<Rightarrow> ctl_request \<Rightarrow> anchor \<Rightarrow> (ctl_event \<Rightarrow> 'c \<Rightarrow> go_error option \<times> 'c) \<Rightarrow> 'c run_request" where
  "backfill_request ex req a emit =
     \<lparr>rq_ChatJID = cr_ChatJID req, rq_Anchor = a, rq_Limit = cr_Limit req, rq_ChunkSize = DefaultChunkSize,
      rq_Timeout = ex_Timeout ex, rq_Backoff = 0,
      rq_OnRequestSent = (\<lambda>s. emit (sent_event s)),
      rq_OnHistorySyncReceived = (\<lambda>s. emit (received_event s)),
      rq_OnHistorySyncIngested = (\<lambda>st. emit (ingested_event st))\<rparr>"

text \<open>\<open>None\<close> in place of a result: the executor is still waiting for WhatsApp.\<close>

definition Execute ::
  "(string \<Rightarrow> go_error + jid) \<Rightarrow> executor \<Rightarrow> anchor_env \<Rightarrow> tables \<Rightarrow> (nat \<Rightarrow> chunk_env) \<Rightarrow> ctl_request \<Rightarrow>
     (ctl_event \<Rightarrow> 'c \<Rightarrow> go_error option \<times> 'c) \<Rightarrow> 'c \<Rightarrow> (ctl_event \<times> go_error option) option \<times> 'c" where
  "Execute parse_jid ex env t io req emit c =
     (if \<not> ex_has_client ex then (Some (doneEvent VerdictError ''daemon WhatsApp client is not ready'', None), c)
      else if \<not> ex_has_channel ex
      then (Some (doneEvent VerdictError ''daemon history-sync channel is not ready'', None), c)
      else case resolveAnchor parse_jid ex env t req of
        Inl e \<Rightarrow> (Some (doneEvent VerdictError (Error e), None), c)
      | Inr a \<Rightarrow>
          (case RunProcessedRequests parse_jid (ex_has_client ex) (backfill_request ex req a emit) io c of
             (None, c') \<Rightarrow> (None, c')
           | (Some (r, err), c') \<Rightarrow> (Some (verdictForResult r err, None), c')))"

section \<open>Serving a connection\<close>

datatype conn_end = ConnClosed | ConnRunning | ConnWatching ctl_request

text \<open>
  \<open>handleConn\<close>: \<open>read\<close> is what the connection delivers until it ends or its read deadline has
  passed, and whether it ended with EOF; \<open>decode_err\<close> is the decoder's error for it, \<open>quote\<close> is
  \<open>%q\<close>. A watching connection goes on in \<open>watch_step\<close>.
\<close>

definition handleConn ::
  "(string \<Rightarrow> string) \<Rightarrow> (string \<times> bool \<Rightarrow> go_error) \<Rightarrow> (nat \<Rightarrow> go_error option) \<Rightarrow>
     (ctl_request \<Rightarrow> (ctl_event \<Rightarrow> ctl_conn \<Rightarrow> go_error option \<times> ctl_conn) \<Rightarrow> ctl_conn \<Rightarrow>
        (ctl_event \<times> go_error option) option \<times> ctl_conn) \<Rightarrow>
     bool \<Rightarrow> manager option \<Rightarrow> string \<times> bool \<Rightarrow> ctl_conn \<Rightarrow> conn_end \<times> ctl_conn" where
  "handleConn quote decode_err werr exec has_changes cfg read c =
     (let finish = (\<lambda>reason. (ConnClosed, snd (Encode werr (doneEvent VerdictError reason) c)))
      in case decode_request (fst read) (snd read) of
        None \<Rightarrow> finish (''decode request: '' @ Error (decode_err read))
      | Some req0 \<Rightarrow>
          (let req = normalizeRequest req0 in
           if cr_Op req \<noteq> ''backfill'' \<and> cr_Op req \<noteq> ''watch_ingest''
           then finish (''unsupported op '' @ quote (cr_Op req))
           else if cr_ChatJID req = [] then finish ''backfill requires chat_jid''
           else case cfg of
             None \<Rightarrow> finish ''chat_jid is not in the WhatsApp allowlist''
           | Some m \<Rightarrow>
               (case Group m (cr_ChatJID req) of
                  None \<Rightarrow> finish ''chat_jid is not in the WhatsApp allowlist''
                | Some g \<Rightarrow>
                    if cr_Tenant req \<noteq> [] \<and> \<not> HasTenant g (cr_Tenant req) then finish ''jid_not_owned_by_tenant''
                    else if cr_Op req = ''watch_ingest''
                    then (if cr_Tenant req = [] \<or> length (g_Tenants g) \<noteq> 1 \<or> \<not> HasTenant g (cr_Tenant req)
                          then finish ''change subscription requires an exact single-tenant chat''
                          else if \<not> has_changes \<or> cr_Tenant req = []
                          then finish ''change subscription unavailable''
                          else (ConnWatching req, c))
                    else
                      case exec req (Encode werr) c of
                        (None, c1) \<Rightarrow> (ConnRunning, c1)
                      | (Some (done0, err), c1) \<Rightarrow>
                          let done1 = (case err of
                                 Some e \<Rightarrow> if ct_Event done0 = [] then doneEvent VerdictError (Error e) else done0
                               | None \<Rightarrow> done0);
                              done2 = (if ct_Event done1 = []
                                       then doneEvent VerdictError ''backfill executor returned no verdict''
                                       else done1)
                          in (ConnClosed, snd (Encode werr done2 c1)))))"

section \<open>The socket\<close>

text \<open>\<open>pv_lstat\<close>: an error, nothing there, or whether it is a socket; \<open>pv_dial\<close>: \<open>None\<close> when someone answers.\<close>

record prepare_env =
  pv_mkdir :: "go_error option"
  pv_chmod :: "go_error option"
  pv_lstat :: "go_error + bool option"
  pv_dial :: "go_error option"
  pv_remove :: "go_error option"

definition prepareSocketPath :: "string \<Rightarrow> prepare_env \<Rightarrow> go_error option" where
  "prepareSocketPath path env =
     (case pv_mkdir env of Some e \<Rightarrow> Some e | None \<Rightarrow>
     (case pv_chmod env of Some e \<Rightarrow> Some e | None \<Rightarrow>
     (case pv_lstat env of
        Inl e \<Rightarrow> Some e
      | Inr None \<Rightarrow> None
      | Inr (Some False) \<Rightarrow> Some (ErrMsg (''control socket path exists and is not a socket: '' @ path))
      | Inr (Some True) \<Rightarrow>
          (case pv_dial env of
             None \<Rightarrow> Some (ErrMsg (''control socket already in use: '' @ path))
           | Some _ \<Rightarrow> pv_remove env))))"

record server =
  srv_SocketPath :: string
  srv_has_executor :: bool
  srv_listening :: bool
  srv_socket_file :: bool
  srv_closed :: bool
  srv_Status :: "(status \<times> snapshot option) option"

record start_env =
  sx_prepare :: prepare_env
  sx_resolve :: "go_error option"
  sx_listen :: "go_error option"
  sx_chmod :: "go_error option"
  sx_health :: health_env

definition set_ipc :: "health_env \<Rightarrow> bool \<Rightarrow> (status \<times> snapshot option) option \<Rightarrow> (status \<times> snapshot option) option" where
  "set_ipc env b = map_option (\<lambda>(st, f).
     snd (Status_Write (hv_now env) (hv_now2 env) (hv_io env) (SetIPCListening b st, f)))"

definition Start :: "start_env \<Rightarrow> server \<Rightarrow> go_error option \<times> server" where
  "Start env srv =
     (if strings_TrimSpace (srv_SocketPath srv) = [] then (Some (ErrMsg ''missing control socket path''), srv)
      else if \<not> srv_has_executor srv then (Some (ErrMsg ''missing control executor''), srv)
      else case prepareSocketPath (srv_SocketPath srv) (sx_prepare env) of
        Some e \<Rightarrow> (Some e, srv)
      | None \<Rightarrow>
          (case sx_resolve env of Some e \<Rightarrow> (Some e, srv) | None \<Rightarrow>
          (case sx_listen env of Some e \<Rightarrow> (Some e, srv) | None \<Rightarrow>
          (case sx_chmod env of
             Some e \<Rightarrow> (Some e, srv\<lparr>srv_socket_file := False\<rparr>)
           | None \<Rightarrow> (None, srv\<lparr>srv_listening := True, srv_socket_file := True,
                       srv_Status := set_ipc (sx_health env) True (srv_Status srv)\<rparr>)))))"

text \<open>\<open>closeOnce\<close> runs the body at most once; \<open>close_err\<close> is the error of closing the listener.\<close>

definition Close :: "health_env \<Rightarrow> go_error option \<Rightarrow> server \<Rightarrow> go_error option \<times> server" where
  "Close env close_err srv =
     (if srv_closed srv then (None, srv)
      else (if srv_listening srv then close_err else None,
            srv\<lparr>srv_listening := False, srv_socket_file := False, srv_closed := True,
                srv_Status := set_ipc env False (srv_Status srv)\<rparr>))"

text \<open>
  \<open>acceptLoop\<close> over what the listener gives it, each with whether the context has ended by then:
  the connections it hands to a goroutine of \<open>handleConn\<close>, in their order, and whether it
  returned. An error while the context is alive is logged and the loop goes on.
\<close>

fun acceptLoop ::
  "(string \<Rightarrow> string) \<Rightarrow> (bool \<times> (go_error + 'c)) list \<Rightarrow> logger option \<Rightarrow> ('c list \<times> bool) \<times> logger option" where
  "acceptLoop quote [] l = (([], False), l)"
| "acceptLoop quote ((ended, Inl e) # rest) l =
     (if ended then (([], True), l)
      else acceptLoop quote rest (map_option (Printf (''control_socket_accept_failed error='' @ quote (Error e))) l))"
| "acceptLoop quote ((ended, Inr c) # rest) l =
     (case acceptLoop quote rest l of ((cs, b), l') \<Rightarrow> ((c # cs, b), l'))"

section \<open>The client\<close>

definition exitCodeForVerdict :: "string \<Rightarrow> int" where
  "exitCodeForVerdict v = (if v = VerdictViable then 0 else if v = VerdictUnavailable then 2 else 1)"

definition nl :: string where "nl = [CHR 0x0A]"

definition printHumanEvent :: "ctl_event \<Rightarrow> string" where
  "printHumanEvent e =
     (if ct_Event e = ''request_sent'' then
        ''Request sent: send_id='' @ ct_SendID e @ '' requested='' @ strconv_FormatInt (ct_Requested e) @
        (case ct_Anchor e of
           None \<Rightarrow> []
         | Some a \<Rightarrow> '' anchor_chat='' @ cn_ChatJID a @ '' anchor_msg_id='' @ cn_MsgID a @
             '' anchor_ts='' @ format_rfc3339 (cn_Timestamp a)) @ nl
      else if ct_Event e = ''history_sync_received'' then
        ''History sync received: messages='' @ strconv_FormatInt (ct_Messages e) @
        '' media_envelopes='' @ strconv_FormatInt (ct_MediaEnvelopes e) @
        (if ct_Chats e = [] then [] else '' chats='' @ strings_Join (ct_Chats e) '','') @ nl
      else if ct_Event e = ''ingested'' then
        ''Ingested: rows_inserted='' @ strconv_FormatInt (ct_RowsInserted e) @
        '' rows_updated='' @ strconv_FormatInt (ct_RowsUpdated e) @
        '' media_hydrated='' @ strconv_FormatInt (ct_MediaHydrated e) @ nl
      else if ct_Event e = ''done'' then
        (if ct_Reason e = [] then ''Verdict: '' @ ct_Verdict e @ nl
         else ''Verdict: '' @ ct_Verdict e @ '' ('' @ ct_Reason e @ '')'' @ nl)
      else ct_Event e @ nl)"

text \<open>
  What the client meets: the dial, the bytes that come from the connection, the error of the
  read after them, if it is not EOF, and its output, whose k-th write fails with \<open>cl_write k\<close>.
  \<open>json_err\<close> is the error for a line that is not an event. Lines are at most \<open>scan_limit - 1\<close> bytes.
\<close>

record client_env =
  cl_dial :: "go_error option"
  cl_encode :: "go_error option"
  cl_bytes :: string
  cl_scan :: "go_error option"
  cl_write :: "nat \<Rightarrow> go_error option"

definition scan_limit :: nat where "scan_limit = 1048576"

fun client_loop ::
  "(string \<Rightarrow> go_error) \<Rightarrow> bool \<Rightarrow> (nat \<Rightarrow> go_error option) \<Rightarrow> string list \<Rightarrow> nat \<Rightarrow>
     string \<Rightarrow> ctl_event option \<Rightarrow> (go_error + ctl_event option) \<times> string" where
  "client_loop json_err human wr [] k out final = (Inr final, out)"
| "client_loop json_err human wr (line # lines) k out final =
     (case unmarshal_event line of
        None \<Rightarrow> (Inl (ErrWrap ''decode daemon event: '' (json_err line) []), out)
      | Some e \<Rightarrow>
          (let final' = (if ct_Event e = ''done'' then Some e else final) in
           if human
           then client_loop json_err human wr lines (Suc k) (out @ printHumanEvent e) final'
           else case wr k of
             Some x \<Rightarrow> (Inl x, out)
           | None \<Rightarrow> client_loop json_err human wr lines (Suc k) (out @ line @ nl) final'))"

text \<open>The exit code and the error, what was sent, and what was printed.\<close>

definition RunBackfillClient ::
  "(string \<Rightarrow> go_error) \<Rightarrow> client_env \<Rightarrow> string \<Rightarrow> bool \<Rightarrow> ctl_request \<Rightarrow>
     (int \<times> go_error option) \<times> string option \<times> string" where
  "RunBackfillClient json_err env path human req0 =
     (let req = (normalizeRequest req0)\<lparr>cr_Op := ''backfill''\<rparr> in
      case cl_dial env of
        Some e \<Rightarrow> ((1, Some (ErrWrap (''daemon not running or control socket unavailable at '' @ path @ '': '') e [])),
                   None, [])
      | None \<Rightarrow>
          (case cl_encode env of
             Some e \<Rightarrow> ((1, Some e), None, [])
           | None \<Rightarrow>
               (case client_loop json_err human (cl_write env) (fst (bufio_lines scan_limit (cl_bytes env))) 0 [] None of
                  (Inl e, out) \<Rightarrow> ((1, Some e), Some (encode_request req), out)
                | (Inr final, out) \<Rightarrow>
                    (case (if snd (bufio_lines scan_limit (cl_bytes env)) then Some ErrTooLong else cl_scan env) of
                       Some e \<Rightarrow> ((1, Some e), Some (encode_request req), out)
                     | None \<Rightarrow>
                         (case final of
                            None \<Rightarrow> ((1, Some (ErrMsg
                              ''daemon closed the control connection without a done event'')),
                              Some (encode_request req), out)
                          | Some e \<Rightarrow> ((exitCodeForVerdict (ct_Verdict e), None),
                              Some (encode_request req), out))))))"

end
