(* ===== verification/Daemon.thy ===== *)
theory Daemon
  imports Go_ParseFloat Unseen Control
begin

text \<open>
  \<open>cmd/whatsapp-daemon/main.go\<close>: the five commands, their flags with the default paths, the
  exit code and the error each ends with, and the goroutines of \<open>serve\<close> that follow the
  configuration. A command that is still waiting has no exit yet (\<open>None\<close>).
\<close>

text \<open>The parts of the libraries that are parameters of the whole development.\<close>

record prims =
  pm_quote :: "string \<Rightarrow> string"
  pm_json_err :: "string \<Rightarrow> go_error"
  pm_ulower :: "string \<Rightarrow> string"
  pm_fused :: bool
  pm_oob :: "float64 \<Rightarrow> int64"

type_synonym exit = "(int \<times> go_error option) option"

section \<open>Errors of the configuration\<close>

fun tenants_text :: "(string \<Rightarrow> string) \<Rightarrow> tenants_error \<Rightarrow> string" where
  "tenants_text quote TenantsEmpty = ''must not be empty''"
| "tenants_text quote EmptyTenant = ''contains empty tenant''"
| "tenants_text quote (DuplicateTenant t) = ''duplicate tenant '' @ quote t"

fun config_go_error :: "prims \<Rightarrow> config_error \<Rightarrow> go_error" where
  "config_go_error pm (ReadError e) = e"
| "config_go_error pm JsonError = pm_json_err pm []"
| "config_go_error pm NeedsJidAndLabel = ErrMsg ''every chat needs jid and label''"
| "config_go_error pm (UnsupportedJID jid) = ErrMsg (''refusing unsupported chat JID: '' @ jid)"
| "config_go_error pm (DuplicateJID jid) = ErrMsg (''duplicate chat jid: '' @ jid)"
| "config_go_error pm (DuplicateLabel label) = ErrMsg (''duplicate chat label: '' @ label)"
| "config_go_error pm (TenantsNotSet jid) =
     ErrMsg (''chat '' @ jid @ '': tenants must be set explicitly (e.g. ['' @
       [CHR 0x22] @ ''family'' @ [CHR 0x22] @ ''])'')"
| "config_go_error pm (BadTenants jid e) =
     ErrWrap (''chat '' @ jid @ '' tenants: '') (ErrMsg (tenants_text (pm_quote pm) e)) []"
| "config_go_error pm (StatError e) = e"

section \<open>The pair and serve commands\<close>

record daemon_flags =
  df_config :: string
  df_db :: string
  df_media_root :: string
  df_auth_db :: string
  df_log :: string
  df_health :: string
  df_control_socket :: string

definition daemon_defaults :: "string \<Rightarrow> string \<Rightarrow> daemon_flags" where
  "daemon_defaults rootenv home =
     (let root = Root rootenv home in
      \<lparr>df_config = DefaultPath rootenv home, df_db = DefaultDB root,
       df_media_root = filepath_Join [root, ''media-cache''],
       df_auth_db = filepath_Join [root, ''whatsapp-daemon'', ''auth.db''],
       df_log = filepath_Join [root, ''whatsapp-daemon'', ''daemon.log''],
       df_health = filepath_Join [root, ''whatsapp-daemon'', ''health.json''],
       df_control_socket = DefaultSocketPath rootenv home\<rparr>)"

definition daemon_flag :: "string \<Rightarrow> daemon_flags go_flag option" where
  "daemon_flag = map_of
     [(''config'', string_flag (\<lambda>v x. x\<lparr>df_config := v\<rparr>)),
      (''db'', string_flag (\<lambda>v x. x\<lparr>df_db := v\<rparr>)),
      (''media-root'', string_flag (\<lambda>v x. x\<lparr>df_media_root := v\<rparr>)),
      (''auth-db'', string_flag (\<lambda>v x. x\<lparr>df_auth_db := v\<rparr>)),
      (''log'', string_flag (\<lambda>v x. x\<lparr>df_log := v\<rparr>)),
      (''health'', string_flag (\<lambda>v x. x\<lparr>df_health := v\<rparr>)),
      (''control-socket'', string_flag (\<lambda>v x. x\<lparr>df_control_socket := v\<rparr>))]"

text \<open>
  What the daemon meets: its files by path, the store \<open>writer.New\<close> opens or creates with its
  tables, the faults of the first \<open>EnsureGroups\<close>, the session with WhatsApp.
\<close>

record daemon_env =
  de_log :: "string \<Rightarrow> go_error option"
  de_config :: "string \<Rightarrow> config_file"
  de_store :: "string \<Rightarrow> go_error + tables"
  de_files :: files
  de_tx :: tx_env
  de_fault :: "string \<Rightarrow> go_error option"
  de_now :: int64
  de_serve :: serve_env
  de_start :: start_env
  de_qr_err :: "go_error option"
  de_connect_err :: "go_error option"
  de_pairing :: "pair_input list"

definition store_at :: "string \<Rightarrow> tables \<Rightarrow> files \<Rightarrow> writer" where
  "store_at media_root t fs = \<lparr>w_db = opened t, w_mediaRoot = media_root, w_allowedGroupCount = 0,
     w_ftsUnavailable = False, w_files = fs\<rparr>"

definition serve_server :: "string \<Rightarrow> server" where
  "serve_server path = \<lparr>srv_SocketPath = path, srv_has_executor = True, srv_listening = False,
     srv_socket_file = False, srv_closed = False, srv_Status = Some (NewStatus, None)\<rparr>"

text \<open>The exit, and the configuration and the store as the command leaves them.\<close>

definition runDaemonMode ::
  "prims \<Rightarrow> daemon_env \<Rightarrow> string \<Rightarrow> string \<Rightarrow> string \<Rightarrow> string list \<Rightarrow> exit \<times> (manager \<times> writer) option" where
  "runDaemonMode pm env rootenv home mode args =
     (case flag_Parse (pm_quote pm) daemon_flag args (daemon_defaults rootenv home) of
        FlagsHelp \<Rightarrow> (Some (0, None), None)
      | FlagsError e \<Rightarrow> (Some (1, Some e), None)
      | FlagsParsed fl \<Rightarrow>
          (case de_log env (df_log fl) of Some e \<Rightarrow> (Some (1, Some e), None) | None \<Rightarrow>
          (case New (de_config env (df_config fl)) of
             Inl e \<Rightarrow> (Some (1, Some (config_go_error pm e)), None)
           | Inr cfg \<Rightarrow>
          (case de_store env (df_db fl) of
             Inl e \<Rightarrow> (Some (1, Some e), None)
           | Inr t \<Rightarrow>
          (case EnsureGroups (de_tx env) (de_fault env) (de_now env) (Groups cfg)
                  (store_at (df_media_root fl) t (de_files env)) of
             (Some e, w) \<Rightarrow> (Some (1, Some e), Some (cfg, w))
           | (None, w) \<Rightarrow>
               if mode = ''pair'' then
                 (map_option (\<lambda>err. (0, err))
                    (Pair (se_open (de_serve env)) (df_auth_db fl) (se_paired (de_serve env))
                      (de_qr_err env) (de_connect_err env) (de_pairing env)), Some (cfg, w))
               else if mode = ''serve'' then
                 (let ready = fst (Start (de_start env) (serve_server (df_control_socket fl)));
                      senv = (de_serve env)\<lparr>se_has_handler := True, se_serve_ready := Some ready\<rparr>;
                      ss = \<lparr>ss_health = Some (NewStatus, None), ss_connected = [], ss_fatal = [],
                            ss_states = []\<rparr>
                  in (case fst (Serve senv (df_auth_db fl) ss) of
                        ServeWaiting \<Rightarrow> None
                      | ServeReturned err \<Rightarrow> Some (0, err), Some (Config.Subscribe cfg, w)))
               else (Some (1, Some (ErrMsg (''unknown mode '' @ pm_quote pm mode))), Some (cfg, w)))))))"

section \<open>The backfill command\<close>

record backfill_flags =
  bf_chat :: string
  bf_tenant :: string
  bf_before :: string
  bf_anchor :: string
  bf_limit :: int64
  bf_socket :: string

definition backfill_flag :: "string \<Rightarrow> backfill_flags go_flag option" where
  "backfill_flag = map_of
     [(''chat'', string_flag (\<lambda>v x. x\<lparr>bf_chat := v\<rparr>)),
      (''tenant'', string_flag (\<lambda>v x. x\<lparr>bf_tenant := v\<rparr>)),
      (''before'', string_flag (\<lambda>v x. x\<lparr>bf_before := v\<rparr>)),
      (''anchor-msg-id'', string_flag (\<lambda>v x. x\<lparr>bf_anchor := v\<rparr>)),
      (''limit'', int_flag (\<lambda>v x. x\<lparr>bf_limit := v\<rparr>)),
      (''control-socket'', string_flag (\<lambda>v x. x\<lparr>bf_socket := v\<rparr>))]"

text \<open>Seconds from the zero \<open>time.Time\<close>, which \<open>IsZero\<close> tests, to the epoch.\<close>

definition before_unix :: "go_time \<Rightarrow> int64" where
  "before_unix t = (if t = zero_time then 0 else fst t)"

definition runBackfillClient ::
  "prims \<Rightarrow> (string \<Rightarrow> client_env) \<Rightarrow> bool \<Rightarrow> string \<Rightarrow> string \<Rightarrow> string list \<Rightarrow>
     (int \<times> go_error option) \<times> string option \<times> string" where
  "runBackfillClient pm dial human rootenv home args =
     (case flag_Parse (pm_quote pm) backfill_flag args
             \<lparr>bf_chat = [], bf_tenant = [], bf_before = [], bf_anchor = [], bf_limit = DefaultChunkSize,
              bf_socket = DefaultSocketPath rootenv home\<rparr> of
        FlagsHelp \<Rightarrow> ((0, None), None, [])
      | FlagsError e \<Rightarrow> ((1, Some e), None, [])
      | FlagsParsed fl \<Rightarrow>
          if bf_chat fl = [] then ((1, Some (ErrMsg ''backfill requires --chat <jid>'')), None, [])
          else case ParseTimestamp (bf_before fl) of
            Inl e \<Rightarrow> ((1, Some e), None, [])
          | Inr before_time \<Rightarrow>
              RunBackfillClient (pm_json_err pm) (dial (bf_socket fl)) (bf_socket fl) human
                (zero_request\<lparr>cr_ChatJID := bf_chat fl, cr_Tenant := bf_tenant fl,
                   cr_AnchorMsgID := bf_anchor fl, cr_BeforeUnix := before_unix before_time,
                   cr_Limit := bf_limit fl\<rparr>))"

section \<open>The unseen and cron-check commands\<close>

record optionalFloat =
  of_set :: bool
  of_value :: float64

definition optionalFloat_Set ::
  "(string \<Rightarrow> string) \<Rightarrow> string \<Rightarrow> optionalFloat \<Rightarrow> go_error + optionalFloat" where
  "optionalFloat_Set quote v f =
     (case strconv_ParseFloat quote v of Inl e \<Rightarrow> Inl e | Inr x \<Rightarrow> Inr (f\<lparr>of_set := True, of_value := x\<rparr>))"

record unseen_flags =
  uf_db :: string
  uf_config :: string
  uf_tenant :: string
  uf_state :: string
  uf_no_advance :: bool
  uf_since :: optionalFloat

definition since_flag :: "(string \<Rightarrow> string) \<Rightarrow> unseen_flags go_flag" where
  "since_flag quote = (False, \<lambda>v x. case optionalFloat_Set quote v (uf_since x) of
     Inl e \<Rightarrow> Inl e | Inr f \<Rightarrow> Inr (x\<lparr>uf_since := f\<rparr>))"

definition unseen_flag :: "(string \<Rightarrow> string) \<Rightarrow> string \<Rightarrow> unseen_flags go_flag option" where
  "unseen_flag quote = map_of
     [(''db'', string_flag (\<lambda>v x. x\<lparr>uf_db := v\<rparr>)),
      (''config'', string_flag (\<lambda>v x. x\<lparr>uf_config := v\<rparr>)),
      (''tenant'', string_flag (\<lambda>v x. x\<lparr>uf_tenant := v\<rparr>)),
      (''state'', string_flag (\<lambda>v x. x\<lparr>uf_state := v\<rparr>)),
      (''no-advance'', bool_flag (\<lambda>v x. x\<lparr>uf_no_advance := v\<rparr>)),
      (''since-hours'', since_flag quote)]"

definition cron_flag :: "string \<Rightarrow> unseen_flags go_flag option" where
  "cron_flag = map_of
     [(''db'', string_flag (\<lambda>v x. x\<lparr>uf_db := v\<rparr>)),
      (''config'', string_flag (\<lambda>v x. x\<lparr>uf_config := v\<rparr>)),
      (''tenant'', string_flag (\<lambda>v x. x\<lparr>uf_tenant := v\<rparr>))]"

definition unseen_defaults :: "string \<Rightarrow> string \<Rightarrow> unseen_flags" where
  "unseen_defaults rootenv home =
     \<lparr>uf_db = DefaultDB (Root rootenv home), uf_config = DefaultPath rootenv home, uf_tenant = [],
      uf_state = [], uf_no_advance = False, uf_since = \<lparr>of_set = False, of_value = Finite 0 0\<rparr>\<rparr>"

text \<open>The reader's world: the errors of opening the database and what the run meets.\<close>

record unseen_env =
  un_open :: "string \<Rightarrow> go_error option"
  un_pragma :: "go_error option"
  un_reader :: "options \<Rightarrow> reader_env"

definition unseen_Run :: "prims \<Rightarrow> unseen_env \<Rightarrow> options \<Rightarrow> reader \<Rightarrow> go_error option \<times> reader" where
  "unseen_Run pm env opts rd =
     Run (un_open env (o_DBPath opts)) (un_pragma env) (pm_ulower pm) (pm_fused pm)
       (pm_oob pm) (un_reader env opts) opts rd"

definition runUnseenCommand ::
  "prims \<Rightarrow> unseen_env \<Rightarrow> string \<Rightarrow> string \<Rightarrow> string list \<Rightarrow> reader \<Rightarrow> (int \<times> go_error option) \<times> reader" where
  "runUnseenCommand pm env rootenv home args rd =
     (case flag_Parse (pm_quote pm) (unseen_flag (pm_quote pm)) args (unseen_defaults rootenv home) of
        FlagsHelp \<Rightarrow> ((0, None), rd)
      | FlagsError e \<Rightarrow> ((1, Some e), rd)
      | FlagsParsed fl \<Rightarrow>
          if uf_tenant fl = [] then ((1, Some (ErrMsg ''unseen requires --tenant <name>'')), rd)
          else
            let state = (if uf_state fl = [] then DefaultStatePath (Root rootenv home) (uf_tenant fl)
                         else uf_state fl);
                opts = \<lparr>o_DBPath = uf_db fl, o_ConfigPath = uf_config fl, o_Tenant = uf_tenant fl,
                        o_StatePath = state,
                        o_SinceHours = (if of_set (uf_since fl) then Some (of_value (uf_since fl)) else None),
                        o_NoAdvance = uf_no_advance fl\<rparr>
            in case unseen_Run pm env opts rd of (err, rd') \<Rightarrow> ((0, err), rd'))"

definition runCronCheckCommand ::
  "prims \<Rightarrow> unseen_env \<Rightarrow> string \<Rightarrow> string \<Rightarrow> string list \<Rightarrow> reader \<Rightarrow> (int \<times> go_error option) \<times> reader" where
  "runCronCheckCommand pm env rootenv home args rd =
     (case flag_Parse (pm_quote pm) cron_flag args (unseen_defaults rootenv home) of
        FlagsHelp \<Rightarrow> ((0, None), rd)
      | FlagsError e \<Rightarrow> ((3, Some e), rd)
      | FlagsParsed fl \<Rightarrow>
          if uf_tenant fl = [] then ((3, Some (ErrMsg ''cron-check requires --tenant <name>'')), rd)
          else
            let opts = \<lparr>o_DBPath = uf_db fl, o_ConfigPath = uf_config fl, o_Tenant = uf_tenant fl,
                        o_StatePath = DefaultStatePath (Root rootenv home) (uf_tenant fl),
                        o_SinceHours = None, o_NoAdvance = False\<rparr>
            in case unseen_Run pm env opts rd of
                 (Some e, rd') \<Rightarrow> ((3, Some e), rd')
               | (None, rd') \<Rightarrow> ((0, None), rd'))"

section \<open>The command line\<close>

record process =
  pr_home :: "go_error + string"
  pr_rootenv :: string
  pr_daemon :: daemon_env
  pr_dial :: "string \<Rightarrow> client_env"
  pr_terminal :: bool
  pr_unseen :: unseen_env

definition usage :: string where
  "usage = strings_Join
     [''Usage: whatsapp-daemon <pair|serve|backfill|unseen|cron-check> [options]'', [],
      ''Subcommands:'',
      ''  pair        create or reuse whatsapp-daemon/auth.db and print a WhatsApp QR code when pairing is needed'',
      ''  serve       require an existing pair, listen for allowlisted group messages, write DB rows, media, health.json, and control.sock'',
      ''  backfill    ask the running serve daemon to request ON_DEMAND history sync over control.sock'',
      ''  unseen      print unseen parent-group messages for a tenant'',
      ''  cron-check  cron wrapper around unseen; exits 3 on internal error''] nl @ nl"

definition mode_args :: "string list \<Rightarrow> string \<times> string list" where
  "mode_args args =
     (case args of
        a # rest \<Rightarrow> if a \<noteq> [] \<and> hd a \<noteq> CHR ''-'' then (a, rest) else (''serve'', args)
      | [] \<Rightarrow> (''serve'', []))"

text \<open>
  \<open>run\<close> over the arguments: the exit, the reader as it is left, and what the daemon's
  process leaves of its configuration and store.
\<close>

definition run ::
  "prims \<Rightarrow> process \<Rightarrow> string list \<Rightarrow> reader \<Rightarrow> exit \<times> reader \<times> (manager \<times> writer) option" where
  "run pm p args0 rd =
     (case mode_args args0 of (mode, args) \<Rightarrow>
        if mode = ''help'' then (Some (0, None), rd\<lparr>rd_out := rd_out rd @ usage\<rparr>, None)
        else if mode \<notin> set [''pair'', ''serve'', ''backfill'', ''unseen'', ''cron-check'']
        then (Some (1, Some (ErrMsg (''unknown mode '' @ pm_quote pm mode @
               ''; use pair, serve, backfill, unseen, or cron-check''))), rd, None)
        else case pr_home p of
          Inl e \<Rightarrow> (Some (1, Some e), rd, None)
        | Inr home \<Rightarrow>
            if mode = ''backfill'' then
              (case runBackfillClient pm (pr_dial p) (pr_terminal p) (pr_rootenv p) home args of
                 (r, req, out) \<Rightarrow> (Some r, rd\<lparr>rd_out := rd_out rd @ out\<rparr>, None))
            else if mode = ''unseen'' then
              (case runUnseenCommand pm (pr_unseen p) (pr_rootenv p) home args rd of
                 (r, rd') \<Rightarrow> (Some r, rd', None))
            else if mode = ''cron-check'' then
              (case runCronCheckCommand pm (pr_unseen p) (pr_rootenv p) home args rd of
                 (r, rd') \<Rightarrow> (Some r, rd', None))
            else
              (case runDaemonMode pm (pr_daemon p) (pr_rootenv p) home mode args of
                 (r, d) \<Rightarrow> (r, rd, d)))"

text \<open>\<open>main\<close> prints the error and exits with the code, whatever the error is.\<close>

definition main_exit :: "prims \<Rightarrow> process \<Rightarrow> string list \<Rightarrow> reader \<Rightarrow> int option \<times> reader" where
  "main_exit pm p args rd =
     (case run pm p args rd of
        (None, rd', _) \<Rightarrow> (None, rd')
      | (Some (code, None), rd', _) \<Rightarrow> (Some code, rd')
      | (Some (code, Some e), rd', _) \<Rightarrow> (Some code, rd'\<lparr>rd_err := rd_err rd' @ Error e @ nl\<rparr>))"

section \<open>Following the configuration\<close>

text \<open>
  \<open>startConfigReloaders\<close>: the goroutine of \<open>Watch\<close>, the one that receives the changes (its
  subscription is \<open>rl_sub\<close>) and the one that receives SIGHUP, over the manager and the store
  they share with the listener. A goroutine that calls \<open>EnsureGroups(ctx, cfg.Groups())\<close>
  first reads the groups and then runs the transaction, so others move in between.
\<close>

datatype sync_phase = SyncIdle | SyncTaken | SyncRead "group list"

record reloader =
  rl_manager :: manager
  rl_writer :: writer
  rl_sub :: nat
  rl_change :: sync_phase
  rl_hup :: sync_phase
  rl_failures :: nat

datatype reload_label =
    ConfigTick "go_error + int" config_file
  | TakeChange
  | ReadChange
  | ApplyChange tx_env "string \<Rightarrow> go_error option" int64
  | HupReload config_file
  | HupRead
  | HupApply tx_env "string \<Rightarrow> go_error option" int64
  | StoreMessage write_env event

fun reload_step ::
  "(string \<Rightarrow> string) \<Rightarrow> (string \<Rightarrow> string) \<Rightarrow> reload_label \<Rightarrow> reloader \<Rightarrow> reloader option"
where
  "reload_step H ulower (ConfigTick stat src) rl =
     Some (rl\<lparr>rl_manager := snd (Watch_tick stat src (rl_manager rl))\<rparr>)"
| "reload_step H ulower TakeChange rl =
     (if rl_change rl \<noteq> SyncIdle \<or> rl_sub rl \<ge> length (m_subs (rl_manager rl)) then None
      else case m_subs (rl_manager rl) ! rl_sub rl of
        [] \<Rightarrow> None
      | _ # q \<Rightarrow> Some (rl\<lparr>rl_manager := (rl_manager rl)\<lparr>m_subs := (m_subs (rl_manager rl))[rl_sub rl := q]\<rparr>,
                     rl_change := SyncTaken\<rparr>))"
| "reload_step H ulower ReadChange rl =
     (if rl_change rl = SyncTaken then Some (rl\<lparr>rl_change := SyncRead (Groups (rl_manager rl))\<rparr>) else None)"
| "reload_step H ulower (ApplyChange e fault now) rl =
     (case rl_change rl of
        SyncRead gs \<Rightarrow>
          (case EnsureGroups e fault now gs (rl_writer rl) of
             (r, w) \<Rightarrow> Some (rl\<lparr>rl_writer := w, rl_change := SyncIdle,
                rl_failures := (if r = None then rl_failures rl else Suc (rl_failures rl))\<rparr>))
      | _ \<Rightarrow> None)"
| "reload_step H ulower (HupReload src) rl =
     (if rl_hup rl \<noteq> SyncIdle then None
      else case Reload src (rl_manager rl) of
        (Some _, m) \<Rightarrow> Some (rl\<lparr>rl_manager := m\<rparr>)
      | (None, m) \<Rightarrow> Some (rl\<lparr>rl_manager := m, rl_hup := SyncTaken\<rparr>))"
| "reload_step H ulower HupRead rl =
     (if rl_hup rl = SyncTaken then Some (rl\<lparr>rl_hup := SyncRead (Groups (rl_manager rl))\<rparr>) else None)"
| "reload_step H ulower (HupApply e fault now) rl =
     (case rl_hup rl of
        SyncRead gs \<Rightarrow> Some (rl\<lparr>rl_writer := snd (EnsureGroups e fault now gs (rl_writer rl)), rl_hup := SyncIdle\<rparr>)
      | _ \<Rightarrow> None)"
| "reload_step H ulower (StoreMessage env ev) rl =
     Some (rl\<lparr>rl_writer := snd (Write H ulower env ev (rl_writer rl))\<rparr>)"

end
