(* ===== verification/Auth_Properties.thy ===== *)
theory Auth_Properties
  imports Auth "HOL-Library.Multiset" "HOL-Library.Sublist"
begin

text \<open>
  Properties of the session (\<open>internal/auth/auth.go\<close>): normalisation, downloads under the
  policy, the accounting of a history sync and its default deny, the message queue, the
  connection status and the end of \<open>Serve\<close>.
\<close>

section \<open>Normalised events\<close>

lemma firstText_trimmed: "strings_TrimSpace (firstText vs) = firstText vs"
  by (induction vs rule: firstText.induct) (auto simp: Let_def)

lemma uint64ToInt64_bounds: "0 \<le> uint64ToInt64 v \<and> uint64ToInt64 v < 2 ^ 63"
  by (simp add: uint64ToInt64_def)

lemma known_ext_short: "known_ext base = Some e \<Longrightarrow> length e \<le> 12"
  by (auto simp: known_ext_def split: if_splits)

lemma mediaExt_short: "length (mediaExt ulower mime_exts mimeType title) \<le> 12"
  by (auto simp: mediaExt_def Let_def dest: known_ext_short split: option.splits list.splits)

lemma fallback_not_Nil: "fallbackMessageType ulower t \<noteq> []"
  by (simp add: fallbackMessageType_def Let_def)

lemma base_event_fields [simp]:
  "ev_ChatJID (base_event now evt) = em_chat evt" "ev_MsgID (base_event now evt) = em_id evt"
  "ev_SenderJID (base_event now evt) = em_sender evt" "ev_FromMe (base_event now evt) = em_from_me evt"
  "ev_Timestamp (base_event now evt) = (if em_unix evt = 0 then now else em_unix evt)"
  "ev_MediaBytes (base_event now evt) = []" "ev_SourcePK (base_event now evt) = 0"
  "ev_MediaSize (base_event now evt) = 0" "ev_MediaExt (base_event now evt) = []"
  "ev_MediaHydrationStatus (base_event now evt) = []" "ev_Text (base_event now evt) = []"
  "ev_MediaType (base_event now evt) = []"
  by (simp_all add: base_event_def)

lemma setMedia_fields [simp]:
  "ev_ChatJID (setMedia ul mx k mt ti u n ev) = ev_ChatJID ev" "ev_MsgID (setMedia ul mx k mt ti u n ev) = ev_MsgID ev"
  "ev_SenderJID (setMedia ul mx k mt ti u n ev) = ev_SenderJID ev" "ev_FromMe (setMedia ul mx k mt ti u n ev) = ev_FromMe ev"
  "ev_Timestamp (setMedia ul mx k mt ti u n ev) = ev_Timestamp ev" "ev_Text (setMedia ul mx k mt ti u n ev) = ev_Text ev"
  "ev_MediaBytes (setMedia ul mx k mt ti u n ev) = ev_MediaBytes ev" "ev_SourcePK (setMedia ul mx k mt ti u n ev) = ev_SourcePK ev"
  "ev_MediaHydrationStatus (setMedia ul mx k mt ti u n ev) = ev_MediaHydrationStatus ev"
  "ev_MessageType (setMedia ul mx k mt ti u n ev) = k" "ev_MediaType (setMedia ul mx k mt ti u n ev) = k"
  "ev_MediaSize (setMedia ul mx k mt ti u n ev) = uint64ToInt64 n"
  "ev_MediaExt (setMedia ul mx k mt ti u n ev) = mediaExt ul mx mt ti"
  by (simp_all add: setMedia_def)

lemma caption_event_fields [simp]:
  "ev_ChatJID (caption_event m ev) = ev_ChatJID ev" "ev_MsgID (caption_event m ev) = ev_MsgID ev"
  "ev_SenderJID (caption_event m ev) = ev_SenderJID ev" "ev_FromMe (caption_event m ev) = ev_FromMe ev"
  "ev_Timestamp (caption_event m ev) = ev_Timestamp ev" "ev_MediaBytes (caption_event m ev) = ev_MediaBytes ev"
  "ev_SourcePK (caption_event m ev) = ev_SourcePK ev"
  "ev_MediaHydrationStatus (caption_event m ev) = ev_MediaHydrationStatus ev"
  "ev_Text (caption_event m ev) = firstText [md_caption m, ev_Text ev]"
  by (simp_all add: caption_event_def)

definition media_kinds :: "string list" where
  "media_kinds = [''image'', ''document'', ''video'', ''audio'']"

text \<open>What every normalised event satisfies, whatever the message was.\<close>

definition event_ok :: "int64 \<Rightarrow> event_message \<Rightarrow> event \<times> media_part option \<Rightarrow> bool" where
  "event_ok now evt p \<longleftrightarrow>
     (case p of (ev, media) \<Rightarrow>
        event_key ev = (em_chat evt, em_id evt, em_sender evt, if em_unix evt = 0 then now else em_unix evt) \<and>
        ev_FromMe ev = em_from_me evt \<and> ev_SourcePK ev = 0 \<and> ev_MediaBytes ev = [] \<and>
        ev_MediaHydrationStatus ev = [] \<and> ev_MessageType ev \<noteq> [] \<and>
        0 \<le> ev_MediaSize ev \<and> ev_MediaSize ev < 2 ^ 63 \<and> length (ev_MediaExt ev) \<le> 12 \<and>
        (ev_MessageType ev \<noteq> ''poll'' \<longrightarrow> strings_TrimSpace (ev_Text ev) = ev_Text ev) \<and>
        (media \<noteq> None \<longrightarrow> ev_MessageType ev \<in> set media_kinds))"

lemma event_ok_media:
  "kind \<in> set media_kinds \<Longrightarrow> event_key ev = (em_chat evt, em_id evt, em_sender evt,
      if em_unix evt = 0 then now else em_unix evt) \<Longrightarrow> ev_FromMe ev = em_from_me evt \<Longrightarrow>
    ev_SourcePK ev = 0 \<Longrightarrow> ev_MediaBytes ev = [] \<Longrightarrow> ev_MediaHydrationStatus ev = [] \<Longrightarrow>
    strings_TrimSpace (ev_Text ev) = ev_Text ev \<Longrightarrow>
    event_ok now evt (setMedia ul mx kind mt ti u n ev, Some m)"
  using mediaExt_short uint64ToInt64_bounds
  by (auto simp: event_ok_def event_key_def media_kinds_def)

lemma text_event_fields [simp]:
  "ev_ChatJID (text_event b ev) = ev_ChatJID ev" "ev_MsgID (text_event b ev) = ev_MsgID ev"
  "ev_SenderJID (text_event b ev) = ev_SenderJID ev" "ev_FromMe (text_event b ev) = ev_FromMe ev"
  "ev_Timestamp (text_event b ev) = ev_Timestamp ev" "ev_MediaBytes (text_event b ev) = ev_MediaBytes ev"
  "ev_SourcePK (text_event b ev) = ev_SourcePK ev" "ev_MediaExt (text_event b ev) = ev_MediaExt ev"
  "ev_MediaHydrationStatus (text_event b ev) = ev_MediaHydrationStatus ev"
  "ev_MediaSize (text_event b ev) = ev_MediaSize ev"
  "strings_TrimSpace (ev_Text (text_event b ev)) = ev_Text (text_event b ev)"
  using firstText_trimmed
  by (auto simp: text_event_def Let_def simp del: firstText.simps split: option.splits)

declare firstText.simps [simp del]

lemma normalizeMessage_ok: "event_ok now evt (normalizeMessage ulower mime_exts now evt)"
proof (cases "em_message evt")
  case None
  then show ?thesis
    using fallback_not_Nil by (simp add: normalizeMessage_def event_ok_def event_key_def)
next
  case (Some msg)
  let ?b = "wa_body msg"
  note msg = Some
  note simps = normalizeMessage_def Let_def event_ok_def event_key_def media_kinds_def firstText_trimmed
  show ?thesis
  proof (cases "pollCreation msg")
    case (Some p)
    then show ?thesis
      using msg by (simp add: simps)
  next
    case None
    note no_poll = None msg
    show ?thesis
    proof (cases "wm_poll_vote ?b")
      case True
      then show ?thesis
        using no_poll by (simp add: simps)
    next
      case False
      consider (image) m where "wm_image ?b = Some m"
        | (document) m where "wm_image ?b = None" "wm_document ?b = Some m"
        | (video) m where "wm_image ?b = None" "wm_document ?b = None" "wm_video ?b = Some m"
        | (audio) m where "wm_image ?b = None" "wm_document ?b = None" "wm_video ?b = None" "wm_audio ?b = Some m"
        | (ptv) m where "wm_image ?b = None" "wm_document ?b = None" "wm_video ?b = None" "wm_audio ?b = None"
            "wm_ptv ?b = Some m"
        | (rest) "wm_image ?b = None" "wm_document ?b = None" "wm_video ?b = None" "wm_audio ?b = None"
            "wm_ptv ?b = None"
        by (cases "wm_image ?b"; cases "wm_document ?b"; cases "wm_video ?b"; cases "wm_audio ?b";
            cases "wm_ptv ?b") auto
      then show ?thesis
      proof cases
        case rest
        then show ?thesis
          using no_poll False fallback_not_Nil mediaExt_short uint64ToInt64_bounds
          by (cases "wm_sticker ?b") (simp_all add: simps)
      qed (use no_poll False mediaExt_short uint64ToInt64_bounds in \<open>simp_all add: simps\<close>)
    qed
  qed
qed

section \<open>Downloads\<close>

lemma event_key_fields:
  assumes "normalizeMessage ulower mime_exts now msg = (ev, media)"
  shows "ev_ChatJID ev = em_chat msg" "ev_MediaBytes ev = []" "ev_SourcePK ev = 0"
  using normalizeMessage_ok [of now msg ulower mime_exts] assms
  by (simp_all add: event_ok_def event_key_def)

lemma ApplyPolicy_cases:
  "ApplyPolicy ev h = (case Group (h_Config h) (ev_ChatJID ev) of
     None \<Rightarrow> ((ev, None), log_printf (MessageDropped (ev_ChatJID ev) (ev_MsgID ev)) h)
   | Some g \<Rightarrow> ((redact g ev, Some g), h))"
  by (simp add: ApplyPolicy_def)

lemma handleMessageFrom_denied:
  assumes "Group (h_Config h) (em_chat msg) = None"
  shows "handleMessageFrom ulower mime_exts put env msg source h s =
    (no_outcome, log_printf (MessageDropped (em_chat msg) (ev_MsgID (fst (normalizeMessage ulower mime_exts
       (me_now env) msg)))) h, s)"
proof -
  obtain ev media where n: "normalizeMessage ulower mime_exts (me_now env) msg = (ev, media)" by force
  show ?thesis
    using assms event_key_fields [OF n] by (simp add: handleMessageFrom_def n ApplyPolicy_cases)
qed

lemma handleMessageFrom_no_download:
  assumes "\<And>g. Group (h_Config h) (em_chat msg) = Some g \<Longrightarrow> \<not> g_CopyMedia g"
  shows "handleMessageFrom ulower mime_exts put (env\<lparr>me_download := d\<rparr>) msg source h s =
    handleMessageFrom ulower mime_exts put env msg source h s"
proof -
  obtain ev media where n: "normalizeMessage ulower mime_exts (me_now env) msg = (ev, media)" by force
  show ?thesis
    using assms event_key_fields(1) [OF n]
    by (cases media) (auto simp: handleMessageFrom_def n ApplyPolicy_cases split: option.splits)
qed

lemma download_media_fields:
  assumes "download_media env source ev m pe h = (ev', h')"
  shows "ev_ChatJID ev' = ev_ChatJID pe" "ev_Text ev' = ev_Text pe" "ev_MediaType ev' = ev_MediaType pe"
    "ev_MediaTitle ev' = ev_MediaTitle pe" "ev_MediaPath ev' = ev_MediaPath pe"
    "ev_MediaURL ev' = ev_MediaURL pe" "ev_MediaSize ev' = ev_MediaSize pe" "h_Config h' = h_Config h"
    "event_key ev' = event_key pe" "h_OnCommitted h' = h_OnCommitted h"
  using assms
  by (auto simp: download_media_def Let_def event_key_def split: sum.splits if_splits)

text \<open>The message goes through the listener, as the event it is under the policy seen first.\<close>

lemma handleMessageFrom_allowed:
  assumes "Group (h_Config h) (em_chat msg) = Some g"
    and "handleMessageFrom ulower mime_exts put env msg source h s = (oc, h', s')"
  obtains ev2 h2 h3 where
    "HandleResult put (me_instant env) ev2 (h2\<lparr>h_Config := me_reload env (h_Config h)\<rparr>) s =
       ((oc_Accepted oc, oc_Result oc, oc_Err oc), h3, s')"
    "h_Config h' = h_Config h3" "ev_ChatJID ev2 = em_chat msg" "h_Config h2 = h_Config h"
    "h_OnCommitted h2 = h_OnCommitted h" "h_OnCommitted h' = h_OnCommitted h3"
    "\<And>g' q. carries (redact g' ev2) q \<longleftrightarrow>
       carries (redact g' (redact g (fst (normalizeMessage ulower mime_exts (me_now env) msg)))) q"
    "event_key ev2 = event_key (fst (normalizeMessage ulower mime_exts (me_now env) msg))"
proof -
  obtain ev media where n: "normalizeMessage ulower mime_exts (me_now env) msg = (ev, media)" by force
  obtain ev2 h2 where d: "(case media of
      Some m \<Rightarrow> if g_CopyMedia g then download_media env source ev m (redact g ev) h else (redact g ev, h)
    | None \<Rightarrow> (redact g ev, h)) = (ev2, h2)" by force
  obtain a res r h3 s3 where r: "HandleResult put (me_instant env) ev2
      (h2\<lparr>h_Config := me_reload env (h_Config h2)\<rparr>) s = ((a, res, r), h3, s3)"
    by (metis prod.collapse)
  have f: "ev_ChatJID ev2 = em_chat msg" "h_Config h2 = h_Config h" "h_OnCommitted h2 = h_OnCommitted h"
    "event_key ev2 = event_key ev" "ev_Text ev2 = ev_Text (redact g ev)"
    "ev_MediaType ev2 = ev_MediaType (redact g ev)" "ev_MediaTitle ev2 = ev_MediaTitle (redact g ev)"
    "ev_MediaPath ev2 = ev_MediaPath (redact g ev)" "ev_MediaURL ev2 = ev_MediaURL (redact g ev)"
    "ev_MediaSize ev2 = ev_MediaSize (redact g ev)"
    using d event_key_fields [OF n] download_media_fields [of env source ev _ "redact g ev" h ev2 h2]
    by (auto split: option.splits if_splits)
  have eq: "handleMessageFrom ulower mime_exts put env msg source h s =
      (\<lparr>oc_Accepted = a, oc_Result = res, oc_Err = r\<rparr>, (case r of None \<Rightarrow> h3
         | Some e \<Rightarrow> log_printf (MessageHandleFailed (ev_ChatJID ev) (ev_MsgID ev) (Error e)) h3), s3)"
    using assms(1) event_key_fields(1) [OF n] d r
    by (simp add: handleMessageFrom_def n ApplyPolicy_cases)
  show thesis
  proof (rule that [of ev2 h2 h3])
    show "HandleResult put (me_instant env) ev2 (h2\<lparr>h_Config := me_reload env (h_Config h)\<rparr>) s =
        ((oc_Accepted oc, oc_Result oc, oc_Err oc), h3, s')"
      using eq assms(2) r f(2) by auto
    show "h_Config h' = h_Config h3" "h_OnCommitted h' = h_OnCommitted h3"
      using eq assms(2) by (auto split: option.splits)
    show "carries (redact g' ev2) q \<longleftrightarrow>
        carries (redact g' (redact g (fst (normalizeMessage ulower mime_exts (me_now env) msg)))) q" for g' q
      using f by (simp add: n carries_def)
  qed (use f n in simp_all)
qed

lemma handleMessageFrom_config:
  assumes "handleMessageFrom ulower mime_exts put env msg source h s = (oc, h', s')"
  shows "h_Config h' = h_Config h \<or> h_Config h' = me_reload env (h_Config h)"
proof (cases "Group (h_Config h) (em_chat msg)")
  case None
  then show ?thesis using assms handleMessageFrom_denied [OF None, of ulower mime_exts put env source s]
    by auto
next
  case (Some g)
  then show ?thesis
  proof (rule handleMessageFrom_allowed [OF _ assms])
    fix ev2 h2 h3
    assume "HandleResult put (me_instant env) ev2 (h2\<lparr>h_Config := me_reload env (h_Config h)\<rparr>) s =
        ((oc_Accepted oc, oc_Result oc, oc_Err oc), h3, s')" "h_Config h' = h_Config h3"
      "h_Config h2 = h_Config h"
    then show ?thesis by (cases rule: HandleResult_cases) simp_all
  qed
qed

section \<open>History syncs\<close>

text \<open>Messages accounted for: dispatched, skipped, or not parsed.\<close>

definition accounted :: "historySyncStats \<Rightarrow> nat" where
  "accounted st = hs_Dispatched st + hs_SkippedMessages st + hs_ParseErrors st"

lemma skip_conversation_fields [simp]:
  "accounted (skip_conversation n st) = accounted st + n"
  "hs_SkippedConversations (skip_conversation n st) = hs_SkippedConversations st + 1"
  "hs_AllowedConversations (skip_conversation n st) = hs_AllowedConversations st"
  "hs_Conversations (skip_conversation n st) = hs_Conversations st"
  "hs_Messages (skip_conversation n st) = hs_Messages st"
  "hs_RowsInserted (skip_conversation n st) = hs_RowsInserted st"
  "hs_Dispatched (skip_conversation n st) = hs_Dispatched st"
  by (simp_all add: skip_conversation_def accounted_def)

lemma history_message_stats:
  assumes "history_message ul mx put he env jid m st h s = (st', h', s')"
  shows "accounted st' = accounted st + 1" "hs_Conversations st' = hs_Conversations st"
    "hs_AllowedConversations st' = hs_AllowedConversations st"
    "hs_SkippedConversations st' = hs_SkippedConversations st" "hs_Messages st' = hs_Messages st"
    "hs_RowsInserted st \<le> hs_Dispatched st \<Longrightarrow> hs_RowsInserted st' \<le> hs_Dispatched st'"
  using assms
  by (auto simp: history_message_def accounted_def count_outcome_def
      split: option.splits if_splits sum.splits prod.splits)

lemma history_messages_stats:
  assumes "history_messages ul mx put he jid ms k st h s = (c, k', st', h', s')"
  shows "hs_Conversations st' = hs_Conversations st" "hs_AllowedConversations st' = hs_AllowedConversations st"
    "hs_SkippedConversations st' = hs_SkippedConversations st"
    "accounted st' + hs_Messages st = accounted st + hs_Messages st'"
    "accounted st' \<le> accounted st + length ms" "\<not> c \<Longrightarrow> accounted st' = accounted st + length ms"
    "c \<Longrightarrow> \<exists>k. he_ctx he k"
    "hs_RowsInserted st \<le> hs_Dispatched st \<Longrightarrow> hs_RowsInserted st' \<le> hs_Dispatched st'"
proof -
  have "hs_Conversations st' = hs_Conversations st \<and> hs_AllowedConversations st' = hs_AllowedConversations st \<and>
    hs_SkippedConversations st' = hs_SkippedConversations st \<and>
    accounted st' + hs_Messages st = accounted st + hs_Messages st' \<and>
    accounted st' \<le> accounted st + length ms \<and> (\<not> c \<longrightarrow> accounted st' = accounted st + length ms) \<and>
    (c \<longrightarrow> (\<exists>k. he_ctx he k)) \<and>
    (hs_RowsInserted st \<le> hs_Dispatched st \<longrightarrow> hs_RowsInserted st' \<le> hs_Dispatched st')"
    using assms
  proof (induction ms arbitrary: k st h s)
    case (Cons m ms)
    let ?st = "st\<lparr>hs_Messages := hs_Messages st + 1\<rparr>"
    show ?case
    proof (cases "he_ctx he k")
      case True
      then show ?thesis using Cons.prems by (auto simp: accounted_def)
    next
      case False
      obtain st1 h1 s1 where m: "history_message ul mx put he (he_env he k) jid m ?st h s = (st1, h1, s1)"
        by (metis prod.collapse)
      have "history_messages ul mx put he jid ms (Suc k) st1 h1 s1 = (c, k', st', h', s')"
        using Cons.prems False m by simp
      from Cons.IH [OF this] history_message_stats [OF m]
      show ?thesis by (auto simp: accounted_def)
    qed
  qed (auto simp: accounted_def)
  then show "hs_Conversations st' = hs_Conversations st" "hs_AllowedConversations st' = hs_AllowedConversations st"
    "hs_SkippedConversations st' = hs_SkippedConversations st"
    "accounted st' + hs_Messages st = accounted st + hs_Messages st'"
    "accounted st' \<le> accounted st + length ms" "\<not> c \<Longrightarrow> accounted st' = accounted st + length ms"
    "c \<Longrightarrow> \<exists>k. he_ctx he k"
    "hs_RowsInserted st \<le> hs_Dispatched st \<Longrightarrow> hs_RowsInserted st' \<le> hs_Dispatched st'"
    by blast+
qed

definition messages_in :: "conversation option list \<Rightarrow> nat" where
  "messages_in convs = sum_list (map (\<lambda>c. length (historySyncMessages c)) convs)"

text \<open>Never cancelled, or cancelled somewhere: what the totals are, and their bounds.\<close>

definition history_totals ::
  "bool \<Rightarrow> conversation option list \<Rightarrow> historySyncStats \<Rightarrow> historySyncStats \<Rightarrow> bool" where
  "history_totals whole convs st st' \<longleftrightarrow>
     hs_Conversations st' = hs_Conversations st \<and>
     (let done = hs_AllowedConversations st' + hs_SkippedConversations st';
          before = hs_AllowedConversations st + hs_SkippedConversations st
      in done \<le> before + length convs \<and> (whole \<longrightarrow> done = before + length convs)) \<and>
     accounted st' \<le> accounted st + messages_in convs \<and>
     (whole \<longrightarrow> accounted st' = accounted st + messages_in convs) \<and>
     accounted st + hs_Messages st' \<le> accounted st' + hs_Messages st \<and>
     (hs_RowsInserted st \<le> hs_Dispatched st \<longrightarrow> hs_RowsInserted st' \<le> hs_Dispatched st')"

lemma parse_jid_config [simp]: "h_Config (snd (parseHistorySyncChatJID he c h)) = h_Config h"
  by (auto simp: parseHistorySyncChatJID_def Let_def split: sum.splits)

lemma history_conversations_totals:
  "history_totals ((\<forall>k. \<not> he_ctx he k) \<and> (\<forall>j. \<not> he_conv he j)) convs st
     (fst (history_conversations ul mx put he convs j k st h s))"
proof (induction convs arbitrary: j k st h s)
  case (Cons conv convs)
  let ?whole = "(\<forall>k. \<not> he_ctx he k) \<and> (\<forall>j. \<not> he_conv he j)"
  have skip: "history_totals ?whole (conv # convs) st
      (fst (history_conversations ul mx put he convs j' k' (skip_conversation (length (historySyncMessages conv)) st) h' s'))"
    for j' k' h' s'
    using Cons.IH [of "skip_conversation (length (historySyncMessages conv)) st" j' k' h' s']
    by (auto simp: history_totals_def messages_in_def Let_def)
  show ?case
  proof (cases "he_conv he j \<or> conv = None")
    case True
    then consider "he_conv he j" | "\<not> he_conv he j" "conv = None" by blast
    then show ?thesis
    proof cases
      case 1
      then show ?thesis by (auto simp: history_totals_def Let_def)
    next
      case 2
      then show ?thesis using skip [of "Suc j" k h s] by (simp add: historySyncMessages_def)
    qed
  next
    case False
    then obtain c where c: "conv = Some c" "\<not> he_conv he j" by auto
    obtain jid h1 where p: "parseHistorySyncChatJID he c h = (jid, h1)" by force
    show ?thesis
    proof (cases "\<exists>x. jid = Some x \<and> IsAllowed (h_Config h1) x")
      case False
      then show ?thesis
        using skip [of "Suc j" k h1 s] c p by (cases jid) (auto simp: historySyncMessages_def)
    next
      case True
      then obtain x where x: "jid = Some x" "IsAllowed (h_Config h1) x" by blast
      let ?st = "st\<lparr>hs_AllowedConversations := hs_AllowedConversations st + 1\<rparr>"
      obtain b k1 st1 h2 s2 where m: "history_messages ul mx put he x (cv_messages c) k ?st h1 s =
          (b, k1, st1, h2, s2)" by (metis prod.collapse)
      note stats = history_messages_stats [OF m]
      show ?thesis
      proof (cases b)
        case True
        then show ?thesis
          using stats c p x m
          by (auto simp: history_totals_def messages_in_def historySyncMessages_def accounted_def Let_def)
      next
        case False
        then show ?thesis
          using stats c p x m Cons.IH [of st1 "Suc j" k1 h2 s2]
          by (auto simp: history_totals_def messages_in_def historySyncMessages_def accounted_def Let_def)
      qed
    qed
  qed
qed (auto simp: history_totals_def messages_in_def Let_def)

text \<open>
  A row that a message left: its chat was allowed by both managers that the message met,
  and its content went through both policies.
\<close>

definition passed ::
  "manager set \<Rightarrow> (string \<Rightarrow> string) \<Rightarrow> (string \<Rightarrow> string list option) \<Rightarrow> int64 \<Rightarrow> event_message \<Rightarrow> message_row \<Rightarrow> bool" where
  "passed M ulower mime_exts now msg q \<longleftrightarrow>
     (\<exists>m1\<in>M. \<exists>m2\<in>M. \<exists>g1 g2. Group m1 (em_chat msg) = Some g1 \<and> Group m2 (em_chat msg) = Some g2 \<and>
        carries (redact g2 (redact g1 (fst (normalizeMessage ulower mime_exts now msg)))) q)"

definition history_item :: "history_env \<Rightarrow> conversation option list \<Rightarrow> string \<Rightarrow> event_message \<Rightarrow> bool" where
  "history_item he convs jid msg \<longleftrightarrow>
     (\<exists>c w. Some c \<in> set convs \<and> Some w \<in> set (cv_messages c) \<and>
        he_parse_jid he (strings_TrimSpace (cv_id c)) = Inr jid \<and> he_parse he jid w = Inr (Some msg))"

definition history_row ::
  "manager set \<Rightarrow> (string \<Rightarrow> string) \<Rightarrow> (string \<Rightarrow> string list option) \<Rightarrow> history_env \<Rightarrow>
     (string \<Rightarrow> event_message \<Rightarrow> bool) \<Rightarrow> message_row \<Rightarrow> bool" where
  "history_row M ulower mime_exts he item q \<longleftrightarrow>
     (\<exists>jid msg k. item jid msg \<and> (\<exists>m\<in>M. IsAllowed m jid) \<and>
        passed M ulower mime_exts (me_now (he_env he k)) msg q)"

definition closed_under :: "manager set \<Rightarrow> history_env \<Rightarrow> bool" where
  "closed_under M he \<longleftrightarrow> (\<forall>k. \<forall>m\<in>M. me_reload (he_env he k) m \<in> M)"

context event_store begin

lemma message_rows:
  assumes "ok s" "h_Config h \<in> M" "\<forall>m\<in>M. me_reload env m \<in> M"
    and hm: "handleMessageFrom ul mx put env msg source h s = (oc, h', s')"
  shows "ok s' \<and> h_Config h' \<in> M \<and> (\<forall>q\<in>set (rows s'). q \<in> set (rows s) \<or> passed M ul mx (me_now env) msg q)"
proof (cases "Group (h_Config h) (em_chat msg)")
  case None
  then show ?thesis using assms handleMessageFrom_denied [OF None, of ul mx put env source s] by auto
next
  case (Some g)
  then obtain ev2 h2 h3 where r:
    "HandleResult put (me_instant env) ev2 (h2\<lparr>h_Config := me_reload env (h_Config h)\<rparr>) s =
       ((oc_Accepted oc, oc_Result oc, oc_Err oc), h3, s')"
    "ev_ChatJID ev2 = em_chat msg" "\<And>g' q. carries (redact g' ev2) q \<longleftrightarrow>
       carries (redact g' (redact g (fst (normalizeMessage ul mx (me_now env) msg)))) q"
    using handleMessageFrom_allowed [OF Some hm] by metis
  have "passed M ul mx (me_now env) msg q" if q: "q \<in> set (rows s')" "q \<notin> set (rows s)" for q
  proof -
    obtain g2 where "Group (me_reload env (h_Config h)) (em_chat msg) = Some g2" "carries (redact g2 ev2) q"
      using handle_rows [OF assms(1) r(1) q] r(2) by auto
    then show ?thesis
      unfolding passed_def using Some assms(2,3) r(3)
      by (intro bexI [of _ "h_Config h"] bexI [of _ "me_reload env (h_Config h)"] exI [of _ g] exI [of _ g2]) auto
  qed
  then show ?thesis
    using handle_keeps_ok [OF assms(1) r(1)] handleMessageFrom_config [OF hm] assms(2,3) by auto
qed

lemma history_messages_rows:
  assumes "ok s" "h_Config h \<in> M" "closed_under M he" "\<exists>m\<in>M. IsAllowed m jid"
    and "\<And>w msg. Some w \<in> set ms \<Longrightarrow> he_parse he jid w = Inr (Some msg) \<Longrightarrow> item jid msg"
    and "history_messages ul mx put he jid ms k st h s = (c, k', st', h', s')"
  shows "ok s' \<and> h_Config h' \<in> M \<and>
    (\<forall>q\<in>set (rows s'). q \<in> set (rows s) \<or> history_row M ul mx he item q)"
  using assms
proof (induction ms arbitrary: k st h s)
  case (Cons m ms)
  show ?case
  proof (cases "he_ctx he k")
    case True
    then show ?thesis using Cons.prems by auto
  next
    case False
    let ?st = "st\<lparr>hs_Messages := hs_Messages st + 1\<rparr>"
    obtain st1 h1 s1 where m: "history_message ul mx put he (he_env he k) jid m ?st h s = (st1, h1, s1)"
      by (metis prod.collapse)
    have first: "ok s1 \<and> h_Config h1 \<in> M \<and>
        (\<forall>q\<in>set (rows s1). q \<in> set (rows s) \<or> history_row M ul mx he item q)"
    proof (cases "\<exists>w msg. m = Some w \<and> validHistorySyncWebMessage m \<and> he_parse he jid w = Inr (Some msg)")
      case True
      then obtain w msg where w: "m = Some w" "validHistorySyncWebMessage m" "he_parse he jid w = Inr (Some msg)"
        by blast
      obtain oc h2 s2 where hm: "handleMessageFrom ul mx put (he_env he k) msg SourceHistorySync h s = (oc, h2, s2)"
        by (metis prod.collapse)
      have "item jid msg" by (rule Cons.prems(5) [of w]) (use w in simp_all)
      moreover have "h1 = h2 \<and> s1 = s2" using m w hm by (simp add: history_message_def)
      moreover have "\<forall>m\<in>M. me_reload (he_env he k) m \<in> M"
        using Cons.prems(3) by (simp add: closed_under_def)
      note message_rows [OF Cons.prems(1,2) this hm]
      ultimately show ?thesis
        using Cons.prems(4) unfolding history_row_def by blast
    next
      case False
      then have "h_Config h1 = h_Config h \<and> s1 = s"
        using m by (auto simp: history_message_def split: option.splits if_splits sum.splits)
      then show ?thesis using Cons.prems by auto
    qed
    have "history_messages ul mx put he jid ms (Suc k) st1 h1 s1 = (c, k', st', h', s')"
      using Cons.prems(6) False m by simp
    from Cons.IH [OF _ _ Cons.prems(3,4) _ this] first Cons.prems(5)
    show ?thesis by auto
  qed
qed simp

lemma history_conversations_rows:
  assumes "ok s" "h_Config h \<in> M" "closed_under M he"
    and "\<And>jid msg. history_item he convs jid msg \<Longrightarrow> item jid msg"
    and "history_conversations ul mx put he convs j k st h s = (st', h', s')"
  shows "ok s' \<and> h_Config h' \<in> M \<and>
    (\<forall>q\<in>set (rows s'). q \<in> set (rows s) \<or> history_row M ul mx he item q)"
  using assms
proof (induction convs arbitrary: j k st h s)
  case (Cons conv convs)
  have items: "history_item he convs jid msg \<Longrightarrow> item jid msg" for jid msg
    using Cons.prems(4) by (auto simp: history_item_def)
  note IH = Cons.IH [OF _ _ Cons.prems(3) items]
  show ?case
  proof (cases "he_conv he j \<or> conv = None")
    case True
    then show ?thesis
      using Cons.prems IH [OF Cons.prems(1,2), of "Suc j" k "skip_conversation 0 st"]
      by (cases "he_conv he j") auto
  next
    case False
    then obtain c where c: "conv = Some c" "\<not> he_conv he j" by auto
    obtain jid h1 where p: "parseHistorySyncChatJID he c h = (jid, h1)" by force
    then have h1: "h_Config h1 \<in> M" using Cons.prems(2) parse_jid_config [of he c h] by simp
    show ?thesis
    proof (cases "\<exists>x. jid = Some x \<and> IsAllowed (h_Config h1) x")
      case False
      then show ?thesis
        using c p Cons.prems(5)
          IH [OF Cons.prems(1) h1, of "Suc j" k "skip_conversation (length (cv_messages c)) st"]
        by (cases jid) auto
    next
      case True
      then obtain x where x: "jid = Some x" "IsAllowed (h_Config h1) x" by blast
      have jid: "he_parse_jid he (strings_TrimSpace (cv_id c)) = Inr x"
        using p x by (auto simp: parseHistorySyncChatJID_def Let_def split: if_splits sum.splits)
      let ?st = "st\<lparr>hs_AllowedConversations := hs_AllowedConversations st + 1\<rparr>"
      obtain b k1 st1 h2 s2 where m: "history_messages ul mx put he x (cv_messages c) k ?st h1 s =
          (b, k1, st1, h2, s2)" by (metis prod.collapse)
      have items: "item x msg" if "Some w \<in> set (cv_messages c)" "he_parse he x w = Inr (Some msg)" for w msg
        using that jid c by (intro Cons.prems(4)) (auto simp: history_item_def)
      have "\<exists>m\<in>M. IsAllowed m x" using x(2) h1 by blast
      then have first: "ok s2 \<and> h_Config h2 \<in> M \<and>
          (\<forall>q\<in>set (rows s2). q \<in> set (rows s) \<or> history_row M ul mx he item q)"
        by (rule history_messages_rows [OF Cons.prems(1) h1 Cons.prems(3) _ _ m]) (rule items)
      show ?thesis
      proof (cases b)
        case True
        then show ?thesis using first c p x m Cons.prems(5) by auto
      next
        case False
        have "history_conversations ul mx put he convs (Suc j) k1 st1 h2 s2 = (st', h', s')"
          using False c p x m Cons.prems(5) by simp
        from IH [OF _ _ _ this] first show ?thesis by auto
      qed
    qed
  qed
qed auto

lemma history_rows:
  assumes "ok s" "h_Config h \<in> M" "closed_under M he"
    and hs: "handleHistorySync ul mx put he has_config evt h s = (st, h', s')"
    and q: "q \<in> set (rows s')" "q \<notin> set (rows s)"
  shows "\<exists>d. evt = Some d \<and> history_row M ul mx he (history_item he (hd_conversations d)) q"
proof (cases evt)
  case None
  then show ?thesis using hs q by (simp add: handleHistorySync_def)
next
  case (Some d)
  show ?thesis
  proof (cases "hd_conversations d = [] \<or> \<not> has_config")
    case True
    then show ?thesis using hs q Some by (auto simp: handleHistorySync_def Let_def split: if_splits)
  next
    case False
    let ?st = "(new_stats (historySyncType evt))\<lparr>hs_Conversations := length (hd_conversations d)\<rparr>"
    have "history_conversations ul mx put he (hd_conversations d) 0 0 ?st h s = (st, h', s')"
      using hs Some False by (simp add: handleHistorySync_def Let_def)
    from history_conversations_rows [OF assms(1-3) _ this] q Some show ?thesis by blast
  qed
qed

end

text \<open>
  The store as a session meets it: the n-th write has its own faults and clock.
\<close>

definition stream_put ::
  "(string \<Rightarrow> string) \<Rightarrow> (string \<Rightarrow> string) \<Rightarrow> (nat \<Rightarrow> write_env) \<Rightarrow> event \<Rightarrow> writer \<times> nat \<Rightarrow>
     (result \<times> go_error option) \<times> writer \<times> nat" where
  "stream_put H ulower envs ev wn =
     (case Write H ulower (envs (snd wn)) ev (fst wn) of (r, w) \<Rightarrow> (r, w, Suc (snd wn)))"

lemma stream_put_Write:
  "stream_put H ulower envs ev wn = (r, wn') \<Longrightarrow> Write H ulower (envs (snd wn)) ev (fst wn) = (r, fst wn')"
  by (auto simp: stream_put_def split: prod.splits)

interpretation stream_store: event_store "stream_put H ulower envs"
  "\<lambda>wn. t_messages (durable (w_db (fst wn)))" "\<lambda>wn. w_files (fst wn)" "\<lambda>wn. db_ok H (durable (w_db (fst wn)))"
  for H ulower envs
proof
  fix ev res r and s s' :: "writer \<times> nat"
  assume p: "stream_put H ulower envs ev s = ((res, r), s')"
  note W = stream_put_Write [OF p]
  show "db_ok H (durable (w_db (fst s)))  \<Longrightarrow> db_ok H (durable (w_db (fst s')))"
    using listener_store.write_keeps_ok [OF _ W] .
  show "q \<in> set (t_messages (durable (w_db (fst s)))) \<or>
      (carries ev q \<and> (row_of mr_id (mr_id q) (t_messages (durable (w_db (fst s)))) = None \<longrightarrow> new_for ev q))"
    if "db_ok H (durable (w_db (fst s)))" "q \<in> set (t_messages (durable (w_db (fst s'))))" for q
    using listener_store.write_rows [OF that(1) W that(2)] .
  show "ev_MediaBytes ev = [] \<Longrightarrow> w_files (fst s') = w_files (fst s)"
    using listener_store.write_media [OF W] .
next
  fix ev res e and s s' :: "writer \<times> nat"
  assume "stream_put H ulower envs ev s = ((res, Some e), s')" "ev_MediaBytes ev = []"
  then show "t_messages (durable (w_db (fst s'))) = t_messages (durable (w_db (fst s)))"
    using listener_store.write_error [OF stream_put_Write] by blast
next
  fix ev res and s s' :: "writer \<times> nat"
  assume "stream_put H ulower envs ev s = ((res, None), s')"
  then show "\<exists>q. row_of mr_id (res_ID res) (t_messages (durable (w_db (fst s')))) = Some q \<and> carries ev q"
    using listener_store.write_stores [OF stream_put_Write] by blast
qed

section \<open>Properties\<close>

text \<open>
  C37. Normalisation is well formed for every message whatsmeow can deliver. The event has
  the message's identity, its time stamp is the message's or now when that is the epoch,
  its type is never empty, its media size is a non-negative int64, its extension has at
  most twelve bytes, its text is trimmed unless it is a poll's, it carries no media bytes
  yet and has no media that is downloaded later except an image, document, video or audio.
\<close>

theorem normalizeMessage_well_formed: "event_ok now evt (normalizeMessage ulower mime_exts now evt)"
  by (rule normalizeMessage_ok)

text \<open>
  C26. Media is only asked for where the policy copies it. A message whose chat is not
  allowed, or whose entry does not copy media, is handled without downloading anything:
  the outcome does not depend on what a download would give. If its chat's entry does not
  copy media when the listener looks at it either, no media file is written.
\<close>

theorem download_by_policy:
  assumes "\<And>g. Group (h_Config h) (em_chat msg) = Some g \<Longrightarrow> \<not> g_CopyMedia g"
  shows "handleMessageFrom ulower mime_exts (Write H ulower we) (env\<lparr>me_download := d\<rparr>) msg source h w =
      handleMessageFrom ulower mime_exts (Write H ulower we) env msg source h w \<and>
    (Group (h_Config h) (em_chat msg) = None \<longrightarrow>
       snd (snd (handleMessageFrom ulower mime_exts (Write H ulower we) env msg source h w)) = w) \<and>
    (me_reload env (h_Config h) = h_Config h \<longrightarrow>
       w_files (snd (snd (handleMessageFrom ulower mime_exts (Write H ulower we) env msg source h w))) = w_files w)"
proof -
  obtain oc h' w' where hm: "handleMessageFrom ulower mime_exts (Write H ulower we) env msg source h w =
      (oc, h', w')" by (metis prod.collapse)
  have "w_files w' = w_files w" if "me_reload env (h_Config h) = h_Config h"
  proof (cases "Group (h_Config h) (em_chat msg)")
    case None
    then show ?thesis using hm handleMessageFrom_denied [OF None] by (metis prod.inject)
  next
    case (Some g)
    then obtain ev2 h2 h3 where "HandleResult (Write H ulower we) (me_instant env) ev2
        (h2\<lparr>h_Config := me_reload env (h_Config h)\<rparr>) w = ((oc_Accepted oc, oc_Result oc, oc_Err oc), h3, w')"
      "ev_ChatJID ev2 = em_chat msg"
      using handleMessageFrom_allowed [OF Some hm] by metis
    from listener_store.handle_no_copy [OF this(1)] this(2) that assms show ?thesis by simp
  qed
  then show ?thesis
    using handleMessageFrom_no_download [OF assms] handleMessageFrom_denied hm by (metis snd_conv)
qed

text \<open>
  C28. The report of a history sync accounts for everything in it. If the context is not
  cancelled, every conversation counts as allowed or skipped and every message as
  dispatched, skipped or not parsed, none twice; at every cancellation the counts are
  bounded by these. No more messages are looked at than are accounted for, and no more
  rows are inserted than messages dispatched.
\<close>

theorem history_sync_accounting:
  assumes "handleHistorySync ulower mime_exts put he has_config (Some d) h s = (st, h', s')"
  shows "hs_Conversations st = length (hd_conversations d) \<and>
    hs_AllowedConversations st + hs_SkippedConversations st \<le> length (hd_conversations d) \<and>
    accounted st \<le> messages_in (hd_conversations d) \<and> hs_Messages st \<le> accounted st \<and>
    hs_RowsInserted st \<le> hs_Dispatched st \<and>
    ((\<forall>k. \<not> he_ctx he k) \<and> (\<forall>j. \<not> he_conv he j) \<longrightarrow>
       hs_AllowedConversations st + hs_SkippedConversations st = length (hd_conversations d) \<and>
       accounted st = messages_in (hd_conversations d))"
proof -
  let ?st = "(new_stats (historySyncType (Some d)))\<lparr>hs_Conversations := length (hd_conversations d)\<rparr>"
  consider "hd_conversations d = []" | "hd_conversations d \<noteq> []" "\<not> has_config"
    | "hd_conversations d \<noteq> []" has_config by blast
  then show ?thesis
  proof cases
    case 3
    then have "st = fst (history_conversations ulower mime_exts put he (hd_conversations d) 0 0 ?st h s)"
      using assms by (simp add: handleHistorySync_def Let_def)
    then show ?thesis
      using history_conversations_totals [of he "hd_conversations d" ?st ulower mime_exts put 0 0 h s]
      by (auto simp: history_totals_def new_stats_def accounted_def Let_def)
  qed (use assms in \<open>auto simp: handleHistorySync_def Let_def new_stats_def accounted_def messages_in_def\<close>)
qed

lemma carries_redacted:
  assumes "carries (redact g (redact g1 ev)) q"
  shows "(mr_text q = None \<or> g_IngestText g \<and> mr_text q = Some (ev_Text ev)) \<and>
    (\<not> g_IngestMediaMetadata g \<longrightarrow> mr_media_type q = None \<and> mr_media_title q = None \<and>
       mr_media_path q = None \<and> mr_media_url q = None \<and> mr_media_size q = None)"
  using assms by (auto simp: carries_def nullEmpty_def nullZero_def)

text \<open>
  C25. Default deny holds for history syncs too, whatever they contain, however often the
  configuration is reloaded during them and whatever each write meets. With all the
  configurations in force in \<open>M\<close>, every row that a sync adds or changes belongs to a
  message of the sync that whatsmeow parsed, in a conversation that one of them allows,
  and its text and media columns went through the policies of the message's chat.
\<close>

theorem history_sync_default_deny:
  assumes "db_ok H (durable (w_db w))" "h_Config h \<in> M" "closed_under M he"
    and "handleHistorySync ulower mime_exts (stream_put H ulower envs) he has_config evt h (w, n) =
      (st, h', w', n')"
    and "q \<in> set (t_messages (durable (w_db w')))" "q \<notin> set (t_messages (durable (w_db w)))"
  shows "\<exists>d jid msg k. evt = Some d \<and> history_item he (hd_conversations d) jid msg \<and>
    (\<exists>m\<in>M. IsAllowed m jid) \<and>
    (\<exists>m\<in>M. \<exists>g. Group m (em_chat msg) = Some g \<and>
       (mr_text q = None \<or> g_IngestText g \<and>
          mr_text q = Some (ev_Text (fst (normalizeMessage ulower mime_exts (me_now (he_env he k)) msg)))) \<and>
       (\<not> g_IngestMediaMetadata g \<longrightarrow> mr_media_type q = None \<and> mr_media_title q = None \<and>
          mr_media_path q = None \<and> mr_media_url q = None \<and> mr_media_size q = None))"
proof -
  obtain d where d: "evt = Some d" "history_row M ulower mime_exts he (history_item he (hd_conversations d)) q"
    using stream_store.history_rows [where s = "(w, n)" and s' = "(w', n')", OF _ assms(2-4), of q] assms(1,5,6)
    by auto
  obtain jid msg k where j: "history_item he (hd_conversations d) jid msg" "\<exists>m\<in>M. IsAllowed m jid"
    "passed M ulower mime_exts (me_now (he_env he k)) msg q"
    using d(2) unfolding history_row_def by blast
  then obtain m g1 g where g: "m \<in> M" "Group m (em_chat msg) = Some g"
    "carries (redact g (redact g1 (fst (normalizeMessage ulower mime_exts (me_now (he_env he k)) msg)))) q"
    unfolding passed_def by blast
  then show ?thesis
    using d(1) j(1,2) carries_redacted [OF g(3)] by blast
qed

text \<open>A concrete history sync: one allowed conversation of two messages, one of them broken.\<close>

definition sample_body :: wa_body where
  "sample_body = \<lparr>wm_conversation = ''hi'', wm_extended = None, wm_poll = None, wm_poll2 = None,
     wm_poll3 = None, wm_poll5 = None, wm_poll6 = None, wm_poll_vote = False, wm_image = None,
     wm_document = None, wm_video = None, wm_audio = None, wm_ptv = None, wm_sticker = None\<rparr>"

definition sample_message :: event_message where
  "sample_message = \<lparr>em_chat = ''1@lid'', em_id = ''A'', em_sender = ''2@lid'', em_push_name = ''S'',
     em_unix = 5, em_from_me = False, em_type = ''text'', em_message = Some (WaMessage sample_body None)\<rparr>"

definition sample_web :: web_message where
  "sample_web = \<lparr>wb_key = Some \<lparr>wk_id = ''A'', wk_remote = ''1@lid'', wk_participant = [], wk_from_me = False\<rparr>,
     wb_message = Some (WaMessage sample_body None), wb_timestamp = 5\<rparr>"

definition sample_history :: history_data where
  "sample_history = \<lparr>hd_sync_type = ''RECENT'', hd_on_demand = False,
     hd_conversations = [None, Some \<lparr>cv_id = ''1@lid'', cv_messages = [Some sample_web, None]\<rparr>]\<rparr>"

definition sample_message_env :: message_env where
  "sample_message_env = \<lparr>me_now = 9, me_instant = 9, me_download = (\<lambda>_. Inl (ErrMsg ''offline'')),
     me_reload = (\<lambda>m. m)\<rparr>"

definition sample_history_env :: history_env where
  "sample_history_env = \<lparr>he_parse_jid = Inr, he_parse = (\<lambda>_ _. Inr (Some sample_message)),
     he_conv = (\<lambda>_. False), he_ctx = (\<lambda>_. False), he_env = (\<lambda>_. sample_message_env)\<rparr>"

abbreviation sample_sync where
  "sample_sync \<equiv> handleHistorySync (\<lambda>s. s) (\<lambda>_. None) (stream_put (\<lambda>s. s) (\<lambda>s. s) (\<lambda>_. sample_env))
     sample_history_env True (Some sample_history) sample_handler (sample_writer, 0)"

theorem download_by_policy_witness:
  "handleMessageFrom (\<lambda>s. s) (\<lambda>_. None) (Write (\<lambda>s. s) (\<lambda>s. s) sample_env)
      (sample_message_env\<lparr>me_download := \<lambda>_. Inr ''x''\<rparr>) (sample_message\<lparr>em_chat := ''9@lid''\<rparr>)
      SourceLive sample_handler sample_writer =
    handleMessageFrom (\<lambda>s. s) (\<lambda>_. None) (Write (\<lambda>s. s) (\<lambda>s. s) sample_env) sample_message_env
      (sample_message\<lparr>em_chat := ''9@lid''\<rparr>) SourceLive sample_handler sample_writer"
proof -
  have "Group (h_Config sample_handler) (em_chat (sample_message\<lparr>em_chat := ''9@lid''\<rparr>)) = None"
    by code_simp
  then show ?thesis
    using download_by_policy [of sample_handler "sample_message\<lparr>em_chat := ''9@lid''\<rparr>"] by simp
qed

theorem history_sync_accounting_witness:
  "hs_Dispatched (fst sample_sync) + hs_SkippedMessages (fst sample_sync) +
     hs_ParseErrors (fst sample_sync) = 2"
proof -
  obtain st h s where r: "sample_sync = (st, h, s)" by (metis prod.collapse)
  have "messages_in (hd_conversations sample_history) = 2" by code_simp
  then show ?thesis
    using history_sync_accounting [OF r] r
    by (simp add: accounted_def) (simp add: sample_history_env_def)
qed

theorem history_sync_default_deny_witness:
  "\<exists>q. t_messages (durable (w_db (fst (snd (snd sample_sync))))) = [q] \<and> mr_text q = None"
proof -
  have "length (t_messages (durable (w_db (fst (snd (snd sample_sync)))))) = 1" by code_simp
  then obtain q where q: "t_messages (durable (w_db (fst (snd (snd sample_sync))))) = [q]"
    by (auto simp: length_Suc_conv)
  obtain st h w n where r: "sample_sync = (st, h, w, n)" by (metis prod.collapse)
  have c: "closed_under {h_Config sample_handler} sample_history_env"
    by (simp add: closed_under_def sample_history_env_def sample_message_env_def)
  have none: "t_messages (durable (w_db sample_writer)) = []" by code_simp
  have "\<not> g_IngestText g" if "Group (h_Config sample_handler) j = Some g" for g j
    using that by (auto simp: sample_handler_def Group_def split: if_splits)
  then show ?thesis
    using history_sync_default_deny [OF sample_store_ok _ c r, of q] q none r by auto
qed

section \<open>The queue\<close>

text \<open>The statements of the handler, of its calls that owe an update and of the worker, in any order.\<close>

datatype queue_op = Deliver event_message | CallStep nat | WorkerStep | WorkerStop

fun queue_step :: "queue_state \<Rightarrow> queue_op \<Rightarrow> queue_state" where
  "queue_step q (Deliver m) = deliver m q"
| "queue_step q (CallStep i) = handler_step i q"
| "queue_step q WorkerStep = worker_step q"
| "queue_step q WorkerStop = worker_stop q"

definition queue_run :: "bool \<Rightarrow> queue_op list \<Rightarrow> queue_state" where
  "queue_run has_health = foldl queue_step (new_queue has_health)"

lemma queue_run_snoc: "queue_run hh (ops @ [x]) = queue_step (queue_run hh ops) x"
  by (simp add: queue_run_def)

text \<open>The messages whose select found the channel with a number of messages that satisfies \<open>P\<close>.\<close>

definition delivered_when :: "bool \<Rightarrow> (nat \<Rightarrow> bool) \<Rightarrow> queue_op list \<Rightarrow> event_message list" where
  "delivered_when hh P ops = List.map_filter
     (\<lambda>k. case ops ! k of
             Deliver m \<Rightarrow> if P (length (qs_queue (queue_run hh (take k ops)))) then Some m else None
           | _ \<Rightarrow> None) [0..<length ops]"

lemma map_filter_cong: "(\<And>k. k \<in> set ks \<Longrightarrow> f k = g k) \<Longrightarrow> List.map_filter f ks = List.map_filter g ks"
  by (induction ks) (simp_all add: List.map_filter_simps split: option.split)

lemma map_filter_snoc:
  "List.map_filter f (ks @ [k]) = List.map_filter f ks @ (case f k of None \<Rightarrow> [] | Some y \<Rightarrow> [y])"
  by (simp add: List.map_filter_def split: option.split)

lemma delivered_when_snoc:
  "delivered_when hh P (ops @ [x]) = delivered_when hh P ops @
     (case x of Deliver m \<Rightarrow> if P (length (qs_queue (queue_run hh ops))) then [m] else [] | _ \<Rightarrow> [])"
proof -
  have "List.map_filter (\<lambda>k. case (ops @ [x]) ! k of
      Deliver m \<Rightarrow> if P (length (qs_queue (queue_run hh (take k (ops @ [x]))))) then Some m else None
    | _ \<Rightarrow> None) [0..<length ops] = delivered_when hh P ops"
    unfolding delivered_when_def by (rule map_filter_cong) (simp add: nth_append split: queue_op.split)
  moreover have "[0..<length (ops @ [x])] = [0..<length ops] @ [length ops]" by simp
  ultimately show ?thesis
    unfolding delivered_when_def [of hh P "ops @ [x]"] by (simp add: map_filter_snoc split: queue_op.split)
qed

text \<open>The message the worker has taken and not handled yet.\<close>

fun in_hand :: "worker_pc \<Rightarrow> event_message list" where
  "in_hand (Received m) = [m]"
| "in_hand (ReceivedLen m n) = [m]"
| "in_hand (Handling m) = [m]"
| "in_hand _ = []"

text \<open>The lengths that have been read and not stored yet.\<close>

fun worker_len :: "worker_pc \<Rightarrow> nat list" where
  "worker_len (ReceivedLen m n) = [n]"
| "worker_len (HandledLen n) = [n]"
| "worker_len _ = []"

definition had_length :: "bool \<Rightarrow> queue_op list \<Rightarrow> nat \<Rightarrow> bool" where
  "had_length hh ops n \<longleftrightarrow> (\<exists>k \<le> length ops. n = length (qs_queue (queue_run hh (take k ops))))"

lemma had_length_mono: "had_length hh ops n \<Longrightarrow> had_length hh (ops @ [x]) n"
  unfolding had_length_def by (metis append_eq_conv_conj le_SucI length_append_singleton take_append take_all_iff append_Nil2 diff_is_0_eq take0)

lemma had_length_here: "had_length hh (ops @ [x]) (length (qs_queue (queue_run hh ops)))"
  unfolding had_length_def by (intro exI [of _ "length ops"]) simp

definition lengths_read :: "queue_state \<Rightarrow> nat set" where
  "lengths_read q = {n. Some n \<in> set (qs_calls q)} \<union> set (worker_len (qs_worker q))"

lemma lengths_read_step:
  "lengths_read (queue_step q x) \<subseteq> insert (length (qs_queue q)) (lengths_read q)"
proof (cases x)
  case (CallStep i)
  have u: "n = m \<or> Some n \<in> set (qs_calls q)" if "Some n \<in> set ((qs_calls q)[i := Some m])" for n m
    using that set_update_subset_insert [of "qs_calls q" i "Some m"] by auto
  have d: "y \<in> set (qs_calls q)" if "y \<in> set (take i (qs_calls q)) \<or> y \<in> set (drop (Suc i) (qs_calls q))" for y
    using that by (blast dest: in_set_takeD in_set_dropD)
  show ?thesis
    using CallStep u d by (auto simp: handler_step_def set_depth_def lengths_read_def split: option.splits)
qed (auto simp: lengths_read_def deliver_def worker_step_def worker_stop_def set_depth_def
      split: worker_pc.splits list.splits)

lemma depth_step:
  "qs_depth (queue_step q x) = qs_depth q \<or>
   (qs_depth q \<noteq> None \<and> (\<exists>n \<in> lengths_read q. qs_depth (queue_step q x) = Some (int n)))"
proof (cases x)
  case (CallStep i)
  then show ?thesis
    by (cases "qs_depth q") (auto simp: handler_step_def set_depth_def lengths_read_def in_set_conv_nth
      split: option.splits)
next
  case WorkerStep
  then show ?thesis
    by (cases "qs_depth q") (auto simp: worker_step_def set_depth_def lengths_read_def
      split: worker_pc.splits list.splits)
qed (auto simp: deliver_def worker_stop_def)

lemma depth_read:
  "(\<forall>n \<in> lengths_read (queue_run hh ops). had_length hh ops n) \<and>
   (case qs_depth (queue_run hh ops) of None \<Rightarrow> \<not> hh | Some d \<Rightarrow> hh \<and> (\<exists>n. d = int n \<and> had_length hh ops n))"
proof (induction ops rule: rev_induct)
  case Nil
  then show ?case
    by (auto simp: queue_run_def new_queue_def lengths_read_def had_length_def)
next
  case (snoc x ops)
  let ?q = "queue_run hh ops"
  have read: "had_length hh (ops @ [x]) n" if "n \<in> lengths_read (queue_step ?q x)" for n
  proof (cases "n = length (qs_queue ?q)")
    case False
    then have "n \<in> lengths_read ?q" using that lengths_read_step [of ?q x] by blast
    then show ?thesis using snoc by (blast intro: had_length_mono)
  qed (simp add: had_length_here)
  have "case qs_depth (queue_step ?q x) of None \<Rightarrow> \<not> hh
      | Some d \<Rightarrow> hh \<and> (\<exists>n. d = int n \<and> had_length hh (ops @ [x]) n)"
    using depth_step [of ?q x]
  proof (elim disjE conjE bexE)
    assume "qs_depth (queue_step ?q x) = qs_depth ?q"
    then show ?thesis using snoc had_length_mono by (cases "qs_depth ?q") auto
  next
    fix n assume n: "qs_depth ?q \<noteq> None" "n \<in> lengths_read ?q" "qs_depth (queue_step ?q x) = Some (int n)"
    then have "had_length hh (ops @ [x]) n" using snoc had_length_mono by blast
    then show ?thesis using n snoc by (cases "qs_depth ?q") auto
  qed
  with read show ?case by (simp add: queue_run_snoc)
qed

lemma in_hand_step:
  "qs_handled (queue_step q x) @ in_hand (qs_worker (queue_step q x)) @ qs_queue (queue_step q x) =
     qs_handled q @ in_hand (qs_worker q) @ qs_queue q @
     (case x of Deliver m \<Rightarrow> if length (qs_queue q) < messageQueueSize then [m] else [] | _ \<Rightarrow> [])"
  by (cases x) (auto simp: deliver_def handler_step_def worker_step_def worker_stop_def set_depth_def
    split: worker_pc.splits list.splits option.splits)

lemma queue_bounded_step:
  "length (qs_queue q) \<le> messageQueueSize \<Longrightarrow> length (qs_queue (queue_step q x)) \<le> messageQueueSize"
  by (cases x) (auto simp: deliver_def handler_step_def worker_step_def worker_stop_def set_depth_def
    split: worker_pc.splits list.splits option.splits)

lemma dropped_step:
  "qs_dropped (queue_step q x) = qs_dropped q @
     (case x of Deliver m \<Rightarrow> if length (qs_queue q) < messageQueueSize then [] else [m] | _ \<Rightarrow> [])"
  by (cases x) (auto simp: deliver_def handler_step_def worker_step_def worker_stop_def set_depth_def
    split: worker_pc.splits list.splits option.splits)

text \<open>
  C15. The queue between the event handler and the worker keeps order and loses nothing
  silently, however the statements of the handler's calls and of the worker interleave.
  What the worker has handled, the message in its hand and what still waits are, in this
  order, exactly the messages that were delivered while fewer than 128 waited, in the order
  of delivery; the dropped ones are exactly those that were delivered while 128 waited; more
  never wait. The depth in the health status, where there is one, is a number of messages
  that did wait at some moment up to now.
\<close>

theorem queue_in_order:
  "qs_handled (queue_run hh ops) @ in_hand (qs_worker (queue_run hh ops)) @ qs_queue (queue_run hh ops) =
     delivered_when hh (\<lambda>n. n < messageQueueSize) ops \<and>
   qs_dropped (queue_run hh ops) = delivered_when hh (\<lambda>n. n = messageQueueSize) ops \<and>
   length (qs_queue (queue_run hh ops)) \<le> messageQueueSize \<and>
   (case qs_depth (queue_run hh ops) of
      None \<Rightarrow> \<not> hh
    | Some d \<Rightarrow> hh \<and> (\<exists>n. d = int n \<and> had_length hh ops n))"
proof (induction ops rule: rev_induct)
  case Nil
  then show ?case
    by (simp add: queue_run_def new_queue_def delivered_when_def had_length_def List.map_filter_simps)
next
  case (snoc x ops)
  then show ?case
    using in_hand_step [of "queue_run hh ops" x] dropped_step [of "queue_run hh ops" x]
      queue_bounded_step [of "queue_run hh ops" x] depth_read [of hh "ops @ [x]"]
    by (cases x) (auto simp: queue_run_snoc delivered_when_snoc simp del: queue_step.simps)
qed

section \<open>The session\<close>

text \<open>What an event says about the connection, and the end of the session it asks for.\<close>

fun event_up :: "conn_event \<Rightarrow> bool option" where
  "event_up Connected = Some True"
| "event_up OtherEvent = None"
| "event_up _ = Some False"

fun event_fatal :: "conn_event \<Rightarrow> go_error option" where
  "event_fatal (LoggedOut reason) = Some (ErrMsg (''WhatsApp logged out: '' @ reason))"
| "event_fatal StreamReplaced = Some (ErrMsg ''WhatsApp stream replaced by another client'')"
| "event_fatal (PermanentDisconnect d) = Some (ErrMsg (''WhatsApp permanent disconnect: '' @ d))"
| "event_fatal _ = None"

definition ups :: "(health_env \<times> conn_event) list \<Rightarrow> bool list" where
  "ups es = List.map_filter (\<lambda>(env, e). event_up e) es"

definition fatals :: "(health_env \<times> conn_event) list \<Rightarrow> go_error list" where
  "fatals es = List.map_filter (\<lambda>(env, e). event_fatal e) es"

definition health_bits :: "session \<Rightarrow> (bool \<times> bool) option" where
  "health_bits ss = map_option (\<lambda>sf. (st_Connected (fst sf), st_LoggedIn (fst sf))) (ss_health ss)"

lemma Status_Write_bits:
  "st_Connected (fst (snd (Status_Write now now2 io sf))) = st_Connected (fst sf)"
  "st_LoggedIn (fst (snd (Status_Write now now2 io sf))) = st_LoggedIn (fst sf)"
  by (simp_all add: Status_Write_def Let_def pruneLocked_def split: option.splits)

lemma event_health:
  "health_bits (snd (handleConnectionEvent env e ss)) =
     (case event_up e of None \<Rightarrow> health_bits ss | Some b \<Rightarrow> map_option (\<lambda>_. (b, b)) (health_bits ss))"
  by (cases e)
    (auto simp: health_bits_def setConnection_def send_fatal_def Let_def option.map_comp o_def
      SetConnection_def Status_Write_bits split_def)

lemma event_fatals:
  "ss_fatal (snd (handleConnectionEvent env e ss)) =
     take 1 (ss_fatal ss @ (case event_fatal e of None \<Rightarrow> [] | Some x \<Rightarrow> [x]))"
  if "length (ss_fatal ss) \<le> 1"
  using that
  by (cases e; cases "ss_fatal ss")
    (auto simp: setConnection_def send_fatal_def try_send_def Let_def)

lemma conn_run_fatal:
  "length (ss_fatal ss) \<le> 1 \<Longrightarrow> ss_fatal (conn_run es ss) = take 1 (ss_fatal ss @ fatals es)"
proof (induction es arbitrary: ss)
  case (Cons p es)
  obtain env e where p: "p = (env, e)" by (cases p)
  let ?ss = "snd (handleConnectionEvent env e ss)"
  have "length (ss_fatal ?ss) \<le> 1" using event_fatals [OF Cons.prems] by simp
  from Cons.IH [OF this] show ?case
    using p event_fatals [OF Cons.prems, of env e]
    by (cases "ss_fatal ss"; cases "event_fatal e")
      (simp_all add: conn_run_def fatals_def List.map_filter_simps)
qed (simp add: conn_run_def fatals_def List.map_filter_simps)

lemma conn_run_health:
  "health_bits (conn_run es ss) =
     (if ups es = [] then health_bits ss else map_option (\<lambda>_. (last (ups es), last (ups es))) (health_bits ss))"
proof (induction es arbitrary: ss)
  case (Cons p es)
  obtain env e where p: "p = (env, e)" by (cases p)
  have "conn_run (p # es) ss = conn_run es (snd (handleConnectionEvent env e ss))"
    using p by (simp add: conn_run_def)
  then show ?case
    using p Cons.IH event_health [of env e ss]
    by (cases "event_up e") (auto simp: ups_def List.map_filter_simps option.map_comp o_def)
qed (simp add: conn_run_def ups_def List.map_filter_simps)

text \<open>
  The health status follows the connection, and the first fatal event is the one that
  counts. After any sequence of events, connected and logged in are both what the last
  event that says something about the connection said, and both unchanged if none did;
  the channel that ends \<open>Serve\<close> holds the first fatal error, later ones are dropped.
\<close>

lemma connection_status:
  assumes "ss_fatal ss = []"
  shows "ss_fatal (conn_run es ss) = take 1 (fatals es) \<and>
    health_bits (conn_run es ss) =
      (if ups es = [] then health_bits ss
       else map_option (\<lambda>_. (last (ups es), last (ups es))) (health_bits ss))"
  using conn_run_fatal [of ss es] conn_run_health assms by simp

definition sample_health :: health_env where
  "sample_health = \<lparr>hv_now = 1, hv_now2 = 1, hv_io = \<lparr>hio_mkdir = None, hio_write = None, hio_rename = None\<rparr>\<rparr>"

definition sample_session :: session where
  "sample_session = \<lparr>ss_health = Some (NewStatus, None), ss_connected = [], ss_fatal = [], ss_states = []\<rparr>"

lemma openClient_closed:
  "openClient e db = (Inr dsn, left) \<Longrightarrow> left = [dsn]" "openClient e db = (Inl err, left) \<Longrightarrow> left = []"
  by (auto simp: openClient_def split: sum.splits option.splits if_splits)

text \<open>The stages before the select all succeeded.\<close>

definition serve_started :: "serve_env \<Rightarrow> string \<Rightarrow> bool" where
  "serve_started env authDB \<longleftrightarrow>
     se_has_handler env \<and> \<not> isl (fst (openClient (se_open env) authDB)) \<and> se_paired env \<and>
     se_connect env = None \<and> waitForClientReady ''30s'' (se_ready env) = Some None \<and>
     (case se_serve_ready env of Some (Some e) \<Rightarrow> False | _ \<Rightarrow> True)"

text \<open>
  C31. \<open>Serve\<close> never leaks the session database and only ends without an error when it was
  asked to. Whenever it returns, every container it opened is closed. It returns nil only
  if the client had been opened, paired, connected and ready, the readiness callback had
  not failed, and the context was done. If all that succeeded and the context is not done,
  it returns the first fatal event.
\<close>

theorem Serve_returns:
  assumes "Serve env authDB ss = (ServeReturned r, left, ss')" "ss_fatal ss = []"
  shows "left = [] \<and> (r = None \<longrightarrow> serve_started env authDB \<and> se_ctx_done env) \<and>
    (serve_started env authDB \<longrightarrow> \<not> se_ctx_done env \<longrightarrow>
       (\<exists>e es. fatals (se_events env) = e # es \<and> r = Some e))"
proof -
  obtain x l where o: "openClient (se_open env) authDB = (x, l)" by force
  show ?thesis
  proof (cases "serve_started env authDB")
    case True
    then obtain dsn where x: "x = Inr dsn" "l = [dsn]"
      using o openClient_closed(1) by (cases x) (auto simp: serve_started_def)
    let ?ss = "ss\<lparr>ss_health := map_option (\<lambda>(st, f). snd (Status_Write (hv_now (se_start env))
        (hv_now2 (se_start env)) (hv_io (se_start env)) (SetConnected False st, f))) (ss_health ss)\<rparr>"
    have "(case serve_select env (conn_run (se_events env) ?ss) of ServeWaiting \<Rightarrow> False
        | ServeReturned r' \<Rightarrow> r' = r \<and> left = [])"
      using True x o assms(1)
      by (auto simp: Serve_def Let_def serve_started_def split: option.splits serve_result.splits)
    moreover have "ss_fatal (conn_run (se_events env) ?ss) = take 1 (fatals (se_events env))"
      using conn_run_fatal [of ?ss] assms(2) by simp
    ultimately show ?thesis
      using True
      by (cases "fatals (se_events env)") (auto simp: serve_select_def split: if_splits)
  next
    case False
    have "left = [] \<and> r \<noteq> None"
    proof (cases x)
      case (Inl e)
      then show ?thesis
        using assms(1) o openClient_closed(2) by (cases "se_has_handler env") (auto simp: Serve_def)
    next
      case (Inr dsn)
      then have l: "l = [dsn]" using o openClient_closed(1) by simp
      show ?thesis
        using assms(1) o l Inr False
        by (cases "se_has_handler env"; cases "se_paired env"; cases "se_connect env";
            cases "waitForClientReady ''30s'' (se_ready env)")
          (auto simp: Serve_def Let_def serve_started_def split: option.splits)
    qed
    then show ?thesis using False by auto
  qed
qed

definition sample_serve :: serve_env where
  "sample_serve = \<lparr>se_has_handler = True,
     se_open = \<lparr>oe_abs = Inr ''/a'', oe_mkdir = None, oe_store = None, oe_device = None\<rparr>,
     se_paired = True, se_start = sample_health, se_connect = None,
     se_ready = [((False, False), WakeConnected), ((True, True), WakeTick)], se_serve_ready = None,
     se_events = [(sample_health, Connected), (sample_health, StreamReplaced)],
     se_ctx_done = False, se_prefer_ctx = False\<rparr>"

theorem Serve_returns_witness:
  "fst (Serve sample_serve ''a'' sample_session) =
     ServeReturned (Some (ErrMsg ''WhatsApp stream replaced by another client''))"
proof -
  obtain r left ss' where s: "Serve sample_serve ''a'' sample_session = (ServeReturned r, left, ss')"
    by (cases "fst (Serve sample_serve ''a'' sample_session)"; cases "Serve sample_serve ''a'' sample_session")
      (auto simp: Serve_def Let_def serve_select_def openClient_def sample_serve_def conn_run_def
        setConnection_def send_fatal_def try_send_def sample_session_def split: option.splits if_splits)
  have "serve_started sample_serve ''a''" "ss_fatal sample_session = []" by code_simp+
  moreover have "fatals (se_events sample_serve) = [ErrMsg ''WhatsApp stream replaced by another client'']"
    by (simp add: sample_serve_def fatals_def List.map_filter_simps)
  ultimately show ?thesis
    using Serve_returns [OF s] s by (simp add: sample_serve_def)
qed

end
