(* ===== verification/Backfill_Properties.thy ===== *)
theory Backfill_Properties
  imports Backfill Auth_Properties Unseen_Laws
begin

text \<open>
  Properties of the backfill (\<open>internal/backfill/backfill.go\<close>): the anchor it starts from,
  summaries and their merge, the requests it sends and the loops that send them.
\<close>

section \<open>Anchors\<close>

text \<open>What the driver returns for a row is an anchor made of its columns.\<close>

definition row_anchor :: "message_row \<Rightarrow> anchor" where
  "row_anchor r = \<lparr>an_ChatJID = mr_chat_jid r, an_MsgID = mr_msg_id r,
     an_SenderJID = coalesce_empty (mr_sender_jid r), an_Timestamp = mr_ts r, an_FromMe = mr_from_me r\<rparr>"

lemma anchorFromRow_columns:
  "anchorFromRow parse_jid (anchor_columns r) =
     (case MessageInfo parse_jid (row_anchor r) of Inl e \<Rightarrow> Inl e | Inr _ \<Rightarrow> Inr (row_anchor r))"
  by (cases "mr_from_me r")
    (simp_all add: anchorFromRow_def anchor_columns_def text_column_def row_anchor_def Let_def split: sum.splits)

lemma newest_anchor_cases:
  assumes scan: "scan_ok scan"
  obtains (none) "\<And>r. r \<in> set (t_messages t) \<Longrightarrow> \<not> p r"
      "newest_anchor parse_jid None scan p t = Inl ErrAnchorNotFound"
  | (row) r where "r \<in> set (t_messages t)" "p r"
      "\<And>r'. r' \<in> set (t_messages t) \<Longrightarrow> p r' \<Longrightarrow> newest_key r \<le> newest_key r'"
      "newest_anchor parse_jid None scan p t =
         (case MessageInfo parse_jid (row_anchor r) of Inl e \<Rightarrow> Inl e | Inr _ \<Rightarrow> Inr (row_anchor r))"
proof -
  have set: "set (scan (t_messages t)) = set (t_messages t)" by (rule set_scan [OF scan])
  let ?rows = "sort_key newest_key (filter p (scan (t_messages t)))"
  show thesis
  proof (cases ?rows)
    case Nil
    then have "set (filter p (scan (t_messages t))) = {}" by (metis set_sort empty_set)
    then show thesis using Nil set by (intro none) (auto simp: newest_anchor_def)
  next
    case (Cons r rs)
    have in_rows: "set ?rows = {x \<in> set (t_messages t). p x}" using set by auto
    have "sorted (map newest_key ?rows)" by simp
    then have least: "newest_key r \<le> newest_key r'" if "r' \<in> set ?rows" for r'
      using that Cons by auto
    show thesis
    proof (rule row)
      show "r \<in> set (t_messages t)" "p r" using Cons in_rows by auto
      show "newest_key r \<le> newest_key r'" if "r' \<in> set (t_messages t)" "p r'" for r'
        using that least in_rows by blast
      show "newest_anchor parse_jid None scan p t =
          (case MessageInfo parse_jid (row_anchor r) of Inl e \<Rightarrow> Inl e | Inr _ \<Rightarrow> Inr (row_anchor r))"
        using Cons by (simp add: newest_anchor_def anchorFromRow_columns)
    qed
  qed
qed

lemma newest_key_ts: "newest_key r \<le> newest_key r' \<Longrightarrow> mr_ts r' \<le> mr_ts r"
  by (auto simp: newest_key_def)

section \<open>Merging summaries\<close>

text \<open>The merge before the chats are sorted, which commutes with the steps of the fold.\<close>

definition merge_unsorted :: "summary \<Rightarrow> summary \<Rightarrow> summary" where
  "merge_unsorted a b =
     (MergeSummaries a b)\<lparr>sm_ChatJIDs := foldr List.insert (sm_ChatJIDs b) (sm_ChatJIDs a)\<rparr>"

definition stamp_ok :: "web_message option \<Rightarrow> bool" where
  "stamp_ok m \<longleftrightarrow> (case m of None \<Rightarrow> True | Some w \<Rightarrow> wb_timestamp w < 2 ^ 64)"

definition stamps_ok :: "conversation option list \<Rightarrow> bool" where
  "stamps_ok cs \<longleftrightarrow> (\<forall>c. Some c \<in> set cs \<longrightarrow> (\<forall>m\<in>set (cv_messages c). stamp_ok m))"

lemma message_ts_nonzero:
  assumes "stamp_ok (Some w)" "wb_timestamp w \<noteq> 0"
  shows "message_ts w \<noteq> 0"
proof -
  let ?x = "int (wb_timestamp w)" and ?N = "18446744073709551616 :: int" and ?M = "9223372036854775808 :: int"
  have x: "?x mod ?N = ?x" "0 < ?x"
    using assms by (simp_all add: stamp_ok_def)
  show ?thesis
  proof
    assume "message_ts w = 0"
    then have "(?x + ?M) mod ?N = ?M" by (simp add: message_ts_def wrap64_def)
    then have "(?x + ?M) mod ?N = ?M mod ?N" by simp
    then have "(?x + ?M - ?M) mod ?N = (?M - ?M) mod ?N" by (rule mod_diff_cong) (rule refl)
    then show False using x by simp
  qed
qed

lemma oldest_of_fields [simp]:
  "sm_SyncType (oldest_of x s) = sm_SyncType s" "sm_Conversations (oldest_of x s) = sm_Conversations s"
  "sm_Messages (oldest_of x s) = sm_Messages s"
  "sm_RequestedChatMessages (oldest_of x s) = sm_RequestedChatMessages s"
  "sm_MediaEnvelopes (oldest_of x s) = sm_MediaEnvelopes s"
  "sm_PrunedAgeMediaEnvelopes (oldest_of x s) = sm_PrunedAgeMediaEnvelopes s"
  "sm_MinTimestamp (oldest_of x s) = sm_MinTimestamp s" "sm_MaxTimestamp (oldest_of x s) = sm_MaxTimestamp s"
  "sm_ChatJIDs (oldest_of x s) = sm_ChatJIDs s"
  "sm_ContainsRequestedChat (oldest_of x s) = sm_ContainsRequestedChat s"
  "sm_SameDayBeforeAnchor (oldest_of x s) = sm_SameDayBeforeAnchor s"
  by (auto simp: oldest_of_def split: option.splits)

lemma summary_eqI:
  assumes "sm_SyncType s = sm_SyncType t" "sm_Conversations s = sm_Conversations t"
    "sm_Messages s = sm_Messages t" "sm_RequestedChatMessages s = sm_RequestedChatMessages t"
    "sm_MediaEnvelopes s = sm_MediaEnvelopes t" "sm_PrunedAgeMediaEnvelopes s = sm_PrunedAgeMediaEnvelopes t"
    "sm_MinTimestamp s = sm_MinTimestamp t" "sm_MaxTimestamp s = sm_MaxTimestamp t"
    "sm_ChatJIDs s = sm_ChatJIDs t" "sm_ContainsRequestedChat s = sm_ContainsRequestedChat t"
    "sm_SameDayBeforeAnchor s = sm_SameDayBeforeAnchor t"
    "sm_OldestRequestedChat s = sm_OldestRequestedChat t"
    "sm_OldestRequestedChatFound s = sm_OldestRequestedChatFound t"
  shows "s = (t :: summary)"
  using assms by (cases s; cases t) simp

definition oldest_field :: "summary \<Rightarrow> anchor option" where
  "oldest_field s = (if sm_OldestRequestedChatFound s then Some (sm_OldestRequestedChat s) else None)"

lemma merge_fields:
  "sm_SyncType (merge_unsorted a b) = (if sm_SyncType a = [] then sm_SyncType b else sm_SyncType a)"
  "sm_Conversations (merge_unsorted a b) = sm_Conversations a + sm_Conversations b"
  "sm_Messages (merge_unsorted a b) = sm_Messages a + sm_Messages b"
  "sm_RequestedChatMessages (merge_unsorted a b) = sm_RequestedChatMessages a + sm_RequestedChatMessages b"
  "sm_MediaEnvelopes (merge_unsorted a b) = sm_MediaEnvelopes a + sm_MediaEnvelopes b"
  "sm_PrunedAgeMediaEnvelopes (merge_unsorted a b) =
     sm_PrunedAgeMediaEnvelopes a + sm_PrunedAgeMediaEnvelopes b"
  "sm_MinTimestamp (merge_unsorted a b) =
     (if sm_MinTimestamp a = 0 \<or> (sm_MinTimestamp b \<noteq> 0 \<and> sm_MinTimestamp b < sm_MinTimestamp a)
      then sm_MinTimestamp b else sm_MinTimestamp a)"
  "sm_MaxTimestamp (merge_unsorted a b) = max (sm_MaxTimestamp a) (sm_MaxTimestamp b)"
  "sm_ChatJIDs (merge_unsorted a b) = foldr List.insert (sm_ChatJIDs b) (sm_ChatJIDs a)"
  "sm_ContainsRequestedChat (merge_unsorted a b) \<longleftrightarrow> sm_ContainsRequestedChat a \<or> sm_ContainsRequestedChat b"
  "sm_SameDayBeforeAnchor (merge_unsorted a b) \<longleftrightarrow> sm_SameDayBeforeAnchor a \<or> sm_SameDayBeforeAnchor b"
  "sm_OldestRequestedChatFound (merge_unsorted a b) \<longleftrightarrow>
     sm_OldestRequestedChatFound a \<or> sm_OldestRequestedChatFound b"
  "sm_OldestRequestedChat (merge_unsorted a b) =
     (if sm_OldestRequestedChatFound b \<and> (\<not> sm_OldestRequestedChatFound a \<or>
         an_Timestamp (sm_OldestRequestedChat b) < an_Timestamp (sm_OldestRequestedChat a))
      then sm_OldestRequestedChat b else sm_OldestRequestedChat a)"
  by (simp_all add: merge_unsorted_def MergeSummaries_def Let_def oldest_of_def)

lemma oldest_of_oldest [simp]:
  "sm_OldestRequestedChatFound (oldest_of x s) \<longleftrightarrow> sm_OldestRequestedChatFound s \<or> x \<noteq> None"
  "sm_OldestRequestedChat (oldest_of x s) = (case x of None \<Rightarrow> sm_OldestRequestedChat s
     | Some y \<Rightarrow> if \<not> sm_OldestRequestedChatFound s \<or> an_Timestamp y < an_Timestamp (sm_OldestRequestedChat s)
         then y else sm_OldestRequestedChat s)"
  by (auto simp: oldest_of_def split: option.splits)

text \<open>The step for a message in terms of the fields.\<close>

lemma summarize_message_fields:
  assumes "validWebMessage (Some w)"
    and "s' = summarize_message ts0 req now jid (Some w) s"
  shows "sm_SyncType s' = sm_SyncType s" "sm_Conversations s' = sm_Conversations s"
    "sm_Messages s' = sm_Messages s + 1"
    "sm_RequestedChatMessages s' = sm_RequestedChatMessages s + (if jid = req then 1 else 0)"
    "sm_MediaEnvelopes s' = sm_MediaEnvelopes s + (if hasMediaEnvelope (wb_message w) then 1 else 0)"
    "sm_PrunedAgeMediaEnvelopes s' = sm_PrunedAgeMediaEnvelopes s +
       (if hasMediaEnvelope (wb_message w) then (case now of None \<Rightarrow> 0
          | Some n \<Rightarrow> if n - time_Unix (message_ts w) * second \<ge> DefaultPruneAge then 1 else 0) else 0)"
    "sm_MinTimestamp s' = (if sm_MinTimestamp s = 0 \<or> message_ts w < sm_MinTimestamp s
       then message_ts w else sm_MinTimestamp s)"
    "sm_MaxTimestamp s' = max (sm_MaxTimestamp s) (message_ts w)"
    "sm_ChatJIDs s' = sm_ChatJIDs s" "sm_ContainsRequestedChat s' = sm_ContainsRequestedChat s"
    "sm_SameDayBeforeAnchor s' \<longleftrightarrow> sm_SameDayBeforeAnchor s \<or>
       sameUTCDay (message_ts w) ts0 \<and> message_ts w < ts0"
    "sm_OldestRequestedChatFound s' \<longleftrightarrow> sm_OldestRequestedChatFound s \<or>
       jid = req \<and> AnchorFromWebMessage jid (Some w) \<noteq> None"
    "sm_OldestRequestedChat s' = (if jid = req then (case AnchorFromWebMessage jid (Some w) of
         None \<Rightarrow> sm_OldestRequestedChat s
       | Some y \<Rightarrow> if \<not> sm_OldestRequestedChatFound s \<or> an_Timestamp y < an_Timestamp (sm_OldestRequestedChat s)
           then y else sm_OldestRequestedChat s) else sm_OldestRequestedChat s)"
  using assms(1) by (auto simp: assms(2) summarize_message_def Let_def max_def split: option.splits)

lemma merge_message:
  assumes "stamp_ok m"
  shows "merge_unsorted a (summarize_message ts0 req now jid m b) =
    summarize_message ts0 req now jid m (merge_unsorted a b)"
proof (cases "\<exists>w. m = Some w \<and> validWebMessage m")
  case False
  then show ?thesis by (auto simp: summarize_message_def split: option.splits)
next
  case True
  then obtain w where m: "m = Some w" "validWebMessage (Some w)" by blast
  have "wb_timestamp w \<noteq> 0" using m(2) by (auto simp: validWebMessage_def split: option.splits)
  then have nz: "message_ts w \<noteq> 0" using message_ts_nonzero assms m(1) by blast
  show ?thesis unfolding m(1)
    by (rule summary_eqI)
      (simp_all only: merge_fields summarize_message_fields [OF m(2) refl],
        use nz in \<open>auto simp: max_def split: option.splits\<close>)
qed

lemma merge_messages:
  "\<forall>m\<in>set ms. stamp_ok m \<Longrightarrow> merge_unsorted a (fold (summarize_message ts0 req now jid) ms b) =
     fold (summarize_message ts0 req now jid) ms (merge_unsorted a b)"
  by (induction ms arbitrary: b) (simp_all add: merge_message)

lemma insert_foldr: "foldr List.insert (List.insert x ys) zs = List.insert x (foldr List.insert ys zs)"
proof (cases "x \<in> set ys")
  case True
  then have "x \<in> set (foldr List.insert ys zs)" by (induction ys) auto
  then show ?thesis using True by (simp add: List.insert_def)
qed (simp add: List.insert_def)

lemma merge_note: "merge_unsorted a (note_conversation req jid b) = note_conversation req jid (merge_unsorted a b)"
  by (rule summary_eqI) (auto simp: note_conversation_def merge_fields insert_foldr Let_def)

lemma merge_conversation:
  "(\<And>c. conv = Some c \<Longrightarrow> \<forall>m\<in>set (cv_messages c). stamp_ok m) \<Longrightarrow>
   merge_unsorted a (summarize_conversation ts0 req now conv b) =
     summarize_conversation ts0 req now conv (merge_unsorted a b)"
  by (cases conv) (simp_all add: summarize_conversation_def merge_messages merge_note)

lemma merge_conversations:
  "stamps_ok cs \<Longrightarrow> merge_unsorted a (fold (summarize_conversation ts0 req now) cs b) =
     fold (summarize_conversation ts0 req now) cs (merge_unsorted a b)"
proof (induction cs arbitrary: b)
  case (Cons conv cs)
  have "stamps_ok cs" "\<And>c. conv = Some c \<Longrightarrow> \<forall>m\<in>set (cv_messages c). stamp_ok m"
    using Cons.prems by (auto simp: stamps_ok_def)
  then show ?case using Cons.IH merge_conversation by simp
qed simp

text \<open>The fold neither reads nor changes the number of conversations.\<close>

lemma summarize_frame:
  "summarize_message ts0 req now jid m (s\<lparr>sm_Conversations := n\<rparr>) =
     (summarize_message ts0 req now jid m s)\<lparr>sm_Conversations := n\<rparr>"
  "fold (summarize_message ts0 req now jid) ms (s\<lparr>sm_Conversations := n\<rparr>) =
     (fold (summarize_message ts0 req now jid) ms s)\<lparr>sm_Conversations := n\<rparr>"
  "summarize_conversation ts0 req now conv (s\<lparr>sm_Conversations := n\<rparr>) =
     (summarize_conversation ts0 req now conv s)\<lparr>sm_Conversations := n\<rparr>"
  "fold (summarize_conversation ts0 req now) cs (s\<lparr>sm_Conversations := n\<rparr>) =
     (fold (summarize_conversation ts0 req now) cs s)\<lparr>sm_Conversations := n\<rparr>"
proof -
  show 1: "summarize_message ts0 req now jid m (s\<lparr>sm_Conversations := n\<rparr>) =
     (summarize_message ts0 req now jid m s)\<lparr>sm_Conversations := n\<rparr>" for jid m s
  proof (cases "\<exists>w. m = Some w \<and> validWebMessage m")
    case True
    then obtain w where m: "m = Some w" "validWebMessage (Some w)" by blast
    show ?thesis unfolding m(1)
      by (rule summary_eqI) (simp_all add: summarize_message_fields [OF m(2) refl] split: option.split)
  qed (auto simp: summarize_message_def split: option.splits)
  show 2: "fold (summarize_message ts0 req now jid) ms (s\<lparr>sm_Conversations := n\<rparr>) =
     (fold (summarize_message ts0 req now jid) ms s)\<lparr>sm_Conversations := n\<rparr>" for jid ms s
    by (induction ms arbitrary: s) (simp_all add: 1)
  show 3: "summarize_conversation ts0 req now conv (s\<lparr>sm_Conversations := n\<rparr>) =
     (summarize_conversation ts0 req now conv s)\<lparr>sm_Conversations := n\<rparr>" for conv s
  proof -
    have "note_conversation req jid (s\<lparr>sm_Conversations := n\<rparr>) = (note_conversation req jid s)\<lparr>sm_Conversations := n\<rparr>"
      for jid by (simp add: note_conversation_def Let_def)
    then show ?thesis by (cases conv) (simp_all add: summarize_conversation_def 2)
  qed
  show "fold (summarize_conversation ts0 req now) cs (s\<lparr>sm_Conversations := n\<rparr>) =
     (fold (summarize_conversation ts0 req now) cs s)\<lparr>sm_Conversations := n\<rparr>"
    by (induction cs arbitrary: s) (simp_all add: 3)
qed

lemma fold_relation:
  assumes "\<And>x s. R s (f x s)" "\<And>s. R s s" "\<And>a b c. R a b \<Longrightarrow> R b c \<Longrightarrow> R a c"
  shows "R s (fold f xs s)"
proof (induction xs arbitrary: s)
  case (Cons x xs)
  show ?case using assms(3) [OF assms(1) Cons.IH] by simp
qed (simp add: assms(2))

definition keeps_head :: "summary \<Rightarrow> summary \<Rightarrow> bool" where
  "keeps_head s s' \<longleftrightarrow> sm_SyncType s' = sm_SyncType s \<and> sm_Conversations s' = sm_Conversations s \<and>
     sm_MaxTimestamp s \<le> sm_MaxTimestamp s'"

lemma keeps_head_trans: "keeps_head a b \<Longrightarrow> keeps_head b c \<Longrightarrow> keeps_head a c"
  by (auto simp: keeps_head_def)

lemma summarize_keeps: "keeps_head s (fold (summarize_conversation ts0 req now) cs s)"
proof (rule fold_relation [where R = keeps_head])
  fix conv s
  have "keeps_head s (summarize_message ts0 req now jid m s)" for jid m s
    by (simp add: keeps_head_def summarize_message_def Let_def split: option.splits)
  then have msgs: "keeps_head s (fold (summarize_message ts0 req now jid) ms s)" for jid ms s
    by (rule fold_relation [where R = keeps_head]) (auto simp: keeps_head_def)
  have "keeps_head s (note_conversation req jid s)" for jid
    by (simp add: keeps_head_def note_conversation_def Let_def)
  then show "keeps_head s (summarize_conversation ts0 req now conv s)"
    using keeps_head_trans [OF _ msgs]
    by (cases conv) (simp add: summarize_conversation_def keeps_head_def, simp add: summarize_conversation_def)
qed (auto simp: keeps_head_def)

lemma summarize_chats:
  "distinct (sm_ChatJIDs s) \<Longrightarrow> distinct (sm_ChatJIDs (fold (summarize_conversation ts0 req now) cs s))"
proof (induction cs arbitrary: s)
  case (Cons conv cs)
  have "sm_ChatJIDs (summarize_message ts0 req now jid m s) = sm_ChatJIDs s" for jid m s
    by (simp add: summarize_message_def Let_def split: option.splits)
  then have "sm_ChatJIDs (fold (summarize_message ts0 req now jid) ms s) = sm_ChatJIDs s" for jid ms s
    by (induction ms arbitrary: s) simp_all
  then have "distinct (sm_ChatJIDs (summarize_conversation ts0 req now conv s))"
    using Cons.prems by (cases conv) (auto simp: summarize_conversation_def note_conversation_def Let_def)
  from Cons.IH [OF this] show ?case by simp
qed simp

lemma foldr_insert: "set (foldr List.insert xs ys) = set xs \<union> set ys"
  "distinct ys \<Longrightarrow> distinct (foldr List.insert xs ys)"
  by (induction xs) auto

lemma sort_unique: "distinct xs \<Longrightarrow> distinct ys \<Longrightarrow> set xs = set ys \<Longrightarrow> sort xs = sort ys"
  by (rule sorted_distinct_set_unique) simp_all

lemma merge_sorted:
  assumes "distinct (sm_ChatJIDs a)" "distinct (sm_ChatJIDs b)"
  shows "(merge_unsorted a b)\<lparr>sm_ChatJIDs := sort (sm_ChatJIDs (merge_unsorted a b))\<rparr> =
    MergeSummaries (a\<lparr>sm_ChatJIDs := sort (sm_ChatJIDs a)\<rparr>) (b\<lparr>sm_ChatJIDs := sort (sm_ChatJIDs b)\<rparr>)"
proof -
  have "sort (foldr List.insert (sm_ChatJIDs b) (sm_ChatJIDs a)) =
      sort (remdups (sort (sm_ChatJIDs a) @ sort (sm_ChatJIDs b)))"
    using assms by (intro sort_unique) (auto simp: foldr_insert)
  then show ?thesis
    by (simp add: merge_unsorted_def MergeSummaries_def Let_def oldest_of_def)
qed

lemma SummarizeHistorySync_append:
  assumes "stamps_ok cs2"
  shows "SummarizeHistorySync (Some (d\<lparr>hd_conversations := cs1 @ cs2\<rparr>)) a req now =
    MergeSummaries (SummarizeHistorySync (Some (d\<lparr>hd_conversations := cs1\<rparr>)) a req now)
      (SummarizeHistorySync (Some (d\<lparr>hd_conversations := cs2\<rparr>)) a req now)"
proof -
  let ?z = "\<lambda>n. zero_summary\<lparr>sm_SyncType := hd_sync_type d, sm_Conversations := n\<rparr>"
  let ?F = "fold (summarize_conversation (an_Timestamp a) req now)"
  let ?A = "?F cs1 (?z (length cs1))" and ?B = "?F cs2 (?z (length cs2))"
  have "merge_unsorted ?A (?z (length cs2)) = ?A\<lparr>sm_Conversations := length (cs1 @ cs2)\<rparr>"
    using summarize_keeps [of "?z (length cs1)" "an_Timestamp a" req now cs1]
    by (intro summary_eqI) (auto simp: merge_fields zero_summary_def keeps_head_def)
  then have "merge_unsorted ?A ?B = ?F cs2 (?A\<lparr>sm_Conversations := length (cs1 @ cs2)\<rparr>)"
    using merge_conversations [OF assms] by simp
  also have "\<dots> = ?F (cs1 @ cs2) (?z (length (cs1 @ cs2)))"
    using summarize_frame(4) [where cs = cs1 and s = "?z (length cs1)" and n = "length (cs1 @ cs2)"] by simp
  finally have m: "?F (cs1 @ cs2) (?z (length (cs1 @ cs2))) = merge_unsorted ?A ?B" by simp
  have "distinct (sm_ChatJIDs ?A)" "distinct (sm_ChatJIDs ?B)"
    by (rule summarize_chats, simp add: zero_summary_def)+
  note sorted = merge_sorted [OF this]
  have d: "hd_conversations (d\<lparr>hd_conversations := cs\<rparr>) = cs"
    "hd_sync_type (d\<lparr>hd_conversations := cs\<rparr>) = hd_sync_type d" for cs by simp_all
  show ?thesis
    by (simp only: SummarizeHistorySync_def Let_def option.case d m sorted)
qed

lemma sameUTCDay_iff: "sameUTCDay a b \<longleftrightarrow> a \<noteq> 0 \<and> b \<noteq> 0 \<and> unix_day a = unix_day b"
  by (simp add: sameUTCDay_def utc_Date_eq_iff)

section \<open>Sending\<close>

lemma poll_ready_stable:
  assumes "poll_ready opts timeout since polls = Some None"
  obtains (inside) i j where "i \<le> j" "j < length polls"
      "\<And>k. i \<le> k \<Longrightarrow> k \<le> j \<Longrightarrow> snapshot_ready (po_snap (polls ! k))"
      "so_StableDuration opts \<le> 0 \<or> po_now (polls ! j) - po_now (polls ! i) \<ge> so_StableDuration opts"
  | (before) t j where "since = Some t" "j < length polls"
      "\<And>k. k \<le> j \<Longrightarrow> snapshot_ready (po_snap (polls ! k))" "po_now (polls ! j) - t \<ge> so_StableDuration opts"
  using assms
proof (induction polls arbitrary: since thesis)
  case (Cons p rest)
  let ?since = "if snapshot_ready (po_snap p)
    then (case since of None \<Rightarrow> Some (po_now p) | Some t \<Rightarrow> Some t) else None"
  show ?case
  proof (cases "snapshot_ready (po_snap p) \<and> (so_StableDuration opts = 0 \<or>
      (case ?since of None \<Rightarrow> False | Some t \<Rightarrow> po_now p - t \<ge> so_StableDuration opts))")
    case True
    show ?thesis
    proof (cases since)
      case None
      then show ?thesis using True by (intro Cons.prems(1) [of 0 0]) auto
    next
      case (Some t)
      then show ?thesis
        using True Cons.prems(1) [of 0 0] Cons.prems(2) [of t 0] by (cases "so_StableDuration opts = 0") auto
    qed
  next
    case False
    then have rest: "poll_ready opts timeout ?since rest = Some None"
      using Cons.prems(3) by (auto simp: Let_def split: poll_wake.splits)
    show ?thesis
    proof (rule Cons.IH [OF _ _ rest])
      fix i j assume "i \<le> j" "j < length rest" "\<And>k. i \<le> k \<Longrightarrow> k \<le> j \<Longrightarrow> snapshot_ready (po_snap (rest ! k))"
        "so_StableDuration opts \<le> 0 \<or> po_now (rest ! j) - po_now (rest ! i) \<ge> so_StableDuration opts"
      then show ?thesis
        by (intro Cons.prems(1) [of "Suc i" "Suc j"]) (auto simp: nth_Cons')
    next
      fix t j assume t: "?since = Some t" "j < length rest"
        "\<And>k. k \<le> j \<Longrightarrow> snapshot_ready (po_snap (rest ! k))" "po_now (rest ! j) - t \<ge> so_StableDuration opts"
      have all: "snapshot_ready (po_snap ((p # rest) ! k))" if "k \<le> Suc j" for k
        using that t(1,3) by (cases k) (auto split: if_splits)
      show ?thesis
      proof (cases since)
        case None
        then have "t = po_now p" using t(1) by (simp split: if_splits)
        then show ?thesis using all t(2,4) by (intro Cons.prems(1) [of 0 "Suc j"]) auto
      next
        case (Some u)
        then have "t = u" using t(1) by (simp split: if_splits)
        then show ?thesis using Some all t(2,4) by (intro Cons.prems(2) [of u "Suc j"]) auto
      qed
    qed
  qed
qed simp

lemma normalize_positive:
  "0 < so_ReadyTimeout (normalizeSendRetryOptions opts)" "0 \<le> so_StableDuration (normalizeSendRetryOptions opts)"
  "0 < so_InitialBackoff (normalizeSendRetryOptions opts)" "0 < so_MaxBackoff (normalizeSendRetryOptions opts)"
  "0 < so_PollInterval (normalizeSendRetryOptions opts)"
  "so_InitialBackoff (normalizeSendRetryOptions opts) \<le> so_MaxBackoff (normalizeSendRetryOptions opts)"
  by (auto simp: normalizeSendRetryOptions_def defaultSendRetryOptions_def positive_or_def Let_def
      second_def millisecond_def)

lemma normalize_idem: "normalizeSendRetryOptions (normalizeSendRetryOptions opts) = normalizeSendRetryOptions opts"
  by (auto simp: normalizeSendRetryOptions_def defaultSendRetryOptions_def positive_or_def Let_def
      second_def millisecond_def)

text \<open>
  A clock that does not go back, and pauses that last at least as long as asked.
\<close>

fun attempts_clocked :: "send_options \<Rightarrow> int \<Rightarrow> int \<Rightarrow> int \<Rightarrow> send_attempt list \<Rightarrow> bool" where
  "attempts_clocked opts deadline t backoff [] = True"
| "attempts_clocked opts deadline t backoff (a # rest) =
     (t \<le> sa_start a \<and> sa_start a \<le> sa_after a \<and>
      attempts_clocked opts deadline (sa_after a + min backoff (deadline - sa_after a))
        (min (2 * backoff) (so_MaxBackoff opts)) rest)"

text \<open>The polls of every attempt come to an end.\<close>

definition polls_end :: "send_options \<Rightarrow> int \<Rightarrow> send_attempt list \<Rightarrow> bool" where
  "polls_end opts deadline atts \<longleftrightarrow>
     (\<forall>a\<in>set atts. waitForPeerSendReady opts (deadline - sa_start a) (sa_polls a) \<noteq> None)"

lemma send_loop_returns:
  assumes "attempts_clocked opts deadline t backoff atts" "polls_end opts deadline atts"
    and "0 < I" "I \<le> backoff" "I \<le> so_MaxBackoff opts" "backoff \<le> so_MaxBackoff opts" "so_MaxBackoff opts < 2 ^ 62"
    and "deadline - t \<le> int n * I" "n + 1 < length atts"
  shows "send_loop opts deadline lastErr backoff atts \<noteq> None"
  using assms(1,2,4,6,8,9)
proof (induction atts arbitrary: t backoff lastErr n)
  case (Cons a rest)
  let ?next = "min (2 * backoff) (so_MaxBackoff opts)"
  let ?t = "sa_after a + min backoff (deadline - sa_after a)"
  have wrap: "wrap64 (backoff * 2) = 2 * backoff"
    using Cons.prems(3,4) assms(3,7) by (subst wrap64_id) (simp_all add: is_int64_def)
  have nxt: "(if wrap64 (backoff * 2) > so_MaxBackoff opts then so_MaxBackoff opts else wrap64 (backoff * 2)) = ?next"
    by (simp add: wrap min_def)
  have clock: "t \<le> sa_start a" "sa_start a \<le> sa_after a" "attempts_clocked opts deadline ?t ?next rest"
    using Cons.prems(1) by simp_all
  obtain w where w: "waitForPeerSendReady opts (deadline - sa_start a) (sa_polls a) = Some w"
    using Cons.prems(2) by (auto simp: polls_end_def)
  have rest: "send_loop opts deadline (Some e) ?next rest \<noteq> None"
    if late: "deadline - sa_start a > 0" "min backoff (deadline - sa_after a) > 0" for e
  proof (cases n)
    case 0
    then show ?thesis using Cons.prems(5) clock late by simp
  next
    case (Suc m)
    have "deadline - ?t \<le> int m * I"
    proof (cases "backoff \<le> deadline - sa_after a")
      case True
      have "deadline - ?t = deadline - sa_after a - backoff" using True by simp
      also have "\<dots> \<le> deadline - t - I" using clock Cons.prems(3) by linarith
      also have "\<dots> \<le> int m * I" using Cons.prems(5) Suc by (simp add: algebra_simps)
      finally show ?thesis .
    next
      case False
      then show ?thesis using assms(3) by simp
    qed
    moreover have "polls_end opts deadline rest" using Cons.prems(2) by (simp add: polls_end_def)
    moreover have "I \<le> ?next" using Cons.prems(3) assms(3,5) by simp
    ultimately show ?thesis
      using Cons.IH [OF clock(3), of m "Some e"] Cons.prems(6) Suc by simp
  qed
  show ?case
    using rest w nxt by (auto simp: Let_def min_def split: option.splits sum.splits if_splits)
qed simp

section \<open>The run\<close>

text \<open>The same request, with every call of \<open>OnRequestSent\<close> recorded.\<close>

definition logged :: "'s run_request \<Rightarrow> ('s \<times> request_sent list) run_request" where
  "logged req = \<lparr>rq_ChatJID = rq_ChatJID req, rq_Anchor = rq_Anchor req, rq_Limit = rq_Limit req,
     rq_ChunkSize = rq_ChunkSize req, rq_Timeout = rq_Timeout req, rq_Backoff = rq_Backoff req,
     rq_OnRequestSent = (\<lambda>x (s, log). case rq_OnRequestSent req x s of (e, s') \<Rightarrow> (e, s', log @ [x])),
     rq_OnHistorySyncReceived = (\<lambda>x (s, log). case rq_OnHistorySyncReceived req x s of (e, s') \<Rightarrow> (e, s', log)),
     rq_OnHistorySyncIngested = (\<lambda>x (s, log). case rq_OnHistorySyncIngested req x s of (e, s') \<Rightarrow> (e, s', log))\<rparr>"

definition total_requested :: "request_sent list \<Rightarrow> int" where
  "total_requested log = sum_list (map rs_Count log)"

lemma total_requested_simps [simp]: "total_requested [] = 0" "total_requested (log @ log') = total_requested log + total_requested log'"
  "total_requested (x # log) = rs_Count x + total_requested log"
  by (simp_all add: total_requested_def)

lemma chunk_answer_logged:
  assumes "chunk_answer (logged req) env a processed r (s, log) = (x, r', s', log')"
  shows "log' = log" "rr_Requested r' = rr_Requested r" "rr_Chunks r' = rr_Chunks r"
  using assms by (auto simp: chunk_answer_def logged_def Let_def split: prod.splits option.splits if_splits)

lemma run_chunk_logged:
  assumes "run_chunk pj hc (logged req) env a cnt r (s, log) = (x, r', s', log')"
  obtains (unsent) "log' = log" "rr_Requested r' = rr_Requested r" "rr_Chunks r' = rr_Chunks r"
      "\<And>a. x \<noteq> Some (ChunkNext a)"
  | (sent) y where "log' = log @ [y]" "rs_Count y = cnt" "rs_Anchor y = a"
      "rr_Requested r' = rr_Requested r + cnt" "rr_Chunks r' = rr_Chunks r + 1"
proof (cases "\<exists>sid. snd (sendHistorySyncRequest pj hc a cnt defaultSendRetryOptions (ce_now env)
    (ce_attempts env)) = Some (Inr sid)")
  case False
  then show thesis
    using assms by (intro unsent) (auto simp: run_chunk_def split: option.splits sum.splits)
next
  case True
  then obtain sid where sid: "snd (sendHistorySyncRequest pj hc a cnt defaultSendRetryOptions (ce_now env)
    (ce_attempts env)) = Some (Inr sid)" by blast
  let ?y = "\<lparr>rs_SendID = sid, rs_Anchor = a, rs_Count = cnt\<rparr>"
  let ?r = "r\<lparr>rr_LastSendID := sid, rr_Requested := rr_Requested r + cnt, rr_Chunks := rr_Chunks r + 1\<rparr>"
  obtain e s1 where c: "rq_OnRequestSent (logged req) ?y (s, log) = (e, s1, log @ [?y])"
    by (cases "rq_OnRequestSent req ?y s") (auto simp: logged_def)
  have "log' = log @ [?y] \<and> rr_Requested r' = rr_Requested ?r \<and> rr_Chunks r' = rr_Chunks ?r"
  proof (cases "\<exists>p. e = None \<and> WaitForProcessedOnDemand (rq_ChatJID (logged req)) (ce_answers env) = Some (Inr p)")
    case True
    then obtain p where p: "e = None"
      "WaitForProcessedOnDemand (rq_ChatJID (logged req)) (ce_answers env) = Some (Inr p)" by blast
    obtain x' r2 s2 log2 where ca: "chunk_answer (logged req) env a p ?r (s1, log @ [?y]) = (x', r2, s2, log2)"
      by (metis prod.collapse)
    then show ?thesis
      using assms sid c p chunk_answer_logged [OF ca] by (simp add: run_chunk_def Let_def)
  next
    case False
    then show ?thesis
      using assms sid c by (auto simp: run_chunk_def Let_def split: option.splits sum.splits)
  qed
  then show thesis by (intro sent [of ?y]) simp_all
qed

lemma run_chunks_logged:
  assumes "run_chunks pj hc (logged req) io C remaining k a r (s, log) = (out, s', log')" "0 < C"
  shows "\<exists>new. log' = log @ new \<and> (\<forall>y\<in>set new. 1 \<le> rs_Count y \<and> rs_Count y \<le> int C) \<and>
    total_requested new \<le> int remaining \<and>
    (\<forall>r' e. out = Some (r', e) \<longrightarrow> rr_Requested r' = rr_Requested r + total_requested new \<and>
       rr_Chunks r' = rr_Chunks r + length new \<and> (e = None \<longrightarrow> total_requested new = int remaining))"
  using assms
proof (induction remaining arbitrary: k a r s log rule: less_induct)
  case (less remaining)
  let ?cnt = "if remaining < C then remaining else C"
  show ?case
  proof (cases "remaining = 0")
    case True
    then show ?thesis using less.prems by (auto simp: run_chunks.simps)
  next
    case False
    obtain x r1 s1 log1 where c: "run_chunk pj hc (logged req) (io k) a (int ?cnt) r (s, log) = (x, r1, s1, log1)"
      by (metis prod.collapse)
    have cnt: "0 < ?cnt" "?cnt \<le> C" "?cnt \<le> remaining" using False less.prems(2) by auto
    have stopped: ?thesis if "out = None \<or> (\<exists>e. out = Some (r1, Some e))" "log' = log1"
      using c
    proof (cases rule: run_chunk_logged)
      case unsent
      then show ?thesis using that by (intro exI [of _ "[]"]) auto
    next
      case (sent y)
      then show ?thesis using that cnt by (intro exI [of _ "[y]"]) auto
    qed
    note eq = less.prems(1) [unfolded run_chunks.simps [of pj hc "logged req" io C remaining]]
    show ?thesis
    proof (cases "\<exists>a1. x = Some (ChunkNext a1)")
      case False
      then show ?thesis
        using eq c \<open>remaining \<noteq> 0\<close> less.prems(2)
        by (intro stopped) (auto simp: Let_def split: option.splits chunk_end.splits)
    next
      case True
      then obtain a1 where x: "x = Some (ChunkNext a1)" by blast
      obtain y where y: "log1 = log @ [y]" "rs_Count y = int ?cnt" "rr_Requested r1 = rr_Requested r + int ?cnt"
        "rr_Chunks r1 = rr_Chunks r + 1"
        using c by (cases rule: run_chunk_logged) (use x in auto)
      consider (last) "remaining - ?cnt = 0" | (slept) e where "remaining - ?cnt > 0" "ce_sleep (io k) = Some e"
        | (more) "remaining - ?cnt > 0" "ce_sleep (io k) = None"
        by (cases "ce_sleep (io k)") fastforce+
      then show ?thesis
      proof cases
        case last
        then have "out = Some (r1, None)" "log' = log1"
          using eq c x \<open>remaining \<noteq> 0\<close> less.prems(2) by (simp_all add: Let_def)
        then show ?thesis using y cnt last by (intro exI [of _ "[y]"]) auto
      next
        case slept
        then show ?thesis
          using eq c x \<open>remaining \<noteq> 0\<close> less.prems(2) by (intro stopped) (auto simp: Let_def)
      next
        case more
        then have go: "run_chunks pj hc (logged req) io C (remaining - ?cnt) (Suc k) a1 r1 (s1, log1) = (out, s', log')"
          using eq c x \<open>remaining \<noteq> 0\<close> less.prems(2) by (simp add: Let_def)
        have smaller: "remaining - ?cnt < remaining" using cnt by linarith
        obtain new where new: "log' = log1 @ new"
          "\<forall>y\<in>set new. 1 \<le> rs_Count y \<and> rs_Count y \<le> int C" "total_requested new \<le> int (remaining - ?cnt)"
          "\<forall>r' e. out = Some (r', e) \<longrightarrow> rr_Requested r' = rr_Requested r1 + total_requested new \<and>
             rr_Chunks r' = rr_Chunks r1 + length new \<and> (e = None \<longrightarrow> total_requested new = int (remaining - ?cnt))"
          using less.IH [OF smaller go less.prems(2)] by blast
        have sub: "int (remaining - ?cnt) = int remaining - int ?cnt"
          using cnt(3) by (rule of_nat_diff)
        show ?thesis
        proof (rule exI [of _ "y # new"], intro conjI)
          show "log' = log @ y # new" using new(1) y(1) by simp
          show "\<forall>z\<in>set (y # new). 1 \<le> rs_Count z \<and> rs_Count z \<le> int C"
            using new(2) y(2) cnt by auto
          show "total_requested (y # new) \<le> int remaining" using new(3) y(2) sub by simp
          show "\<forall>r' e. out = Some (r', e) \<longrightarrow> rr_Requested r' = rr_Requested r + total_requested (y # new) \<and>
             rr_Chunks r' = rr_Chunks r + length (y # new) \<and> (e = None \<longrightarrow> total_requested (y # new) = int remaining)"
          proof (intro allI impI)
            fix r' e assume "out = Some (r', e)"
            with new(4) have "rr_Requested r' = rr_Requested r1 + total_requested new" "rr_Chunks r' = rr_Chunks r1 + length new"
              "e = None \<longrightarrow> total_requested new = int (remaining - ?cnt)" by blast+
            then show "rr_Requested r' = rr_Requested r + total_requested (y # new) \<and>
                rr_Chunks r' = rr_Chunks r + length (y # new) \<and> (e = None \<longrightarrow> total_requested (y # new) = int remaining)"
              using y(2-4) sub by (simp only: total_requested_simps list.size) linarith
          qed
        qed
      qed
    qed
  qed
qed

section \<open>Properties\<close>

lemma MessageInfo_error:
  assumes "\<And>j e. parse_jid j = Inl e \<Longrightarrow> \<not> errors_Is e k" "MessageInfo parse_jid a = Inl e"
  shows "\<not> errors_Is e k"
  using assms by (auto simp: MessageInfo_def Let_def split: if_splits sum.splits)

text \<open>
  C34. The anchor of a backfill is the newest message there is to ask from. If \<open>LatestAnchor\<close>
  returns an anchor, it is a stored message with a chat, an id and a time stamp that
  whatsmeow can address, before the given time; no message of the chat before that time is
  newer, and only where the chat has none, and the caller allows it, is it the newest of
  any chat.
\<close>

theorem latest_anchor_newest:
  assumes "LatestAnchor parse_jid env q t = Inr a" "scan_ok (ae_scan env)"
    and foreign: "\<And>e. ae_query env = Some e \<or> (\<exists>j. parse_jid j = Inl e) \<Longrightarrow> \<not> errors_Is e AnchorNotFound"
  shows "\<exists>r chatJID. r \<in> set (t_messages t) \<and> a = row_anchor r \<and>
    (\<exists>info. MessageInfo parse_jid a = Inr info) \<and> anchor_filter chatJID (aq_Before q) r \<and>
    (\<forall>r'\<in>set (t_messages t). anchor_filter chatJID (aq_Before q) r' \<longrightarrow> mr_ts r' \<le> mr_ts r) \<and>
    (chatJID = aq_ChatJID q \<or> aq_FallbackAny q \<and> chatJID = [] \<and>
       (\<forall>r'\<in>set (t_messages t). \<not> anchor_filter (aq_ChatJID q) (aq_Before q) r'))"
proof -
  have found: "\<exists>r. r \<in> set (t_messages t) \<and> a = row_anchor r \<and> (\<exists>info. MessageInfo parse_jid a = Inr info) \<and>
      anchor_filter c (aq_Before q) r \<and>
      (\<forall>r'\<in>set (t_messages t). anchor_filter c (aq_Before q) r' \<longrightarrow> mr_ts r' \<le> mr_ts r)"
    if "latestAnchorFromDB parse_jid fault (ae_scan env) c (aq_Before q) t = Inr a" for fault c
  proof -
    have "fault = None" using that by (cases fault) (simp_all add: latestAnchorFromDB_def newest_anchor_def)
    with newest_anchor_cases [OF assms(2), of t "anchor_filter c (aq_Before q)" parse_jid] that
    show ?thesis unfolding latestAnchorFromDB_def
      by cases (auto dest: newest_key_ts split: sum.splits)
  qed
  show ?thesis
  proof (cases "latestAnchorFromDB parse_jid (ae_query env) (ae_scan env) (aq_ChatJID q) (aq_Before q) t")
    case (Inr b)
    then have "b = a" using assms(1) by (simp add: LatestAnchor_def split: option.splits)
    then show ?thesis using found Inr by blast
  next
    case (Inl e)
    then have fb: "errors_Is e AnchorNotFound" "aq_FallbackAny q"
      "latestAnchorFromDB parse_jid (ae_fallback env) (ae_scan env) [] (aq_Before q) t = Inr a"
      using assms(1) by (auto simp: LatestAnchor_def split: option.splits if_splits)
    have none: "ae_query env = None"
      using Inl fb(1) foreign
      by (cases "ae_query env") (auto simp: latestAnchorFromDB_def newest_anchor_def)
    have "\<not> errors_Is x AnchorNotFound" if "MessageInfo parse_jid y = Inl x" for x y
      using MessageInfo_error [OF _ that] foreign by blast
    note addressed = this
    have "\<forall>r'\<in>set (t_messages t). \<not> anchor_filter (aq_ChatJID q) (aq_Before q) r'"
      by (rule newest_anchor_cases [OF assms(2), of t "anchor_filter (aq_ChatJID q) (aq_Before q)" parse_jid])
        (use Inl fb(1) none addressed in \<open>auto simp: latestAnchorFromDB_def split: sum.splits\<close>)
    then show ?thesis using found [OF fb(3)] fb(2) by blast
  qed
qed

definition sample_jid :: "string \<Rightarrow> go_error + jid" where
  "sample_jid s = Inr \<lparr>jid_String = s, jid_Server = ''lid''\<rparr>"

definition sample_anchor_env :: anchor_env where
  "sample_anchor_env = \<lparr>ae_ctx = None, ae_open = None, ae_query = None, ae_fallback = None, ae_scan = (\<lambda>rs. rs)\<rparr>"

definition sample_query :: anchor_query where
  "sample_query = \<lparr>aq_ChatJID = ''9@lid'', aq_Before = Some 100, aq_FallbackAny = True\<rparr>"

theorem latest_anchor_newest_witness:
  "\<exists>r a. r \<in> set (t_messages (durable (w_db sample_stored))) \<and> a = row_anchor r \<and>
     LatestAnchor sample_jid sample_anchor_env sample_query (durable (w_db sample_stored)) = Inr a"
proof -
  let ?t = "durable (w_db sample_stored)"
  have "\<not> isl (LatestAnchor sample_jid sample_anchor_env sample_query ?t)"
    unfolding sample_stored_def by code_simp
  then obtain a where a: "LatestAnchor sample_jid sample_anchor_env sample_query ?t = Inr a"
    by (cases "LatestAnchor sample_jid sample_anchor_env sample_query ?t") auto
  have "scan_ok (ae_scan sample_anchor_env)" by (simp add: scan_ok_def sample_anchor_env_def)
  from latest_anchor_newest [OF a this] show ?thesis
    using a by (auto simp: sample_anchor_env_def sample_jid_def)
qed

text \<open>
  C33. Merging summaries is summarising together. The summary of a history sync is the merge
  of the summaries of its parts, however its conversations are split, with every count,
  the range of time stamps, the sorted set of chats and the oldest message, the first one
  on a tie. Time stamps are unsigned 64-bit numbers.
\<close>

theorem summaries_merge:
  assumes "stamps_ok cs2"
  shows "SummarizeHistorySync (Some (d\<lparr>hd_conversations := cs1 @ cs2\<rparr>)) a req now =
    MergeSummaries (SummarizeHistorySync (Some (d\<lparr>hd_conversations := cs1\<rparr>)) a req now)
      (SummarizeHistorySync (Some (d\<lparr>hd_conversations := cs2\<rparr>)) a req now)"
  by (rule SummarizeHistorySync_append [OF assms])

theorem summaries_merge_witness:
  "SummarizeHistorySync (Some (sample_history\<lparr>hd_conversations :=
        hd_conversations sample_history @ hd_conversations sample_history\<rparr>)) empty_anchor ''1@lid'' None =
   MergeSummaries (SummarizeHistorySync (Some (sample_history\<lparr>hd_conversations := hd_conversations sample_history\<rparr>))
       empty_anchor ''1@lid'' None)
     (SummarizeHistorySync (Some (sample_history\<lparr>hd_conversations := hd_conversations sample_history\<rparr>))
       empty_anchor ''1@lid'' None)"
  by (rule summaries_merge) (simp add: stamps_ok_def stamp_ok_def sample_history_def sample_web_def)

text \<open>
  C13. A backfill asks for what it was told to, never more. Every request asks for at least
  one message and at most the chunk size, which is at most fifty; all requests together
  never ask for more than the limit; the result counts exactly the requests that were
  sent; and a run that ends without an error has asked for exactly the limit.
\<close>

theorem backfill_bounded:
  assumes "RunProcessedRequests parse_jid has_client (logged req) io (s, []) = (out, s', log)"
  shows "(\<forall>y\<in>set log. 1 \<le> rs_Count y \<and> rs_Count y \<le> 50 \<and>
      (0 < rq_ChunkSize req \<longrightarrow> rs_Count y \<le> rq_ChunkSize req)) \<and>
    total_requested log \<le> max 0 (rq_Limit req) \<and>
    (\<forall>r e. out = Some (r, e) \<longrightarrow> rr_Requested r = total_requested log \<and> rr_Chunks r = length log \<and>
       (e = None \<longrightarrow> total_requested log = rq_Limit req))"
proof -
  let ?req = "logged req"
  let ?C = "effective_chunk (rq_ChunkSize req)" and ?a = "effective_anchor (rq_ChatJID req) (rq_Anchor req)"
  have f: "rq_Limit ?req = rq_Limit req" "rq_ChunkSize ?req = rq_ChunkSize req"
    "rq_Anchor ?req = rq_Anchor req" "rq_ChatJID ?req = rq_ChatJID req" by (simp_all add: logged_def)
  show ?thesis
  proof (cases "has_client \<and> 0 < rq_Limit req \<and> \<not> isl (MessageInfo parse_jid ?a)")
    case False
    then have "log = [] \<and> (\<exists>a e. out = Some (zero_run a, Some e))"
      using assms by (auto simp: RunProcessedRequests_def f Let_def split: if_splits sum.splits)
    then show ?thesis by (auto simp: zero_run_def)
  next
    case True
    then have run: "run_chunks parse_jid has_client ?req io (nat ?C) (nat (rq_Limit req)) 0 ?a (zero_run ?a) (s, []) =
        (out, s', log)"
      using assms by (cases "MessageInfo parse_jid ?a") (simp_all add: RunProcessedRequests_def f Let_def)
    have C: "0 < nat ?C" by (auto simp: effective_chunk_def DefaultChunkSize_def)
    obtain new where new: "log = [] @ new" "\<forall>y\<in>set new. 1 \<le> rs_Count y \<and> rs_Count y \<le> int (nat ?C)"
      "total_requested new \<le> int (nat (rq_Limit req))"
      "\<forall>r' e. out = Some (r', e) \<longrightarrow> rr_Requested r' = rr_Requested (zero_run ?a) + total_requested new \<and>
         rr_Chunks r' = rr_Chunks (zero_run ?a) + length new \<and> (e = None \<longrightarrow> total_requested new = int (nat (rq_Limit req)))"
      using run_chunks_logged [OF run C] by blast
    have "rs_Count y \<le> 50 \<and> (0 < rq_ChunkSize req \<longrightarrow> rs_Count y \<le> rq_ChunkSize req)" if "y \<in> set log" for y
      using that new(1,2) by (auto simp: effective_chunk_def DefaultChunkSize_def split: if_splits)
    moreover have "1 \<le> rs_Count y" if "y \<in> set log" for y using that new(1,2) by simp
    moreover have "total_requested log \<le> max 0 (rq_Limit req)" using new(1,3) by (auto simp: max_def split: if_splits)
    moreover have "rr_Requested r = total_requested log \<and> rr_Chunks r = length log \<and> (e = None \<longrightarrow> total_requested log = rq_Limit req)"
      if "out = Some (r, e)" for r e
      using that new(1,4) True by (simp add: zero_run_def)
    ultimately show ?thesis by blast
  qed
qed

definition sample_request :: "unit run_request" where
  "sample_request = \<lparr>rq_ChatJID = ''1@lid'', rq_Anchor = \<lparr>an_ChatJID = [], an_MsgID = ''B'', an_SenderJID = [],
     an_Timestamp = 100, an_FromMe = True\<rparr>, rq_Limit = 60, rq_ChunkSize = 0, rq_Timeout = 0, rq_Backoff = 0,
     rq_OnRequestSent = (\<lambda>_ s. (None, s)), rq_OnHistorySyncReceived = (\<lambda>_ s. (None, s)),
     rq_OnHistorySyncIngested = (\<lambda>_ s. (None, s))\<rparr>"

definition sample_poll :: "int \<Rightarrow> poll" where
  "sample_poll t = \<lparr>po_now = t, po_snap = \<lparr>cs_connected = True, cs_loggedIn = True\<rparr>, po_wake = PollTick\<rparr>"

definition sample_attempts :: "send_attempt list" where
  "sample_attempts =
     [\<lparr>sa_start = 0, sa_polls = map sample_poll [0, 800 * millisecond],
       sa_send = Inl (ErrSentinel NotConnected ''not connected''), sa_after = second, sa_sleep = None\<rparr>,
      \<lparr>sa_start = 2 * second, sa_polls = map sample_poll [2 * second, 3 * second],
       sa_send = Inr ''S'', sa_after = 3 * second, sa_sleep = None\<rparr>]"

definition sample_chunk :: chunk_env where
  "sample_chunk = \<lparr>ce_now = 0, ce_attempts = sample_attempts,
     ce_answers = [WaitValue \<lparr>hr_Event = Some (sample_history\<lparr>hd_on_demand := True\<rparr>),
       hr_Stats = zero_stats, hr_ProcessedAt = 0\<rparr>],
     ce_summary_now = 0, ce_response_now = 0, ce_sleep = None\<rparr>"

theorem backfill_bounded_witness:
  "total_requested (snd (snd (RunProcessedRequests sample_jid True (logged sample_request) (\<lambda>_. sample_chunk) ((), [])))) = 60"
proof -
  let ?R = "RunProcessedRequests sample_jid True (logged sample_request) (\<lambda>_. sample_chunk) ((), [])"
  obtain out s log where r: "?R = (out, s, log)" by (metis prod.collapse)
  have "(case fst ?R of Some (r, None) \<Rightarrow> True | _ \<Rightarrow> False)" by code_simp
  then obtain x where "out = Some (x, None)" using r by (auto split: option.splits prod.splits)
  then show ?thesis using backfill_bounded [OF r] r by (simp add: sample_request_def)
qed

text \<open>
  C30. Sending a request comes to an end. With a clock that does not go back and pauses that
  last as long as asked, the number of attempts is bounded by the ratio of the time allowed
  to the first pause: given that many attempts whose polls end, the call has returned.
\<close>

theorem send_terminates:
  fixes opts0 :: send_options
  defines "opts \<equiv> normalizeSendRetryOptions opts0"
  assumes "attempts_clocked opts (now + so_ReadyTimeout opts) now (so_InitialBackoff opts) atts"
    and "polls_end opts (now + so_ReadyTimeout opts) atts"
    and "so_MaxBackoff opts < 2 ^ 62"
    and "nat (so_ReadyTimeout opts div so_InitialBackoff opts) + 2 < length atts"
  shows "snd (sendHistorySyncRequest parse_jid has_client a n opts0 now atts) \<noteq> None"
proof -
  let ?I = "so_InitialBackoff opts"
  have I: "0 < ?I" "?I \<le> so_MaxBackoff opts" "0 < so_ReadyTimeout opts"
    using normalize_positive [of opts0] by (simp_all add: opts_def)
  have q: "0 \<le> so_ReadyTimeout opts div ?I" using I by (simp add: pos_imp_zdiv_nonneg_iff)
  have "so_ReadyTimeout opts div ?I * ?I + so_ReadyTimeout opts mod ?I = so_ReadyTimeout opts"
    "so_ReadyTimeout opts mod ?I < ?I" using I(1) by simp_all
  then have "so_ReadyTimeout opts \<le> (so_ReadyTimeout opts div ?I + 1) * ?I"
    by (simp only: distrib_right mult_1)
  then have "(now + so_ReadyTimeout opts) - now \<le> int (nat (so_ReadyTimeout opts div ?I) + 1) * ?I"
    using q by (simp add: add.commute)
  from send_loop_returns [OF assms(2,3) I(1) order_refl I(2) I(2) assms(4) this, of None] assms(5)
  show ?thesis
    by (auto simp: sendHistorySyncRequest_def Let_def simp flip: opts_def split: sum.splits)
qed

text \<open>Forty-three attempts are more than 10 s of pauses of 250 ms and longer allow.\<close>

fun failing_attempts :: "nat \<Rightarrow> int \<Rightarrow> int \<Rightarrow> send_attempt list" where
  "failing_attempts 0 t backoff = []"
| "failing_attempts (Suc n) t backoff =
     \<lparr>sa_start = t, sa_polls = [sample_poll t, sample_poll (t + 1000000000)],
      sa_send = Inl (ErrSentinel NotConnected ''not connected''), sa_after = t, sa_sleep = None\<rparr> #
     failing_attempts n (t + backoff) (min (2 * backoff) 2000000000)"

theorem send_terminates_witness:
  "snd (sendHistorySyncRequest sample_jid True \<lparr>an_ChatJID = ''c'', an_MsgID = ''B'', an_SenderJID = [],
     an_Timestamp = 100, an_FromMe = True\<rparr> 5 defaultSendRetryOptions 0
     (failing_attempts 43 0 250000000)) \<noteq> None"
  by (rule send_terminates) code_simp+

lemma send_loop_sent:
  "send_loop opts deadline lastErr backoff atts = Some (Inr sid) \<Longrightarrow>
   \<exists>k timeout. k < length atts \<and> sa_send (atts ! k) = Inr sid \<and>
     (\<forall>j<k. \<exists>e. sa_send (atts ! j) = Inl e \<and> isTransientSendConnectionError e) \<and>
     waitForPeerSendReady opts timeout (sa_polls (atts ! k)) = Some None"
proof (induction atts arbitrary: lastErr backoff)
  case (Cons a rest)
  have late: "\<not> deadline - sa_start a \<le> 0"
    and ready: "waitForPeerSendReady opts (deadline - sa_start a) (sa_polls a) = Some None"
    using Cons.prems by (auto split: if_splits option.splits)
  show ?case
  proof (cases "sa_send a")
    case (Inr x)
    then show ?thesis
      using Cons.prems late ready by (intro exI [of _ 0] exI [of _ "deadline - sa_start a"]) simp
  next
    case (Inl e)
    then have trans: "isTransientSendConnectionError e"
      and more: "\<exists>b. send_loop opts deadline (Some e) b rest = Some (Inr sid)"
      using Cons.prems late ready by (auto simp: Let_def split: if_splits option.splits)
    then obtain k timeout where k: "k < length rest" "sa_send (rest ! k) = Inr sid"
      "\<forall>j<k. \<exists>e. sa_send (rest ! j) = Inl e \<and> isTransientSendConnectionError e"
      "waitForPeerSendReady opts timeout (sa_polls (rest ! k)) = Some None"
      using Cons.IH by blast
    have "\<exists>e. sa_send ((a # rest) ! j) = Inl e \<and> isTransientSendConnectionError e" if "j < Suc k" for j
      using that k(3) trans Inl by (cases j) auto
    then show ?thesis
      using k by (intro exI [of _ "Suc k"] exI [of _ timeout]) simp
  qed
qed simp

lemma poll_ready_settled:
  assumes "poll_ready opts timeout None polls = Some None" "0 \<le> so_StableDuration opts"
  shows "\<exists>i j. i \<le> j \<and> j < length polls \<and>
      (\<forall>l. i \<le> l \<and> l \<le> j \<longrightarrow> snapshot_ready (po_snap (polls ! l))) \<and>
      so_StableDuration opts \<le> po_now (polls ! j) - po_now (polls ! i)"
  using assms(1)
proof (rule poll_ready_stable)
  fix i j
  assume ij: "i \<le> j" "j < length polls" "\<And>k. i \<le> k \<Longrightarrow> k \<le> j \<Longrightarrow> snapshot_ready (po_snap (polls ! k))"
    "so_StableDuration opts \<le> 0 \<or> po_now (polls ! j) - po_now (polls ! i) \<ge> so_StableDuration opts"
  show ?thesis
  proof (cases "so_StableDuration opts \<le> 0")
    case True
    then show ?thesis using ij assms(2) by (intro exI [of _ j]) auto
  next
    case False
    then show ?thesis using ij by blast
  qed
qed simp

text \<open>
  C29. A request is only sent on a settled connection and only retried on a connection error.
  If the call returns the id of a sent message, it is the answer to one of the attempts;
  every earlier attempt failed because the client was not connected; and before that
  attempt the polls saw the client connected and logged in, without a break, for at least
  the stable duration.
\<close>

theorem sent_when_stable:
  assumes "snd (sendHistorySyncRequest parse_jid has_client a n opts0 now atts) = Some (Inr sid)"
  shows "\<exists>k < length atts. sa_send (atts ! k) = Inr sid \<and>
    (\<forall>j<k. \<exists>e. sa_send (atts ! j) = Inl e \<and> isTransientSendConnectionError e) \<and>
    (\<exists>i j. i \<le> j \<and> j < length (sa_polls (atts ! k)) \<and>
      (\<forall>l. i \<le> l \<and> l \<le> j \<longrightarrow> snapshot_ready (po_snap (sa_polls (atts ! k) ! l))) \<and>
      so_StableDuration (normalizeSendRetryOptions opts0) \<le>
        po_now (sa_polls (atts ! k) ! j) - po_now (sa_polls (atts ! k) ! i))"
proof -
  let ?opts = "normalizeSendRetryOptions opts0"
  obtain d b where "send_loop ?opts d None b atts = Some (Inr sid)"
    using assms by (auto simp: sendHistorySyncRequest_def Let_def split: if_splits sum.splits)
  then obtain k timeout where k: "k < length atts" "sa_send (atts ! k) = Inr sid"
    "\<forall>j<k. \<exists>e. sa_send (atts ! j) = Inl e \<and> isTransientSendConnectionError e"
    "waitForPeerSendReady ?opts timeout (sa_polls (atts ! k)) = Some None"
    using send_loop_sent by blast
  obtain timeout' where p: "poll_ready ?opts timeout' None (sa_polls (atts ! k)) = Some None"
    using k(4) by (auto simp: waitForPeerSendReady_def Let_def normalize_idem split: if_splits)
  have "\<exists>i j. i \<le> j \<and> j < length (sa_polls (atts ! k)) \<and>
      (\<forall>l. i \<le> l \<and> l \<le> j \<longrightarrow> snapshot_ready (po_snap (sa_polls (atts ! k) ! l))) \<and>
      so_StableDuration ?opts \<le> po_now (sa_polls (atts ! k) ! j) - po_now (sa_polls (atts ! k) ! i)"
    using poll_ready_settled [OF p normalize_positive(2)] .
  then show ?thesis using k(1-3) by blast
qed

theorem sent_when_stable_witness:
  "\<exists>k < length sample_attempts. sa_send (sample_attempts ! k) = Inr ''S''"
proof -
  have "snd (sendHistorySyncRequest sample_jid True (an_ChatJID_update (\<lambda>_. ''c'') (rq_Anchor sample_request)) 5
      defaultSendRetryOptions 0 sample_attempts) = Some (Inr ''S'')" by code_simp
  from sent_when_stable [OF this] show ?thesis by blast
qed

end
