(* ===== verification/Control_Properties.thy ===== *)
theory Control_Properties
  imports Control Backfill_Properties
begin

text \<open>
  The control socket: what the server does with a request, the executor as an interface and
  the daemon's executor as its instance, and the backfill command from the client's request
  to its exit code.
\<close>

section \<open>What the server does with a request\<close>

text \<open>The event that ends a backfill, from what the executor returned.\<close>

definition final_event :: "ctl_event \<times> go_error option \<Rightarrow> ctl_event" where
  "final_event p = (if ct_Event (fst p) \<noteq> [] then fst p else doneEvent VerdictError
     (case snd p of Some e \<Rightarrow> Error e | None \<Rightarrow> ''backfill executor returned no verdict''))"

lemma Encode_ok: "werr (co_count c) = None \<Longrightarrow>
    Encode werr e c = (None, c\<lparr>co_out := co_out c @ [e], co_count := Suc (co_count c)\<rparr>)"
  by (simp add: Encode_def)

lemma Encode_out: "co_out (snd (Encode werr e c)) = co_out c \<or> co_out (snd (Encode werr e c)) = co_out c @ [e]"
  by (auto simp: Encode_def split: option.splits)

text \<open>What \<open>handleConn\<close> asks of a request before it serves it.\<close>

definition authorised :: "manager option \<Rightarrow> ctl_request \<Rightarrow> bool" where
  "authorised cfg req \<longleftrightarrow>
     (case cfg of
        None \<Rightarrow> False
      | Some m \<Rightarrow> (case Group m (cr_ChatJID req) of
          None \<Rightarrow> False
        | Some g \<Rightarrow> cr_ChatJID req \<noteq> [] \<and> (cr_Tenant req = [] \<or> HasTenant g (cr_Tenant req))))"

definition read_request :: "string \<times> bool \<Rightarrow> ctl_request option" where
  "read_request r = map_option normalizeRequest (decode_request (fst r) (snd r))"

lemma handleConn_cases:
  obtains (refused) reason where "\<And>exec. handleConn quote decode_err werr exec hc cfg read c =
        (ConnClosed, snd (Encode werr (doneEvent VerdictError reason) c))"
  | (watch) req m where "read_request read = Some req" "cfg = Some m" "cr_Op req = ''watch_ingest''"
      "sole_tenant m (cr_ChatJID req) (cr_Tenant req)" "cr_Tenant req \<noteq> []" "cr_ChatJID req \<noteq> []" hc
      "\<And>exec. handleConn quote decode_err werr exec hc cfg read c = (ConnWatching req, c)"
  | (backfill) req where "read_request read = Some req" "cr_Op req = ''backfill''" "authorised cfg req"
      "\<And>exec. handleConn quote decode_err werr exec hc cfg read c =
        (case exec req (Encode werr) c of
           (None, c1) \<Rightarrow> (ConnRunning, c1)
         | (Some p, c1) \<Rightarrow> (ConnClosed, snd (Encode werr (final_event p) c1)))"
proof (cases "read_request read")
  case None
  then show thesis
    by (intro refused [of "''decode request: '' @ Error (decode_err read)"])
      (auto simp: handleConn_def read_request_def Let_def split: option.splits)
next
  case (Some req)
  then obtain req0 where j: "decode_request (fst read) (snd read) = Some req0" "req = normalizeRequest req0"
    by (auto simp: read_request_def)
  note unfold = handleConn_def j Let_def
  consider (op) "cr_Op req \<noteq> ''backfill''" "cr_Op req \<noteq> ''watch_ingest''"
    | (auth) "cr_Op req = ''backfill'' \<or> cr_Op req = ''watch_ingest''" "\<not> authorised cfg req"
    | (run) "cr_Op req = ''backfill''" "authorised cfg req"
    | (see) "cr_Op req = ''watch_ingest''" "authorised cfg req" by blast
  then show thesis
  proof cases
    case op
    then show thesis by (intro refused) (simp add: unfold)
  next
    case auth
    show thesis
    proof (cases "cr_ChatJID req = []")
      case True
      then show thesis using auth(1) j(2) by (intro refused) (auto simp: unfold)
    next
      case False
      show thesis
      proof (cases "cfg = None \<or> (\<exists>m. cfg = Some m \<and> Group m (cr_ChatJID req) = None)")
        case True
        then show thesis using auth(1) False j(2)
          by (intro refused [of "''chat_jid is not in the WhatsApp allowlist''"]) (auto simp: unfold)
      next
        case not_none: False
        then obtain m g where "cfg = Some m" "Group m (cr_ChatJID req) = Some g" by auto
        then show thesis using auth False j(2)
          by (intro refused [of "''jid_not_owned_by_tenant''"]) (auto simp: unfold authorised_def)
      qed
    qed
  next
    case run
    then obtain m g where m: "cfg = Some m" "Group m (cr_ChatJID req) = Some g" "cr_ChatJID req \<noteq> []"
      "cr_Tenant req = [] \<or> HasTenant g (cr_Tenant req)"
      by (auto simp: authorised_def split: option.splits)
    show thesis
      by (rule backfill [OF Some run])
        (use run m j(2) in \<open>auto simp: unfold final_event_def doneEvent_def split: option.splits prod.splits\<close>)
  next
    case see
    then obtain m g where m: "cfg = Some m" "Group m (cr_ChatJID req) = Some g" "cr_ChatJID req \<noteq> []"
      "cr_Tenant req = [] \<or> HasTenant g (cr_Tenant req)"
      by (auto simp: authorised_def split: option.splits)
    consider (no) "cr_Tenant req = [] \<or> length (g_Tenants g) \<noteq> 1 \<or> \<not> HasTenant g (cr_Tenant req)"
      | (off) "\<not> (cr_Tenant req = [] \<or> length (g_Tenants g) \<noteq> 1 \<or> \<not> HasTenant g (cr_Tenant req))" "\<not> hc"
      | (on) "\<not> (cr_Tenant req = [] \<or> length (g_Tenants g) \<noteq> 1 \<or> \<not> HasTenant g (cr_Tenant req))" hc by blast
    then show thesis
    proof cases
      case no
      then show thesis using see m j(2)
        by (intro refused [of "''change subscription requires an exact single-tenant chat''"]) (auto simp: unfold)
    next
      case off
      then show thesis using see m j(2)
        by (intro refused [of "''change subscription unavailable''"]) (auto simp: unfold)
    next
      case on
      then show thesis using see m j(2) Some
        by (intro watch [of req m]) (auto simp: unfold sole_tenant_def)
    qed
  qed
qed

lemma doneEvent_done [simp]: "ct_Event (doneEvent v r) = ''done''" "ct_Verdict (doneEvent v r) = v"
  "ct_Reason (doneEvent v r) = r"
  by (simp_all add: doneEvent_def)

section \<open>The executor as an interface\<close>

text \<open>
  What the server relies on: an executor only appends to the connection, never a final
  event, and what it returns is a final event or none.
\<close>

locale backfill_executor =
  fixes exec :: "ctl_request \<Rightarrow> (ctl_event \<Rightarrow> ctl_conn \<Rightarrow> go_error option \<times> ctl_conn) \<Rightarrow> ctl_conn \<Rightarrow>
    (ctl_event \<times> go_error option) option \<times> ctl_conn"
  assumes exec_emits: "exec req (Encode werr) c = (r, c') \<Longrightarrow>
      \<exists>new. co_out c' = co_out c @ new \<and> (\<forall>e\<in>set new. ct_Event e \<noteq> ''done'')"
    and exec_verdict: "exec req (Encode werr) c = (Some (d, err), c') \<Longrightarrow> ct_Event d = ''done'' \<or> ct_Event d = []"
begin

lemma final_done: "exec req (Encode werr) c = (Some p, c') \<Longrightarrow> ct_Event (final_event p) = ''done''"
  using exec_verdict [of req werr c "fst p" "snd p" c'] by (auto simp: final_event_def)

text \<open>A closed connection ends with one final event, unless writing it failed.\<close>

lemma closed_protocol:
  assumes "handleConn quote decode_err werr exec hc cfg read c = (ConnClosed, c')"
  shows "\<exists>new. (\<forall>e\<in>set new. ct_Event e \<noteq> ''done'') \<and>
    (co_out c' = co_out c @ new \<or> (\<exists>d. ct_Event d = ''done'' \<and> co_out c' = co_out c @ new @ [d]))"
proof (cases rule: handleConn_cases [of quote decode_err werr hc cfg read c])
  case (refused reason)
  then show ?thesis
    using assms refused [of exec] Encode_out [of werr "doneEvent VerdictError reason" c]
    by (intro exI [of _ "[]"]) auto
next
  case (watch req m)
  then show ?thesis using assms watch(8) [of exec] by simp
next
  case (backfill req)
  obtain r c1 where e: "exec req (Encode werr) c = (r, c1)" by force
  then obtain p where p: "r = Some p" "c' = snd (Encode werr (final_event p) c1)"
    using assms backfill(4) [of exec] by (cases r) auto
  obtain new where new: "co_out c1 = co_out c @ new" "\<forall>e\<in>set new. ct_Event e \<noteq> ''done''"
    using exec_emits [OF e] by blast
  have "ct_Event (final_event p) = ''done''" using final_done e p(1) by blast
  then show ?thesis
    using new p(2) Encode_out [of werr "final_event p" c1] by (intro exI [of _ new]) auto
qed

end

section \<open>The daemon's executor\<close>

text \<open>
  Two requests that differ in the state of their callbacks only, which agree on errors and
  keep the states related, run alike.
\<close>

definition simulates :: "('c \<Rightarrow> 'd \<Rightarrow> bool) \<Rightarrow> 'c run_request \<Rightarrow> 'd run_request \<Rightarrow> bool" where
  "simulates R q1 q2 \<longleftrightarrow>
     rq_ChatJID q1 = rq_ChatJID q2 \<and> rq_Anchor q1 = rq_Anchor q2 \<and> rq_Limit q1 = rq_Limit q2 \<and>
     rq_ChunkSize q1 = rq_ChunkSize q2 \<and>
     (\<forall>x c d. R c d \<longrightarrow> rel_prod (=) R (rq_OnRequestSent q1 x c) (rq_OnRequestSent q2 x d)) \<and>
     (\<forall>x c d. R c d \<longrightarrow> rel_prod (=) R (rq_OnHistorySyncReceived q1 x c) (rq_OnHistorySyncReceived q2 x d)) \<and>
     (\<forall>x c d. R c d \<longrightarrow> rel_prod (=) R (rq_OnHistorySyncIngested q1 x c) (rq_OnHistorySyncIngested q2 x d))"

lemma simulates_answer:
  assumes "simulates R q1 q2" "R c d"
  shows "rel_prod (=) (rel_prod (=) R) (chunk_answer q1 env a p r c) (chunk_answer q2 env a p r d)"
proof -
  let ?sm = "SummarizeHistorySync (hr_Event p) a (rq_ChatJID q1) (Some (ce_summary_now env))"
  have q: "rq_ChatJID q2 = rq_ChatJID q1" using assms(1) by (simp add: simulates_def)
  have "rel_prod (=) R (rq_OnHistorySyncReceived q1 ?sm c) (rq_OnHistorySyncReceived q2 ?sm d)"
    using assms by (simp add: simulates_def)
  then obtain e c1 d1 where 1: "rq_OnHistorySyncReceived q1 ?sm c = (e, c1)"
    "rq_OnHistorySyncReceived q2 ?sm d = (e, d1)" "R c1 d1"
    by (cases "rq_OnHistorySyncReceived q1 ?sm c"; cases "rq_OnHistorySyncReceived q2 ?sm d") auto
  have "rel_prod (=) R (rq_OnHistorySyncIngested q1 (hr_Stats p) c1) (rq_OnHistorySyncIngested q2 (hr_Stats p) d1)"
    using assms(1) 1(3) by (simp add: simulates_def)
  then obtain e2 c2 d2 where 2: "rq_OnHistorySyncIngested q1 (hr_Stats p) c1 = (e2, c2)"
    "rq_OnHistorySyncIngested q2 (hr_Stats p) d1 = (e2, d2)" "R c2 d2"
    by (cases "rq_OnHistorySyncIngested q1 (hr_Stats p) c1"; cases "rq_OnHistorySyncIngested q2 (hr_Stats p) d1") auto
  show ?thesis
    using 1 2 q by (cases e; cases e2) (simp_all add: chunk_answer_def Let_def)
qed

lemma simulates_chunk:
  assumes "simulates R q1 q2" "R c d"
  shows "rel_prod (=) (rel_prod (=) R) (run_chunk pj hc q1 env a n r c) (run_chunk pj hc q2 env a n r d)"
proof (cases "snd (sendHistorySyncRequest pj hc a n defaultSendRetryOptions (ce_now env) (ce_attempts env))")
  case None
  then show ?thesis using assms(2) by (simp add: run_chunk_def)
next
  case (Some res)
  show ?thesis
  proof (cases res)
    case (Inl e)
    then show ?thesis using Some assms(2) by (simp add: run_chunk_def)
  next
    case (Inr sid)
    let ?s = "\<lparr>rs_SendID = sid, rs_Anchor = a, rs_Count = n\<rparr>"
    let ?r = "r\<lparr>rr_LastSendID := sid, rr_Requested := rr_Requested r + n, rr_Chunks := rr_Chunks r + 1\<rparr>"
    have q: "rq_ChatJID q2 = rq_ChatJID q1" using assms(1) by (simp add: simulates_def)
    have "rel_prod (=) R (rq_OnRequestSent q1 ?s c) (rq_OnRequestSent q2 ?s d)"
      using assms by (simp add: simulates_def)
    then obtain e c1 d1 where 1: "rq_OnRequestSent q1 ?s c = (e, c1)" "rq_OnRequestSent q2 ?s d = (e, d1)" "R c1 d1"
      by (cases "rq_OnRequestSent q1 ?s c"; cases "rq_OnRequestSent q2 ?s d") auto
    show ?thesis
    proof (cases "e = None \<and> (\<exists>p. WaitForProcessedOnDemand (rq_ChatJID q1) (ce_answers env) = Some (Inr p))")
      case True
      then obtain p where p: "WaitForProcessedOnDemand (rq_ChatJID q1) (ce_answers env) = Some (Inr p)" by blast
      obtain x r1 c2 where ca1: "chunk_answer q1 env a p ?r c1 = (x, r1, c2)" by (metis prod.collapse)
      obtain y r2 d2 where ca2: "chunk_answer q2 env a p ?r d1 = (y, r2, d2)" by (metis prod.collapse)
      have "x = y \<and> r1 = r2 \<and> R c2 d2"
        using simulates_answer [OF assms(1) 1(3), of env a p ?r] unfolding ca1 ca2 by simp
      then show ?thesis using True Some Inr 1 p q ca1 ca2 by (simp add: run_chunk_def Let_def)
    next
      case False
      then show ?thesis
        using Some Inr 1 q by (auto simp: run_chunk_def Let_def split: option.splits sum.splits)
    qed
  qed
qed

lemma simulates_chunks:
  assumes "simulates R q1 q2" "R c d"
  shows "rel_prod (=) R (run_chunks pj hc q1 io C remaining k a r c) (run_chunks pj hc q2 io C remaining k a r d)"
  using assms(2)
proof (induction remaining arbitrary: k a r c d rule: less_induct)
  case (less remaining)
  let ?cnt = "if remaining < C then remaining else C"
  show ?case
  proof (cases "remaining = 0 \<or> C = 0")
    case True
    then show ?thesis using less.prems by (simp add: run_chunks.simps)
  next
    case False
    obtain x r1 c1 where 1: "run_chunk pj hc q1 (io k) a (int ?cnt) r c = (x, r1, c1)" by (metis prod.collapse)
    obtain y r2 d1 where 2: "run_chunk pj hc q2 (io k) a (int ?cnt) r d = (y, r2, d1)" by (metis prod.collapse)
    have same: "y = x \<and> r2 = r1 \<and> R c1 d1"
      using simulates_chunk [OF assms(1) less.prems, of pj hc "io k" a "int ?cnt" r] by (simp add: 1 2)
    note step1 = run_chunks.simps [of pj hc q1 io C remaining k a r c]
    note step2 = run_chunks.simps [of pj hc q2 io C remaining k a r d]
    show ?thesis
    proof (cases "\<exists>a1. x = Some (ChunkNext a1) \<and> remaining - ?cnt > 0 \<and> ce_sleep (io k) = None")
      case True
      then obtain a1 where a1: "x = Some (ChunkNext a1)" "remaining - ?cnt > 0" "ce_sleep (io k) = None" by blast
      have "remaining - ?cnt < remaining" using False by auto
      from less.IH [OF this, of c1 d1 "Suc k" a1 r1] same
      have "rel_prod (=) R (run_chunks pj hc q1 io C (remaining - ?cnt) (Suc k) a1 r1 c1)
          (run_chunks pj hc q2 io C (remaining - ?cnt) (Suc k) a1 r1 d1)" by blast
      then show ?thesis using False a1 same by (simp add: step1 step2 1 2 Let_def)
    next
      case no_more: False
      show ?thesis
      proof (cases "\<exists>a1. x = Some (ChunkNext a1)")
        case True
        then show ?thesis
          using False no_more same
          by (cases "remaining - ?cnt > 0"; cases "ce_sleep (io k)") (auto simp: step1 step2 1 2 Let_def)
      next
        case stopped: False
        then show ?thesis
          using False same by (auto simp: step1 step2 1 2 Let_def split: option.splits chunk_end.splits)
      qed
    qed
  qed
qed

lemma simulates_run:
  assumes "simulates R q1 q2" "R c d"
  shows "rel_prod (=) R (RunProcessedRequests pj hc q1 io c) (RunProcessedRequests pj hc q2 io d)"
proof -
  have q: "rq_ChatJID q2 = rq_ChatJID q1" "rq_Anchor q2 = rq_Anchor q1" "rq_Limit q2 = rq_Limit q1"
    "rq_ChunkSize q2 = rq_ChunkSize q1" using assms(1) by (simp_all add: simulates_def)
  show ?thesis
    using assms(2) simulates_chunks [OF assms]
    by (auto simp: RunProcessedRequests_def q Let_def split: sum.splits)
qed

lemma event_names [simp]:
  "ct_Event (sent_event x) = ''request_sent''" "ct_Event (received_event y) = ''history_sync_received''"
  "ct_Event (ingested_event z) = ''ingested''" "ct_Event (verdictForResult r e) = ''done''"
  by (simp_all add: sent_event_def received_event_def ingested_event_def verdictForResult_def split: option.splits prod.splits)

definition extends :: "ctl_conn \<Rightarrow> ctl_conn \<Rightarrow> bool" where
  "extends c c' \<longleftrightarrow> (\<exists>new. co_out c' = co_out c @ new \<and> (\<forall>e\<in>set new. ct_Event e \<noteq> ''done''))"

lemma extends_refl: "extends c c" by (simp add: extends_def)

lemma extends_Encode: "extends c c' \<Longrightarrow> ct_Event e \<noteq> ''done'' \<Longrightarrow> extends c (snd (Encode werr e c'))"
  using Encode_out [of werr e c'] by (fastforce simp: extends_def)

lemma extends_step: "Encode werr e c' = (x, c2) \<Longrightarrow> extends c c' \<Longrightarrow> ct_Event e \<noteq> ''done'' \<Longrightarrow> extends c c2"
  using extends_Encode by (metis snd_conv)

lemma simulates_extends:
  "simulates (\<lambda>x y. x = y \<and> extends c x) (backfill_request ex req a (Encode werr))
     (backfill_request ex req a (Encode werr))"
  by (auto simp: simulates_def backfill_request_def rel_prod_conv split: prod.splits dest: extends_step)

text \<open>A state that no callback sees: the run as a function of what it meets.\<close>

definition silent :: "ctl_event \<Rightarrow> unit \<Rightarrow> go_error option \<times> unit" where
  "silent e u = (None, u)"

lemma simulates_silent:
  "simulates (\<lambda>_ _. True) (backfill_request ex req a (Encode (\<lambda>_. None))) (backfill_request ex req a silent)"
  by (auto simp: simulates_def backfill_request_def silent_def Encode_def)

lemma Execute_extends:
  assumes "Execute pj ex env t io req (Encode werr) c = (r, c')"
  shows "extends c c'"
proof (cases "ex_has_client ex \<and> ex_has_channel ex \<and> \<not> isl (resolveAnchor pj ex env t req)")
  case False
  then show ?thesis using assms by (auto simp: Execute_def extends_refl split: if_splits sum.splits)
next
  case True
  then obtain a where a: "resolveAnchor pj ex env t req = Inr a" by (cases "resolveAnchor pj ex env t req") auto
  let ?q = "backfill_request ex req a (Encode werr)"
  obtain x c1 where x: "RunProcessedRequests pj True ?q io c = (x, c1)" by force
  have "rel_prod (=) (\<lambda>x y. x = y \<and> extends c x) (x, c1) (x, c1)"
    using simulates_run [OF simulates_extends, of c c c pj True ex req a werr io] extends_refl x by simp
  then have "extends c c1" by simp
  then show ?thesis using assms True a x by (auto simp: Execute_def split: option.splits)
qed

lemma Execute_done: "Execute pj ex env t io req emit c = (Some (d, err), c') \<Longrightarrow> ct_Event d = ''done'' \<and> err = None"
  by (auto simp: Execute_def split: if_splits sum.splits option.splits prod.splits)

interpretation daemon_executor: backfill_executor "Execute pj ex env t io" for pj ex env t io
proof
  fix req werr c r c'
  assume "Execute pj ex env t io req (Encode werr) c = (r, c')"
  then show "\<exists>new. co_out c' = co_out c @ new \<and> (\<forall>e\<in>set new. ct_Event e \<noteq> ''done'')"
    using Execute_extends by (simp add: extends_def)
next
  fix req werr c d err c'
  assume "Execute pj ex env t io req (Encode werr) c = (Some (d, err), c')"
  then show "ct_Event d = ''done'' \<or> ct_Event d = []" by (auto dest: Execute_done)
qed

lemma Execute_silent:
  "fst (Execute pj ex env t io req (Encode (\<lambda>_. None)) c) = fst (Execute pj ex env t io req silent ())"
proof (cases "resolveAnchor pj ex env t req")
  case (Inr a)
  have "rel_prod (=) (\<lambda>_ _. True) (RunProcessedRequests pj True (backfill_request ex req a (Encode (\<lambda>_. None))) io c)
      (RunProcessedRequests pj True (backfill_request ex req a silent) io ())"
    by (rule simulates_run [OF simulates_silent]) simp
  then show ?thesis
    using Inr by (auto simp: Execute_def rel_prod_conv split: option.splits prod.splits)
qed (simp add: Execute_def)

section \<open>Properties\<close>

lemma handleConn_backfill:
  assumes "read_request read = Some req" "cr_Op req = ''backfill''" "authorised cfg req"
  shows "handleConn quote decode_err werr exec hc cfg read c =
    (case exec req (Encode werr) c of
       (None, c1) \<Rightarrow> (ConnRunning, c1)
     | (Some p, c1) \<Rightarrow> (ConnClosed, snd (Encode werr (final_event p) c1)))"
proof (cases rule: handleConn_cases [of quote decode_err werr hc cfg read c])
  case (refused reason)
  obtain req0 m g where j: "decode_request (fst read) (snd read) = Some req0" "req = normalizeRequest req0"
    "cfg = Some m" "Group m (cr_ChatJID req) = Some g" "cr_ChatJID req \<noteq> []"
    "cr_Tenant req = [] \<or> HasTenant g (cr_Tenant req)"
    using assms by (auto simp: read_request_def authorised_def split: sum.splits option.splits)
  have "handleConn quote decode_err werr (\<lambda>_ _ c. (None, c)) hc cfg read c = (ConnRunning, c)"
    using j assms(2) by (auto simp: handleConn_def Let_def)
  then show ?thesis using refused by simp
qed (use assms in auto)

lemma handleConn_refused:
  assumes "\<And>req. read_request read = Some req \<Longrightarrow> \<not> authorised cfg req"
  shows "\<exists>reason. \<forall>exec. handleConn quote decode_err werr exec hc cfg read c =
    (ConnClosed, snd (Encode werr (doneEvent VerdictError reason) c))"
proof (cases rule: handleConn_cases [of quote decode_err werr hc cfg read c])
  case (refused reason)
  then show ?thesis by blast
next
  case (watch req m)
  obtain req0 where j: "decode_request (fst read) (snd read) = Some req0" "req = normalizeRequest req0"
    using watch(1) by (auto simp: read_request_def)
  have "cr_ChatJID req \<noteq> []"
    using watch(8) [of "\<lambda>_ _ c. (None, c)"] by (auto simp: handleConn_def j Let_def split: if_splits)
  then have "authorised cfg req"
    using watch(2,4,5) by (auto simp: authorised_def sole_tenant_def split: option.splits)
  then show ?thesis using assms watch(1) by blast
next
  case (backfill req)
  then show ?thesis using assms by blast
qed

text \<open>Who may ask for what: of an allowed chat, anybody who names no tenant or one of its tenants.\<close>

definition may_backfill :: "manager option \<Rightarrow> ctl_request \<Rightarrow> bool" where
  "may_backfill cfg req \<longleftrightarrow> cr_Op req = ''backfill'' \<and> cr_ChatJID req \<noteq> [] \<and>
     (\<exists>m g. cfg = Some m \<and> Group m (cr_ChatJID req) = Some g \<and>
        (cr_Tenant req = [] \<or> cr_Tenant req \<in> set (g_Tenants g)))"

definition may_watch :: "manager option \<Rightarrow> ctl_request \<Rightarrow> bool" where
  "may_watch cfg req \<longleftrightarrow> cr_Op req = ''watch_ingest'' \<and> cr_ChatJID req \<noteq> [] \<and> cr_Tenant req \<noteq> [] \<and>
     (\<exists>m g. cfg = Some m \<and> Group m (cr_ChatJID req) = Some g \<and> g_Tenants g = [cr_Tenant req])"

lemma handleConn_served:
  assumes "read_request read = Some req"
  shows "may_backfill cfg req \<Longrightarrow> handleConn quote decode_err werr exec hc cfg read c =
      (case exec req (Encode werr) c of
         (None, c1) \<Rightarrow> (ConnRunning, c1)
       | (Some p, c1) \<Rightarrow> (ConnClosed, snd (Encode werr (final_event p) c1)))"
    and "may_watch cfg req \<Longrightarrow> hc \<Longrightarrow> handleConn quote decode_err werr exec hc cfg read c = (ConnWatching req, c)"
proof -
  obtain req0 where j: "decode_request (fst read) (snd read) = Some req0" "req = normalizeRequest req0"
    using assms by (auto simp: read_request_def)
  show "handleConn quote decode_err werr exec hc cfg read c =
      (case exec req (Encode werr) c of
         (None, c1) \<Rightarrow> (ConnRunning, c1)
       | (Some p, c1) \<Rightarrow> (ConnClosed, snd (Encode werr (final_event p) c1)))" if "may_backfill cfg req"
    using that j by (auto simp: may_backfill_def handleConn_def Let_def HasTenant_def list_ex_iff final_event_def
        doneEvent_def split: option.splits prod.splits)
  show "handleConn quote decode_err werr exec hc cfg read c = (ConnWatching req, c)" if "may_watch cfg req" hc
    using that j by (auto simp: may_watch_def handleConn_def Let_def HasTenant_def list_ex_iff)
qed

text \<open>
  C8. The control socket is default-deny, and these are all that it serves: a backfill of a chat
  in the allowlist for a request that names one of the chat's tenants or no tenant at all, which
  is documented to skip the check of ownership; and a subscription to a chat in the allowlist for
  the one tenant that owns it alone, where subscriptions are available. Any other
  request, one that cannot be read included, never reaches the executor, whatever the executor
  is: the connection gets one final ERROR event and is closed.
\<close>

theorem control_default_deny:
  "case read_request read of
     None \<Rightarrow> \<exists>reason. \<forall>exec. handleConn quote decode_err werr exec hc cfg read c =
       (ConnClosed, snd (Encode werr (doneEvent VerdictError reason) c))
   | Some req \<Rightarrow>
       if may_backfill cfg req
       then \<forall>exec. handleConn quote decode_err werr exec hc cfg read c =
         (case exec req (Encode werr) c of
            (None, c1) \<Rightarrow> (ConnRunning, c1)
          | (Some p, c1) \<Rightarrow> (ConnClosed, snd (Encode werr (final_event p) c1)))
       else if may_watch cfg req \<and> hc
       then \<forall>exec. handleConn quote decode_err werr exec hc cfg read c = (ConnWatching req, c)
       else \<exists>reason. \<forall>exec. handleConn quote decode_err werr exec hc cfg read c =
         (ConnClosed, snd (Encode werr (doneEvent VerdictError reason) c))"
proof (cases rule: handleConn_cases [of quote decode_err werr hc cfg read c])
  case (refused reason)
  show ?thesis
  proof (cases "read_request read")
    case None
    then show ?thesis using refused by auto
  next
    case (Some req)
    consider "may_backfill cfg req" | "\<not> may_backfill cfg req" "may_watch cfg req" hc
      | "\<not> may_backfill cfg req" "\<not> (may_watch cfg req \<and> hc)" by blast
    then show ?thesis
    proof cases
      case 1
      then show ?thesis by (simp add: Some handleConn_served(1) [OF Some])
    next
      case 2
      then show ?thesis by (simp add: Some handleConn_served(2) [OF Some])
    next
      case 3
      then show ?thesis unfolding Some using refused by auto
    qed
  qed
next
  case (watch req m)
  then obtain g where "Group m (cr_ChatJID req) = Some g" "g_Tenants g = [cr_Tenant req]"
    by (auto simp: sole_tenant_def HasTenant_def list_ex_iff length_Suc_conv split: option.splits)
  then have "may_watch cfg req" "\<not> may_backfill cfg req"
    using watch by (auto simp: may_watch_def may_backfill_def)
  then show ?thesis using watch by simp
next
  case (backfill req)
  then have "may_backfill cfg req"
    by (auto simp: authorised_def may_backfill_def HasTenant_def list_ex_iff split: option.splits)
  then show ?thesis using backfill by simp
qed

theorem control_default_deny_witness:
  "\<exists>reason. handleConn (\<lambda>s. s) (\<lambda>_. ErrMsg []) (\<lambda>_. None) (\<lambda>_ _ c. (None, c)) True
      (Some (h_Config sample_handler)) (encode_request (zero_request\<lparr>cr_Op := ''backfill'', cr_ChatJID := ''9@lid''\<rparr>), False)
      \<lparr>co_out = [], co_count = 0\<rparr> =
    (ConnClosed, snd (Encode (\<lambda>_. None) (doneEvent VerdictError reason) \<lparr>co_out = [], co_count = 0\<rparr>))"
proof -
  let ?read = "(encode_request (zero_request\<lparr>cr_Op := ''backfill'', cr_ChatJID := ''9@lid''\<rparr>), False)"
  have "case read_request ?read of None \<Rightarrow> False | Some req \<Rightarrow>
      Group (h_Config sample_handler) (cr_ChatJID req) = None"
    by code_simp
  then have "case read_request ?read of None \<Rightarrow> False | Some req \<Rightarrow>
      \<not> may_backfill (Some (h_Config sample_handler)) req \<and> \<not> may_watch (Some (h_Config sample_handler)) req"
    by (auto simp: may_backfill_def may_watch_def split: option.splits)
  then show ?thesis
    using control_default_deny [where read = ?read and quote = "\<lambda>s. s" and decode_err = "\<lambda>_. ErrMsg []"
        and werr = "\<lambda>_. None" and hc = True and cfg = "Some (h_Config sample_handler)"]
    by (auto split: option.splits)
qed

text \<open>The last final event among those a client reads.\<close>

definition last_done :: "ctl_event option \<Rightarrow> ctl_event list \<Rightarrow> ctl_event option" where
  "last_done = foldl (\<lambda>f e. if ct_Event e = ''done'' then Some e else f)"

lemma client_loop_reads:
  assumes "\<forall>e\<in>set es. event_ints e" "human \<or> (\<forall>k. wr k = None)"
  shows "fst (client_loop je human wr (map (\<lambda>e. json_Marshal (event_json e)) es) k out final) =
    Inr (last_done final (map utf8_event es))"
  using assms
  by (induction es arbitrary: k out final) (auto simp: unmarshal_encode_event last_done_def Let_def)

lemma utf8_event_done: "ct_Event (utf8_event e) = ''done'' \<longleftrightarrow> ct_Event e = ''done''"
  by (simp add: utf8_event_def ToValidUTF8_eq_ascii is_ascii_def byte_def)

lemma utf8_event_verdict: "exitCodeForVerdict (ct_Verdict (utf8_event e)) = exitCodeForVerdict (ct_Verdict e)"
  by (simp add: utf8_event_def exitCodeForVerdict_def ToValidUTF8_eq_ascii is_ascii_def byte_def VerdictViable_def
      VerdictUnavailable_def)

lemma last_done_final: "\<forall>e\<in>set new. ct_Event e \<noteq> ''done'' \<Longrightarrow> ct_Event d = ''done'' \<Longrightarrow>
    last_done None (new @ [d]) = Some d"
proof -
  have "last_done f new = f" if "\<forall>e\<in>set new. ct_Event e \<noteq> ''done''" for f
    using that by (induction new arbitrary: f) (simp_all add: last_done_def)
  then show "\<forall>e\<in>set new. ct_Event e \<noteq> ''done'' \<Longrightarrow> ct_Event d = ''done'' \<Longrightarrow>
      last_done None (new @ [d]) = Some d" by (simp add: last_done_def)
qed

lemma trim_backfill: "strings_TrimSpace ''backfill'' = ''backfill''"
  by code_simp

lemma normalizeRequest_idem: "normalizeRequest (normalizeRequest r) = normalizeRequest r"
  by (simp add: normalizeRequest_def Let_def TrimSpace_idem DefaultChunkSize_def)

lemma normalizeRequest_bounds: "1 \<le> cr_Limit (normalizeRequest r) \<and> cr_Limit (normalizeRequest r) \<le> 50"
  by (auto simp: normalizeRequest_def Let_def DefaultChunkSize_def)

text \<open>
  What the exit code of the backfill command stands for: permission, and what the run found.
\<close>

definition spec_exit :: "bool \<Rightarrow> (ctl_event \<times> go_error option) option \<Rightarrow> int" where
  "spec_exit permitted outcome =
     (if \<not> permitted then 1
      else case outcome of None \<Rightarrow> 1 | Some (d, err) \<Rightarrow> exitCodeForVerdict (ct_Verdict d))"

text \<open>
  C10. The backfill command, across the socket and the server, refines what it means. If the
  server reads the bytes the client sent, serves them with the daemon's executor and closes the
  connection, and the client reads the bytes the server wrote, then the client's exit code is
  that of the verdict of the run the executor makes of the request by itself, 1 if the
  server does not permit it, and the client reports no error.
\<close>

theorem backfill_command_refines:
  fixes req0 :: ctl_request
  defines "req \<equiv> (normalizeRequest req0)\<lparr>cr_Op := ''backfill''\<rparr>"
  assumes srv: "handleConn quote decode_err (\<lambda>_. None) (Execute parse_jid ex env t io) hc cfg
      (encode_request req, eof) \<lparr>co_out = [], co_count = 0\<rparr> = (ConnClosed, c)"
    and req_ok: "is_int64 (cr_BeforeUnix req)" "utf8_request req = req"
    and bytes: "cl_bytes cenv = concat (map encode_event (co_out c))"
    and events: "\<forall>e\<in>set (co_out c). event_ints e \<and> length (json_Marshal (event_json e)) < scan_limit"
    and io_ok: "cl_dial cenv = None" "cl_encode cenv = None" "cl_scan cenv = None"
      "human \<or> (\<forall>k. cl_write cenv k = None)"
  shows "fst (RunBackfillClient json_err cenv path human req0) =
      (spec_exit (authorised cfg req) (fst (Execute parse_jid ex env t io req silent ())), None) \<and>
    fst (snd (RunBackfillClient json_err cenv path human req0)) = Some (encode_request req)"
proof -
  let ?c0 = "\<lparr>co_out = [], co_count = 0\<rparr>"
  have "is_int64 (cr_Limit req)" using normalizeRequest_bounds [of req0] by (simp add: req_def is_int64_def)
  then have "decode_request (encode_request req) eof = Some req"
    using decode_encode_request [OF req_ok(1)] req_ok(2) by simp
  moreover have "normalizeRequest req = req"
    using normalizeRequest_idem [of req0]
    by (simp add: req_def normalizeRequest_def Let_def trim_backfill TrimSpace_idem)
  ultimately have read: "read_request (encode_request req, eof) = Some req" by (simp add: read_request_def)
  obtain new d where out: "co_out c = new @ [d]" "\<forall>e\<in>set new. ct_Event e \<noteq> ''done''" "ct_Event d = ''done''"
    "exitCodeForVerdict (ct_Verdict d) =
       spec_exit (authorised cfg req) (fst (Execute parse_jid ex env t io req silent ()))"
  proof (cases "authorised cfg req")
    case False
    then obtain reason where "c = snd (Encode (\<lambda>_. None) (doneEvent VerdictError reason) ?c0)"
      using handleConn_refused [of "(encode_request req, eof)" cfg quote decode_err "\<lambda>_. None" hc ?c0] read srv by auto
    then show thesis
      by (intro that [of "[]" "doneEvent VerdictError reason"])
        (use False in \<open>simp_all add: Encode_def spec_exit_def exitCodeForVerdict_def VerdictError_def
          VerdictViable_def VerdictUnavailable_def\<close>)
  next
    case True
    obtain r c1 where e: "Execute parse_jid ex env t io req (Encode (\<lambda>_. None)) ?c0 = (r, c1)" by force
    have "cr_Op req = ''backfill''" by (simp add: req_def)
    from handleConn_backfill [OF read this True, of quote decode_err "\<lambda>_. None" "Execute parse_jid ex env t io" hc ?c0]
    obtain p where p: "r = Some p" "c = snd (Encode (\<lambda>_. None) (final_event p) c1)"
      using srv e by (cases r) auto
    obtain x err where px: "p = (x, err)" by force
    have x: "ct_Event x = ''done''" by (rule conjunct1 [OF Execute_done [OF e [unfolded p(1) px]]])
    then have "final_event p = x" by (simp add: final_event_def px)
    moreover obtain new where "co_out c1 = new" "\<forall>e\<in>set new. ct_Event e \<noteq> ''done''"
      using Execute_extends [OF e] by (auto simp: extends_def)
    moreover have "fst (Execute parse_jid ex env t io req silent ()) = Some (x, err)"
      using Execute_silent [of parse_jid ex env t io req ?c0] e p(1) px by simp
    ultimately show thesis
      by (intro that [of new x]) (use True x p(2) in \<open>simp_all add: Encode_def spec_exit_def\<close>)
  qed
  have lines: "bufio_lines scan_limit (cl_bytes cenv) =
      (map (\<lambda>e. json_Marshal (event_json e)) (co_out c), False)"
    unfolding bytes by (rule event_lines) (use events in blast)
  have "fst (client_loop json_err human (cl_write cenv) (fst (bufio_lines scan_limit (cl_bytes cenv))) 0 [] None) =
      Inr (Some (utf8_event d))"
    using client_loop_reads [of "co_out c" human "cl_write cenv" json_err 0 "[]" None] events io_ok(4)
      last_done_final [of "map utf8_event new" "utf8_event d"] out(1-3)
    by (simp add: lines utf8_event_done)
  then obtain printed where "client_loop json_err human (cl_write cenv)
      (fst (bufio_lines scan_limit (cl_bytes cenv))) 0 [] None = (Inr (Some (utf8_event d)), printed)"
    by (metis prod.collapse)
  then show ?thesis
    using io_ok(1-3) out(4) by (simp add: RunBackfillClient_def Let_def req_def lines utf8_event_verdict)
qed

definition sample_executor :: executor where
  "sample_executor = \<lparr>ex_DBPath = ''db'', ex_has_client = True, ex_has_channel = True, ex_Timeout = 0\<rparr>"

definition sample_command :: ctl_request where
  "sample_command = zero_request\<lparr>cr_ChatJID := '' 1@lid'', cr_Tenant := ''t''\<rparr>"

definition sample_execute :: "ctl_request \<Rightarrow> (ctl_event \<Rightarrow> 'c \<Rightarrow> go_error option \<times> 'c) \<Rightarrow> 'c \<Rightarrow>
    (ctl_event \<times> go_error option) option \<times> 'c" where
  "sample_execute = Execute sample_jid sample_executor sample_anchor_env
     (durable (w_db sample_stored)) (\<lambda>_. sample_chunk)"

definition sample_served :: "conn_end \<times> ctl_conn" where
  "sample_served = handleConn (\<lambda>s. s) (\<lambda>_. ErrMsg []) (\<lambda>_. None) sample_execute True
     (Some (h_Config sample_handler))
     (encode_request ((normalizeRequest sample_command)\<lparr>cr_Op := ''backfill''\<rparr>), False) \<lparr>co_out = [], co_count = 0\<rparr>"

lemma sample_served_ok: "fst sample_served = ConnClosed"
  by code_simp

definition sample_client :: client_env where
  "sample_client = \<lparr>cl_dial = None, cl_encode = None, cl_bytes = concat (map encode_event (co_out (snd sample_served))),
     cl_scan = None, cl_write = (\<lambda>_. None)\<rparr>"

lemma sample_served_events:
  "list_all (\<lambda>e. event_ints e \<and> length (json_Marshal (event_json e)) < scan_limit) (co_out (snd sample_served))"
  by code_simp

lemma sample_verdict:
  "spec_exit (authorised (Some (h_Config sample_handler)) ((normalizeRequest sample_command)\<lparr>cr_Op := ''backfill''\<rparr>))
     (fst (sample_execute ((normalizeRequest sample_command)\<lparr>cr_Op := ''backfill''\<rparr>) silent ())) = 2"
  by code_simp

theorem backfill_command_refines_witness:
  "fst (RunBackfillClient (\<lambda>_. ErrMsg []) sample_client ''sock'' True sample_command) = (2, None)"
proof -
  have served: "handleConn (\<lambda>s. s) (\<lambda>_. ErrMsg []) (\<lambda>_. None) (Execute sample_jid sample_executor sample_anchor_env
      (durable (w_db sample_stored)) (\<lambda>_. sample_chunk)) True (Some (h_Config sample_handler))
      (encode_request ((normalizeRequest sample_command)\<lparr>cr_Op := ''backfill''\<rparr>), False) \<lparr>co_out = [], co_count = 0\<rparr> =
      (ConnClosed, snd sample_served)"
    using sample_served_ok by (metis prod.collapse sample_execute_def sample_served_def)
  have "is_int64 (cr_BeforeUnix ((normalizeRequest sample_command)\<lparr>cr_Op := ''backfill''\<rparr>))"
    "utf8_request ((normalizeRequest sample_command)\<lparr>cr_Op := ''backfill''\<rparr>) =
       (normalizeRequest sample_command)\<lparr>cr_Op := ''backfill''\<rparr>" by code_simp+
  from backfill_command_refines [OF served this, of sample_client True "\<lambda>_. ErrMsg []" "''sock''"]
  show ?thesis
    using sample_served_events sample_verdict
    by (simp add: sample_client_def sample_execute_def list_all_iff)
qed

end
