(* ===== verification/Daemon_Properties.thy ===== *)
theory Daemon_Properties
  imports Daemon Control_Properties Auth_Properties Unseen_Properties
begin

text \<open>
  The composition: the store follows the allowlist while the configuration is reloaded, and
  what the exit codes of the commands say.
\<close>


section \<open>The store follows the allowlist\<close>

definition stored_chats :: "writer \<Rightarrow> string set" where
  "stored_chats w = gr_jid ` set (t_groups (durable (w_db w)))"

definition listed_chats :: "manager \<Rightarrow> string set" where
  "listed_chats m = g_JID ` set (m_groups m)"

lemma IsAllowed_listed: "IsAllowed m jid \<longleftrightarrow> jid \<in> listed_chats m"
  by (auto simp: IsAllowed_def listed_chats_def row_of_None split: option.splits dest: row_of_SomeD)

lemma EnsureGroups_stored:
  assumes "EnsureGroups e fault now gs w = (r, w')"
  shows "stored_chats w \<subseteq> stored_chats w'" "r = None \<Longrightarrow> g_JID ` set gs \<subseteq> stored_chats w'"
proof -
  obtain u c where tx: "WithTx e () (ensure_groups_tx fault now gs) (w_db w) = (u, r, c)"
    and w': "w_db w' = c"
    using assms by (auto simp: EnsureGroups_def split: prod.splits)
  show "stored_chats w \<subseteq> stored_chats w'"
    unfolding stored_chats_def w'
    by (rule tx.tx_invariant [OF tx, where P = "\<lambda>t. gr_jid ` set (t_groups (durable (w_db w))) \<subseteq> gr_jid ` set (t_groups t)"])
      (auto dest!: ensure_groups_tx_keys)
  assume "r = None"
  then have "ensure_groups_tx fault now gs (durable (w_db w)) = (u, durable c, None)"
    using tx.tx_ok [of e "()" _ "w_db w" u c] tx by simp
  then show "g_JID ` set gs \<subseteq> stored_chats w'"
    using ensure_groups_tx_keys by (fastforce simp: stored_chats_def w')
qed

lemma Write_stored_chats: "stored_chats (snd (Write H ulower env ev w)) = stored_chats w"
proof -
  obtain res r w' where W: "Write H ulower env ev w = ((res, r), w')" by (metis prod.collapse)
  from W show ?thesis
  proof (cases rule: Write_cases)
    case (rejected e)
    then show ?thesis using W by (simp add: stored_chats_def)
  next
    case (stored res1 runID t1 m w1)
    then show ?thesis using W by (simp add: stored_chats_def write_effect_def mark_tables_def)
  qed
qed

lemma unchanged_listed:
  assumes "\<not> groups_changed old_groups next_groups"
  shows "g_JID ` set next_groups \<subseteq> g_JID ` set old_groups"
proof
  fix jid assume "jid \<in> g_JID ` set next_groups"
  then obtain g where g: "g \<in> set next_groups" "jid = g_JID g" by blast
  then obtain x where "row_of g_JID (g_JID g) old_groups = Some x"
    using assms by (auto simp: groups_changed_def list_ex_iff split: option.splits)
  then show "jid \<in> g_JID ` set old_groups" using row_of_SomeD [of g_JID "g_JID g" old_groups x] g(2) by (metis image_eqI)
qed

section \<open>The invariant\<close>

text \<open>What the change goroutine still has to apply.\<close>

definition sync_due :: "reloader \<Rightarrow> bool" where
  "sync_due rl \<longleftrightarrow> m_subs (rl_manager rl) ! rl_sub rl \<noteq> [] \<or> rl_change rl \<noteq> SyncIdle"

fun covers :: "string set \<Rightarrow> string set \<Rightarrow> sync_phase \<Rightarrow> bool" where
  "covers listed stored SyncIdle = (listed \<subseteq> stored)"
| "covers listed stored SyncTaken = True"
| "covers listed stored (SyncRead gs) = (listed \<subseteq> stored \<union> g_JID ` set gs)"

definition reload_inv :: "reloader \<Rightarrow> bool" where
  "reload_inv rl \<longleftrightarrow> rl_sub rl < length (m_subs (rl_manager rl)) \<and>
     (rl_failures rl = 0 \<longrightarrow> m_subs (rl_manager rl) ! rl_sub rl = [] \<longrightarrow>
        covers (listed_chats (rl_manager rl)) (stored_chats (rl_writer rl)) (rl_change rl))"

lemma covers_mono: "covers l s p \<Longrightarrow> s \<subseteq> s' \<Longrightarrow> l' \<subseteq> l \<Longrightarrow> covers l' s' p"
  by (cases p) auto

lemma reload_inv_Reload:
  assumes "reload_inv rl" "Reload src (rl_manager rl) = (r, m)"
  shows "reload_inv (rl\<lparr>rl_manager := m\<rparr>)"
proof (cases rule: Reload_cases [where src = src and m = "rl_manager rl"])
  case (failed e)
  then show ?thesis using assms by simp
next
  case (loaded gs t)
  show ?thesis
  proof (cases "groups_changed (m_groups (rl_manager rl)) gs")
    case True
    have "try_send 4 x q \<noteq> []" for x :: "group list" and q by (auto simp: try_send_def)
    then show ?thesis using True assms loaded by (auto simp: reload_inv_def)
  next
    case False
    then show ?thesis
      using assms loaded unchanged_listed [OF False] covers_mono [OF _ subset_refl]
      by (auto simp: reload_inv_def listed_chats_def)
  qed
qed

lemma reload_inv_store:
  "reload_inv rl \<Longrightarrow> stored_chats (rl_writer rl) \<subseteq> stored_chats w \<Longrightarrow> reload_inv (rl\<lparr>rl_writer := w\<rparr>)"
  using covers_mono [OF _ _ subset_refl] by (auto simp: reload_inv_def)

lemma reload_inv_step:
  assumes "reload_inv rl" "reload_step H ulower lab rl = Some rl'"
  shows "reload_inv rl'"
  using assms(2)
proof (cases lab)
  case (ConfigTick stat src)
  obtain r m where wt: "Watch_tick stat src (rl_manager rl) = (r, m)" by force
  then have rl': "rl' = rl\<lparr>rl_manager := m\<rparr>" using assms(2) ConfigTick by simp
  show ?thesis
  proof (cases "\<exists>t. stat = Inr t \<and> t > m_modTime (rl_manager rl)")
    case True
    then have "Reload src (rl_manager rl) = (r, m)" using wt by (auto simp: Watch_tick_def)
    then show ?thesis using reload_inv_Reload [OF assms(1)] rl' by blast
  next
    case False
    then have "m = rl_manager rl" using wt by (auto simp: Watch_tick_def split: sum.splits if_splits)
    then show ?thesis using rl' assms(1) by simp
  qed
next
  case TakeChange
  then show ?thesis using assms by (auto simp: reload_inv_def split: if_splits list.splits)
next
  case ReadChange
  then show ?thesis
    using assms by (auto simp: reload_inv_def listed_chats_def Groups_def split: if_splits)
next
  case (ApplyChange e fault now)
  then obtain gs where gs: "rl_change rl = SyncRead gs" using assms(2) by (auto split: sync_phase.splits)
  obtain r w where eg: "EnsureGroups e fault now gs (rl_writer rl) = (r, w)" by force
  then have rl': "rl' = rl\<lparr>rl_writer := w, rl_change := SyncIdle,
      rl_failures := (if r = None then rl_failures rl else Suc (rl_failures rl))\<rparr>"
    using assms(2) ApplyChange gs by simp
  show ?thesis
  proof (cases r)
    case None
    have "covers l (stored_chats w) SyncIdle" if "covers l (stored_chats (rl_writer rl)) (SyncRead gs)" for l
      using that EnsureGroups_stored(1) [OF eg] EnsureGroups_stored(2) [OF eg None] by auto
    then show ?thesis using assms(1) gs None unfolding rl' by (simp add: reload_inv_def)
  next
    case (Some er)
    then show ?thesis using assms(1) unfolding rl' by (simp add: reload_inv_def)
  qed
next
  case (HupReload src)
  obtain r m where re: "Reload src (rl_manager rl) = (r, m)" by force
  then have "rl' = rl\<lparr>rl_manager := m\<rparr> \<or> rl' = rl\<lparr>rl_manager := m, rl_hup := SyncTaken\<rparr>"
    using assms(2) HupReload by (auto split: if_splits option.splits)
  then show ?thesis using reload_inv_Reload [OF assms(1) re] by (auto simp: reload_inv_def)
next
  case HupRead
  then show ?thesis using assms by (auto simp: reload_inv_def split: if_splits)
next
  case (HupApply e fault now)
  then obtain gs where gs: "rl_hup rl = SyncRead gs" using assms(2) by (auto split: sync_phase.splits)
  obtain r w where eg: "EnsureGroups e fault now gs (rl_writer rl) = (r, w)" by force
  show ?thesis
    using reload_inv_store [OF assms(1) EnsureGroups_stored(1) [OF eg]] assms(2) HupApply gs eg
    by (auto simp: reload_inv_def)
next
  case (StoreMessage env ev)
  then show ?thesis
    using reload_inv_store [OF assms(1), of "snd (Write H ulower env ev (rl_writer rl))"] assms(2)
    by (auto simp: Write_stored_chats)
qed

section \<open>Runs of the reloaders\<close>

text \<open>From the moment \<open>serve\<close> has subscribed, which is before the first tick of \<open>Watch\<close>.\<close>

inductive reload_run ::
  "(string \<Rightarrow> string) \<Rightarrow> (string \<Rightarrow> string) \<Rightarrow> reloader \<Rightarrow> bool" for H ulower where
  rr_start: "New src = Inr cfg \<Longrightarrow> EnsureGroups e fault now (Groups cfg) w0 = (None, w) \<Longrightarrow>
    reload_run H ulower \<lparr>rl_manager = Config.Subscribe cfg, rl_writer = w,
      rl_sub = length (m_subs cfg), rl_change = SyncIdle, rl_hup = SyncIdle, rl_failures = 0\<rparr>"
| rr_step: "reload_run H ulower rl \<Longrightarrow> reload_step H ulower lab rl = Some rl' \<Longrightarrow>
    reload_run H ulower rl'"

lemma reload_run_inv: "reload_run H ulower rl \<Longrightarrow> reload_inv rl"
proof (induction rule: reload_run.induct)
  case (rr_start src cfg e fault now w0 w)
  then show ?case
    using EnsureGroups_stored(2) [OF rr_start(2)]
    by (simp add: reload_inv_def Config.Subscribe_def listed_chats_def Groups_def nth_append)
next
  case (rr_step rl lab rl')
  then show ?case using reload_inv_step by blast
qed

text \<open>
  C9. The store follows the allowlist. However the ticks of the configuration, SIGHUP, the two
  goroutines that synchronise the groups and the writes of the listener interleave, as long
  as no synchronisation failed: either every chat that the configuration allows has its row in
  the store, which a message of that chat refers to, or the change goroutine has work it can
  do at once. A change is never lost, although the channel that announces it drops when full.
\<close>

theorem store_follows_allowlist:
  assumes "reload_run H ulower rl" "rl_failures rl = 0"
  shows "(\<forall>jid. IsAllowed (rl_manager rl) jid \<longrightarrow>
      (\<exists>r. r \<in> set (t_groups (durable (w_db (rl_writer rl)))) \<and> gr_jid r = jid)) \<or>
    reload_step H ulower TakeChange rl \<noteq> None \<or>
    reload_step H ulower ReadChange rl \<noteq> None \<or>
    (\<forall>e fault now. reload_step H ulower (ApplyChange e fault now) rl \<noteq> None)"
proof -
  have inv: "reload_inv rl" by (rule reload_run_inv [OF assms(1)])
  show ?thesis
  proof (cases "sync_due rl")
    case True
    then show ?thesis
      using inv by (cases "rl_change rl") (auto simp: sync_due_def reload_inv_def split: list.splits prod.splits)
  next
    case False
    then have "listed_chats (rl_manager rl) \<subseteq> stored_chats (rl_writer rl)"
      using inv assms(2) by (simp add: sync_due_def reload_inv_def)
    then show ?thesis by (auto simp: IsAllowed_listed stored_chats_def)
  qed
qed

fun reload_steps ::
  "(string \<Rightarrow> string) \<Rightarrow> (string \<Rightarrow> string) \<Rightarrow> reload_label list \<Rightarrow> reloader \<Rightarrow> reloader option"
where
  "reload_steps H ulower [] rl = Some rl"
| "reload_steps H ulower (l # ls) rl =
     Option.bind (reload_step H ulower l rl) (reload_steps H ulower ls)"

lemma reload_run_steps:
  "reload_run H ulower rl \<Longrightarrow> reload_steps H ulower ls rl = Some rl' \<Longrightarrow>
    reload_run H ulower rl'"
  by (induction ls arbitrary: rl) (auto split: Option.bind_splits intro: rr_step)

text \<open>A daemon that starts with an empty configuration, which then allows one chat.\<close>

definition sample_reloader :: reloader where
  "sample_reloader = \<lparr>rl_manager = \<lparr>m_groups = [], m_modTime = 5, m_subs = [[]]\<rparr>, rl_writer = new_writer ''m'',
     rl_sub = 0, rl_change = SyncIdle, rl_hup = SyncIdle, rl_failures = 0\<rparr>"

lemma sample_reloader_run: "reload_run (\<lambda>s. s) (\<lambda>s. s) sample_reloader"
proof -
  let ?cfg = "\<lparr>m_groups = [], m_modTime = 5, m_subs = []\<rparr>"
  have new: "New \<lparr>cf_read = Inr ''null'', cf_stat = Inr 5\<rparr> = Inr ?cfg" by code_simp
  have sync: "EnsureGroups no_fault (\<lambda>_. None) 7 (Groups ?cfg) (new_writer ''m'') = (None, new_writer ''m'')"
    by (simp add: EnsureGroups_def Groups_def new_writer_def WithTx_no_fault idle_def opened_def no_fault_def)
  show ?thesis
    using rr_start [OF new sync] by (simp add: sample_reloader_def Config.Subscribe_def)
qed

definition sample_labels :: "go_error option \<Rightarrow> reload_label list" where
  "sample_labels f = [ConfigTick (Inr 6) \<lparr>cf_read = Inr (json_Marshal sample_json), cf_stat = Inr 6\<rparr>, TakeChange, ReadChange,
     ApplyChange \<lparr>begin_err = f, commit_out = CommitOk\<rparr> (\<lambda>_. None) 8]"

theorem store_follows_allowlist_witness:
  "\<exists>rl r. reload_steps (\<lambda>s. s) (\<lambda>s. s) (sample_labels None) sample_reloader = Some rl \<and>
     r \<in> set (t_groups (durable (w_db (rl_writer rl)))) \<and> gr_jid r = ''7@lid''"
proof -
  let ?rl = "reload_steps (\<lambda>s. s) (\<lambda>s. s) (sample_labels None) sample_reloader"
  have "case ?rl of None \<Rightarrow> False | Some rl \<Rightarrow> rl_failures rl = 0 \<and> rl_change rl = SyncIdle \<and>
      m_subs (rl_manager rl) = [[]] \<and> rl_sub rl = 0 \<and> IsAllowed (rl_manager rl) ''7@lid''" by code_simp
  then obtain rl where rl: "?rl = Some rl" "rl_failures rl = 0" "rl_change rl = SyncIdle"
    "m_subs (rl_manager rl) = [[]]" "rl_sub rl = 0" "IsAllowed (rl_manager rl) ''7@lid''"
    by (auto split: option.splits)
  from store_follows_allowlist [OF reload_run_steps [OF sample_reloader_run rl(1)] rl(2)] rl
  show ?thesis by auto
qed

text \<open>
  A synchronisation that fails is not repeated: the chat stays allowed without a row until the
  configuration changes again, and the goroutine has nothing to do.
\<close>

lemma failed_sync_not_retried:
  "case reload_steps (\<lambda>s. s) (\<lambda>s. s) (sample_labels (Some (ErrMsg ''database is locked'')))
      sample_reloader of
     None \<Rightarrow> False
   | Some rl \<Rightarrow> IsAllowed (rl_manager rl) ''7@lid'' \<and> t_groups (durable (w_db (rl_writer rl))) = [] \<and>
       rl_change rl = SyncIdle \<and> m_subs (rl_manager rl) = [[]]"
  by code_simp

section \<open>Exit codes\<close>













definition sample_prims :: prims where
  "sample_prims = \<lparr>pm_quote = (\<lambda>s. s), pm_json_err = (\<lambda>_. ErrMsg []), pm_ulower = (\<lambda>s. s),
     pm_fused = False, pm_oob = (\<lambda>_. 0)\<rparr>"

text \<open>A process without a data root, whose database cannot be opened for the path \<open>no.db\<close>.\<close>

definition sample_process :: process where
  "sample_process = \<lparr>pr_home = Inr ''/h'', pr_rootenv = [],
     pr_daemon = \<lparr>de_log = (\<lambda>_. None), de_config = (\<lambda>_. sample_file), de_store = (\<lambda>_. Inr empty_tables),
       de_files = (\<lambda>_. None), de_tx = no_fault, de_fault = (\<lambda>_. None), de_now = 7, de_serve = sample_serve,
       de_start = \<lparr>sx_prepare = \<lparr>pv_mkdir = None, pv_chmod = None, pv_lstat = Inr None, pv_dial = None,
         pv_remove = None\<rparr>, sx_resolve = None, sx_listen = None, sx_chmod = None, sx_health = sample_health\<rparr>,
       de_qr_err = None, de_connect_err = None, de_pairing = []\<rparr>,
     pr_dial = (\<lambda>_. sample_client), pr_terminal = True,
     pr_unseen = \<lparr>un_open = (\<lambda>p. if p = ''no.db'' then Some (ErrMsg ''unable to open database file'') else None),
       un_pragma = None, un_reader = (\<lambda>_. sample_reader_env)\<rparr>\<rparr>"


text \<open>The error of an unseen command that could not read its database ends with exit code 0.\<close>

lemma unseen_error_exits_0:
  "fst (main_exit sample_prims sample_process [''unseen'', ''-db=no.db'', ''--tenant'', ''t''] sample_reader) = Some 0 \<and>
   rd_err (snd (main_exit sample_prims sample_process [''unseen'', ''-db=no.db'', ''--tenant'', ''t''] sample_reader)) =
     ''unable to open database file'' @ nl"
  by code_simp

section \<open>Hours on the command line\<close>

lemma since_flag_hours:
  assumes "\<bar>h\<bar> < 2 ^ 53"
  shows "snd (since_flag quote) (strconv_FormatInt h) fl =
    Inr (fl\<lparr>uf_since := \<lparr>of_set = True, of_value = Finite h 0\<rparr>\<rparr>)"
  using ParseFloat_FormatInt [OF assms] by (cases "uf_since fl") (simp add: since_flag_def optionalFloat_Set_def)

lemma since_flag_token:
  "flag_token ''--since-hours'' = FlagToken ''since-hours'' None"
  "flag_token (''--since-hours='' @ v) = FlagToken ''since-hours'' (Some v)"
  by (simp_all add: flag_token_def split_value_def)

text \<open>
  C40. Hours count exactly: for a whole number of hours, given as the next argument or behind
  an equals sign, \<open>--since-hours\<close> starts the report that many hours before now, in spite of
  the decimal text and the floating point arithmetic and whether or not the compiler fuses
  the multiplication and the subtraction; zero means everything.
\<close>

theorem since_hours_exact:
  assumes "\<bar>now\<bar> < 2 ^ 52" "\<bar>h\<bar> < 2 ^ 40"
    and "args = [''--since-hours'', strconv_FormatInt h] \<or> args = [''--since-hours='' @ strconv_FormatInt h]"
  shows "\<exists>x. flag_Parse quote (unseen_flag quote) args fl = FlagsParsed (fl\<lparr>uf_since := \<lparr>of_set = True, of_value = x\<rparr>\<rparr>) \<and>
    cutoffFor fused oob now st (Some x) = Inr (if h = 0 then 0 else now - 3600 * h)"
proof -
  define setter where "setter = snd (since_flag quote)"
  have flag: "unseen_flag quote ''since-hours'' = Some (False, setter)"
    by (simp add: unseen_flag_def since_flag_def setter_def)
  have "\<bar>h\<bar> < 2 ^ 53" using assms(2) by simp
  then have "setter (strconv_FormatInt h) fl = Inr (fl\<lparr>uf_since := \<lparr>of_set = True, of_value = Finite h 0\<rparr>\<rparr>)"
    unfolding setter_def by (rule since_flag_hours)
  then have "flag_Parse quote (unseen_flag quote) args fl =
      FlagsParsed (fl\<lparr>uf_since := \<lparr>of_set = True, of_value = Finite h 0\<rparr>\<rparr>)"
    using assms(3) by (elim disjE) (simp_all only: flag_Parse.simps since_flag_token flag token.case option.case
        sum.case list.case prod.case bool.case)
  then show ?thesis using cutoff_whole_hours [OF assms(1,2)] by blast
qed

theorem since_hours_exact_witness:
  "\<exists>x. flag_Parse (\<lambda>s. s) (unseen_flag (\<lambda>s. s)) [''--since-hours=24''] (unseen_defaults [] ''/h'') =
       FlagsParsed ((unseen_defaults [] ''/h'')\<lparr>uf_since := \<lparr>of_set = True, of_value = x\<rparr>\<rparr>) \<and>
     cutoffFor True (\<lambda>_. 0) 1777626000 NotExist (Some x) = Inr 1777539600"
proof -
  have "strconv_FormatInt 24 = ''24''" by code_simp
  then show ?thesis
    using since_hours_exact [of 1777626000 24 "[''--since-hours=24'']" "\<lambda>s. s" "unseen_defaults [] ''/h''"] by simp
qed

end
