(* ===== verification/Sqlite_Binding.thy ===== *)
theory Sqlite_Binding
  imports Sqlite Go_Float
begin

text \<open>
  \<open>internal/sqlite/sqlite.go\<close>: the handle, the values that cross the binding, and a query
  as the sequence of calls it makes. What SQLite answers to a statement is an argument:
  the error of preparing it, the result codes of binding, its rows and how they end.
\<close>

section \<open>Values\<close>

datatype go_value =
    GoNil
  | GoBool bool
  | GoInt int64
  | GoFloat float64
  | GoString string
  | GoBytes string
  | GoOther string

datatype sql_value = SqlNull | SqlInteger int64 | SqlFloat float64 | SqlText string | SqlBlob string

text \<open>The value a parameter gets; \<open>sqlite3_bind_blob\<close> with a null pointer binds null.\<close>

definition bound_value :: "go_value \<Rightarrow> sql_value option" where
  "bound_value v =
     (case v of
        GoNil \<Rightarrow> Some SqlNull
      | GoBool b \<Rightarrow> Some (SqlInteger (if b then 1 else 0))
      | GoInt n \<Rightarrow> Some (SqlInteger n)
      | GoString s \<Rightarrow> Some (SqlText s)
      | GoBytes b \<Rightarrow> Some (if b = [] then SqlNull else SqlBlob b)
      | GoFloat _ \<Rightarrow> None
      | GoOther _ \<Rightarrow> None)"

definition type_name :: "go_value \<Rightarrow> string" where
  "type_name v = (case v of GoFloat _ \<Rightarrow> ''float64'' | GoOther t \<Rightarrow> t | _ \<Rightarrow> [])"

text \<open>\<open>rc\<close> is the result code of SQLite, zero for success.\<close>

definition bind_value :: "int \<Rightarrow> nat \<Rightarrow> go_value \<Rightarrow> go_error + sql_value" where
  "bind_value rc idx v =
     (case bound_value v of
        None \<Rightarrow> Inl (ErrMsg (''unsupported sqlite bind type '' @ type_name v))
      | Some x \<Rightarrow>
          if rc \<noteq> 0
          then Inl (ErrMsg (''sqlite bind '' @ strconv_FormatInt (int idx) @ '' failed: '' @ strconv_FormatInt rc))
          else Inr x)"

definition column :: "sql_value \<Rightarrow> go_value" where
  "column x =
     (case x of
        SqlNull \<Rightarrow> GoNil
      | SqlInteger n \<Rightarrow> GoInt n
      | SqlFloat f \<Rightarrow> GoFloat f
      | SqlBlob b \<Rightarrow> GoBytes b
      | SqlText s \<Rightarrow> GoString s)"

section \<open>Queries\<close>

type_synonym sql_row = "(string \<times> sql_value) list"

record query_env =
  qe_prepare :: "go_error option"
  qe_bind :: "nat \<Rightarrow> int"
  qe_rows :: "sql_row list"
  qe_end :: "go_error option"

fun bind_args :: "(nat \<Rightarrow> int) \<Rightarrow> nat \<Rightarrow> go_value list \<Rightarrow> go_error + sql_value list" where
  "bind_args rc i [] = Inr []"
| "bind_args rc i (v # vs) =
     (case bind_value (rc i) i v of
        Inl e \<Rightarrow> Inl e
      | Inr x \<Rightarrow> (case bind_args rc (Suc i) vs of Inl e \<Rightarrow> Inl e | Inr xs \<Rightarrow> Inr (x # xs)))"

text \<open>A row is a map: a later column of the same name replaces an earlier one.\<close>

definition row_map :: "sql_row \<Rightarrow> string \<rightharpoonup> go_value" where
  "row_map cols = foldl (\<lambda>m (n, x). m(n \<mapsto> column x)) Map.empty cols"

text \<open>The rows, or the error; and the parameters SQLite was given, if it was asked to step.\<close>

definition query :: "query_env \<Rightarrow> go_value list \<Rightarrow> (go_error + (string \<rightharpoonup> go_value) list) \<times> sql_value list option" where
  "query env args =
     (case qe_prepare env of
        Some e \<Rightarrow> (Inl e, None)
      | None \<Rightarrow>
          (case bind_args (qe_bind env) 1 args of
             Inl e \<Rightarrow> (Inl e, None)
           | Inr xs \<Rightarrow>
               (case qe_end env of
                  Some e \<Rightarrow> (Inl e, Some xs)
                | None \<Rightarrow> (Inr (map row_map (qe_rows env)), Some xs))))"

definition Exec :: "query_env \<Rightarrow> go_value list \<Rightarrow> go_error option" where
  "Exec env args = (case fst (query env args) of Inl e \<Rightarrow> Some e | Inr _ \<Rightarrow> None)"

definition retentionValue :: "int64 option \<Rightarrow> go_value" where
  "retentionValue v = (case v of None \<Rightarrow> GoNil | Some n \<Rightarrow> GoInt n)"

section \<open>The handle\<close>

record sqlite_open =
  op_open :: "go_error option"
  op_pragma :: query_env
  op_close :: "go_error option"

datatype handle = HandleOpen | HandleClosed

text \<open>\<open>Close\<close> keeps the handle when SQLite refuses to close it.\<close>

definition Close_db :: "go_error option \<Rightarrow> handle \<Rightarrow> go_error option \<times> handle" where
  "Close_db rc h =
     (case h of
        HandleClosed \<Rightarrow> (None, HandleClosed)
      | HandleOpen \<Rightarrow> (case rc of Some e \<Rightarrow> (Some e, HandleOpen) | None \<Rightarrow> (None, HandleClosed)))"

definition Open :: "sqlite_open \<Rightarrow> (go_error + unit) \<times> handle" where
  "Open env =
     (case op_open env of
        Some e \<Rightarrow> (Inl e, HandleClosed)
      | None \<Rightarrow>
          (case Exec (op_pragma env) [] of
             Some e \<Rightarrow> (Inl e, snd (Close_db (op_close env) HandleOpen))
           | None \<Rightarrow> (Inr (), HandleOpen)))"

section \<open>What the binding keeps\<close>

text \<open>
  A value that is stored and read again is the same, but for three conversions the readers
  rely on: a boolean comes back as an integer, no value and an empty blob as null.
\<close>

definition read_back :: "go_value \<Rightarrow> go_value" where
  "read_back v =
     (case v of
        GoBool b \<Rightarrow> GoInt (if b then 1 else 0)
      | GoBytes b \<Rightarrow> if b = [] then GoNil else GoBytes b
      | _ \<Rightarrow> v)"

lemma bind_column: "bind_value rc i v = Inr x \<Longrightarrow> column x = read_back v"
  by (auto simp: bind_value_def bound_value_def column_def read_back_def
      split: go_value.splits option.splits if_splits)

lemma bind_args_values:
  "bind_args rc i vs = Inr xs \<Longrightarrow> map column xs = map read_back vs"
proof (induction rc i vs arbitrary: xs rule: bind_args.induct)
  case (2 rc i v vs)
  then show ?case by (auto split: sum.splits dest: bind_column)
qed simp

lemma row_map_value:
  assumes "distinct (map fst cols)"
  shows "row_map cols n = map_option column (map_of cols n)"
proof -
  have "foldl (\<lambda>m (k, x). m(k \<mapsto> column x)) m cols n =
      (case map_of cols n of None \<Rightarrow> m n | Some x \<Rightarrow> Some (column x))" for m
    using assms
  proof (induction cols arbitrary: m)
    case (Cons c cols)
    then show ?case
      by (cases c) (force split: option.splits simp: map_of_eq_None_iff dest: map_of_SomeD)
  qed simp
  then show ?thesis by (simp add: row_map_def map_option_case)
qed

end
