(* ===== verification/Schema.thy ===== *)
theory Schema
  imports Sqlite_Binding Paths
begin

text \<open>
  \<open>schema.sql\<close> and the part of \<open>writer.go\<close> that brings a database to it: the catalogue of a
  database as far as the statements of the schema read and change it, \<open>EnsureSchema\<close> with its
  column migrations, and \<open>writer.New\<close>. SQLite compares names without regard to ASCII case.
\<close>

section \<open>The catalogue\<close>

type_synonym column_def = "string \<times> string"

record catalogue =
  ca_tables :: "(string \<times> column_def list) list"
  ca_indexes :: "string list"
  ca_fts :: "string list"
  ca_pragmas :: "(string \<times> string) list"

definition empty_catalogue :: catalogue where
  "empty_catalogue = \<lparr>ca_tables = [], ca_indexes = [], ca_fts = [], ca_pragmas = []\<rparr>"

datatype stmt =
    Pragma string string
  | CreateTable string "column_def list"
  | CreateIndex string string "string list"
  | CreateFTS string
  | AddColumn string string string

definition fold_name :: "string \<Rightarrow> string" where
  "fold_name = map ascii_lower"

definition has_name :: "string list \<Rightarrow> string \<Rightarrow> bool" where
  "has_name ns n = list_ex (\<lambda>x. fold_name x = fold_name n) ns"

definition table_columns :: "catalogue \<Rightarrow> string \<Rightarrow> column_def list option" where
  "table_columns c t = map_option snd (find (\<lambda>p. fold_name (fst p) = fold_name t) (ca_tables c))"

text \<open>A column that is not null needs a default before it can be added to a table.\<close>

definition addable :: "string \<Rightarrow> bool" where
  "addable decl \<longleftrightarrow> strings_Contains decl ''not null'' \<longrightarrow> strings_Contains decl ''default''"

definition append_column :: "string \<Rightarrow> column_def \<Rightarrow> catalogue \<Rightarrow> catalogue" where
  "append_column t d c = c\<lparr>ca_tables :=
     map (\<lambda>(n, cols). (n, if fold_name n = fold_name t then cols @ [d] else cols)) (ca_tables c)\<rparr>"

text \<open>
  One statement on a connection whose SQLite has the fts5 module or not; \<open>fault\<close> is the error
  of the statement for reasons of its own (a lock, a full disk).
\<close>

definition exec_stmt :: "bool \<Rightarrow> (stmt \<Rightarrow> go_error option) \<Rightarrow> stmt \<Rightarrow> catalogue \<Rightarrow> go_error option \<times> catalogue" where
  "exec_stmt fts5 fault s c =
     (case fault s of
        Some e \<Rightarrow> (Some e, c)
      | None \<Rightarrow>
          (case s of
             Pragma n v \<Rightarrow> (None, c\<lparr>ca_pragmas := (n, v) # ca_pragmas c\<rparr>)
           | CreateTable t cols \<Rightarrow>
               (None, if table_columns c t \<noteq> None then c else c\<lparr>ca_tables := ca_tables c @ [(t, cols)]\<rparr>)
           | CreateIndex i t cols \<Rightarrow>
               if has_name (ca_indexes c) i then (None, c)
               else (case table_columns c t of
                   None \<Rightarrow> (Some (ErrMsg (''no such table: main.'' @ t)), c)
                 | Some have \<Rightarrow>
                     (case filter (\<lambda>n. \<not> has_name (map fst have) n) cols of
                        n # _ \<Rightarrow> (Some (ErrMsg (''no such column: '' @ n)), c)
                      | [] \<Rightarrow> (None, c\<lparr>ca_indexes := ca_indexes c @ [i]\<rparr>)))
           | CreateFTS t \<Rightarrow>
               if has_name (ca_fts c) t then (None, c)
               else if \<not> fts5 then (Some (ErrMsg ''no such module: fts5''), c)
               else (None, c\<lparr>ca_fts := ca_fts c @ [t]\<rparr>)
           | AddColumn t n decl \<Rightarrow>
               (case table_columns c t of
                  None \<Rightarrow> (Some (ErrMsg (''no such table: '' @ t)), c)
                | Some have \<Rightarrow>
                    if has_name (map fst have) n then (Some (ErrMsg (''duplicate column name: '' @ n)), c)
                    else if \<not> addable decl
                    then (Some (ErrMsg ''Cannot add a NOT NULL column with default value NULL''), c)
                    else (None, append_column t (n, decl) c))))"

text \<open>\<open>ExecScript\<close> stops at the first statement that fails and keeps what ran before it.\<close>

fun ExecScript :: "bool \<Rightarrow> (stmt \<Rightarrow> go_error option) \<Rightarrow> stmt list \<Rightarrow> catalogue \<Rightarrow> go_error option \<times> catalogue" where
  "ExecScript fts5 fault [] c = (None, c)"
| "ExecScript fts5 fault (s # ss) c =
     (case exec_stmt fts5 fault s c of
        (Some e, c1) \<Rightarrow> (Some e, c1)
      | (None, c1) \<Rightarrow> ExecScript fts5 fault ss c1)"

section \<open>The schema\<close>

definition groups_columns :: "column_def list" where
  "groups_columns = [(''jid'', ''text primary key''), (''label'', ''text not null''), (''purpose'', ''text''),
     (''ingest_text'', ''integer not null default 1''), (''ingest_media_metadata'', ''integer not null default 1''),
     (''copy_media'', ''integer not null default 0''), (''index_embeddings'', ''integer not null default 0''),
     (''retention_days'', ''integer''), (''updated_at'', ''integer not null'')]"

definition messages_columns :: "column_def list" where
  "messages_columns = [(''id'', ''text primary key''), (''source_pk'', ''integer not null''),
     (''chat_jid'', ''text not null''), (''chat_label'', ''text not null''), (''msg_id'', ''text not null''),
     (''sender_jid'', ''text''), (''sender_name'', ''text''), (''ts'', ''integer not null''),
     (''from_me'', ''integer not null''), (''text'', ''text''), (''raw_type'', ''integer not null''),
     (''message_type'', ''text''), (''media_type'', ''text''), (''media_title'', ''text''),
     (''media_path'', ''text''), (''media_url'', ''text''), (''media_size'', ''integer''),
     (''text_hash'', ''text not null''), (''ingested_at'', ''integer not null''),
     (''deleted_or_missing'', ''integer not null default 0''), (''media_local_path'', ''text''),
     (''media_extracted_text'', ''text''), (''media_extracted_by'', ''text''),
     (''media_hydrated_at'', ''integer''), (''media_hydration_status'', ''text''),
     (''media_hydration_attempts'', ''integer not null default 0''), (''media_surfaced_at'', ''integer'')]"

definition runs_columns :: "column_def list" where
  "runs_columns = [(''run_id'', ''text primary key''), (''started_at'', ''integer not null''),
     (''finished_at'', ''integer''), (''mode'', ''text not null''), (''dry_run'', ''integer not null default 0''),
     (''allowed_group_count'', ''integer not null''), (''scanned_messages'', ''integer not null default 0''),
     (''inserted_messages'', ''integer not null default 0''), (''updated_messages'', ''integer not null default 0''),
     (''skipped_messages'', ''integer not null default 0''), (''media_copied'', ''integer not null default 0''),
     (''status'', ''text not null''), (''error'', ''text'')]"

definition marker :: stmt where
  "marker = CreateIndex ''idx_whatsapp_messages_chat_ts'' ''whatsapp_messages'' [''chat_jid'', ''ts'']"

definition schema_script :: "stmt list" where
  "schema_script =
     [Pragma ''journal_mode'' ''wal'', Pragma ''synchronous'' ''normal'', Pragma ''foreign_keys'' ''on'',
      CreateTable ''whatsapp_groups'' groups_columns,
      CreateTable ''whatsapp_messages'' messages_columns,
      marker,
      CreateIndex ''idx_whatsapp_messages_sender_ts'' ''whatsapp_messages'' [''sender_jid'', ''ts''],
      CreateIndex ''idx_whatsapp_messages_source_pk'' ''whatsapp_messages'' [''source_pk''],
      CreateIndex ''idx_whatsapp_messages_media_hydrated_at'' ''whatsapp_messages'' [''media_hydrated_at''],
      CreateFTS ''whatsapp_messages_fts'',
      CreateTable ''whatsapp_ingest_runs'' runs_columns]"

definition splitSchema :: "stmt list \<Rightarrow> stmt list \<times> stmt list" where
  "splitSchema ss = (takeWhile (\<lambda>s. s \<noteq> marker) ss, dropWhile (\<lambda>s. s \<noteq> marker) ss)"

section \<open>Migrations\<close>

definition group_migrations :: "column_def list" where
  "group_migrations = [(''purpose'', ''text''), (''ingest_text'', ''integer not null default 1''),
     (''ingest_media_metadata'', ''integer not null default 1''), (''copy_media'', ''integer not null default 0''),
     (''index_embeddings'', ''integer not null default 0''), (''retention_days'', ''integer''),
     (''updated_at'', ''integer not null default 0'')]"

definition message_migrations :: "column_def list" where
  "message_migrations = [(''media_url'', ''text''), (''media_size'', ''integer''),
     (''deleted_or_missing'', ''integer not null default 0''), (''media_local_path'', ''text''),
     (''media_extracted_text'', ''text''), (''media_extracted_by'', ''text''),
     (''media_hydrated_at'', ''integer''), (''media_hydration_status'', ''text''),
     (''media_hydration_attempts'', ''integer not null default 0''), (''media_surfaced_at'', ''integer'')]"

definition run_migrations :: "column_def list" where
  "run_migrations = [(''started_at'', ''integer not null default 0''), (''finished_at'', ''integer''),
     (''mode'', ''text not null default '' @ [CHR 0x27, CHR 0x27]), (''dry_run'', ''integer not null default 0''),
     (''allowed_group_count'', ''integer not null default 0''),
     (''scanned_messages'', ''integer not null default 0''), (''inserted_messages'', ''integer not null default 0''),
     (''updated_messages'', ''integer not null default 0''), (''skipped_messages'', ''integer not null default 0''),
     (''media_copied'', ''integer not null default 0''),
     (''status'', ''text not null default '' @ [CHR 0x27, CHR 0x27]), (''error'', ''text'')]"

fun add_columns ::
  "bool \<Rightarrow> (stmt \<Rightarrow> go_error option) \<Rightarrow> string \<Rightarrow> string list \<Rightarrow> column_def list \<Rightarrow> catalogue \<Rightarrow>
     go_error option \<times> catalogue" where
  "add_columns fts5 fault t have [] c = (None, c)"
| "add_columns fts5 fault t have ((n, decl) # cols) c =
     (if n \<in> set have then add_columns fts5 fault t have cols c
      else case exec_stmt fts5 fault (AddColumn t n decl) c of
        (Some e, c1) \<Rightarrow> (Some (ErrWrap (''migrate '' @ t @ ''.'' @ n @ '': '') e []), c1)
      | (None, c1) \<Rightarrow> add_columns fts5 fault t have cols c1)"

text \<open>
  The names are those \<open>pragma table_info\<close> lists, compared as they are written; \<open>qfault\<close> is the
  error of that query. A table that does not exist lists none.
\<close>

definition addMissingColumns ::
  "bool \<Rightarrow> (stmt \<Rightarrow> go_error option) \<Rightarrow> (string \<Rightarrow> go_error option) \<Rightarrow> string \<Rightarrow> column_def list \<Rightarrow> catalogue \<Rightarrow>
     go_error option \<times> catalogue" where
  "addMissingColumns fts5 fault qfault t cols c =
     (case qfault t of
        Some e \<Rightarrow> (Some e, c)
      | None \<Rightarrow>
          add_columns fts5 fault t (case table_columns c t of None \<Rightarrow> [] | Some have \<Rightarrow> map fst have) cols c)"

definition EnsureSchema ::
  "bool \<Rightarrow> (stmt \<Rightarrow> go_error option) \<Rightarrow> (string \<Rightarrow> go_error option) \<Rightarrow> go_error option \<Rightarrow> catalogue \<Rightarrow>
     go_error option \<times> catalogue" where
  "EnsureSchema fts5 fault qfault ctx c =
     (case ctx of Some e \<Rightarrow> (Some e, c) | None \<Rightarrow>
      case splitSchema schema_script of (base, post) \<Rightarrow>
      (case ExecScript fts5 fault base c of (Some e, c1) \<Rightarrow> (Some e, c1) | (None, c1) \<Rightarrow>
      (case addMissingColumns fts5 fault qfault ''whatsapp_groups'' group_migrations c1 of
         (Some e, c2) \<Rightarrow> (Some e, c2) | (None, c2) \<Rightarrow>
      (case addMissingColumns fts5 fault qfault ''whatsapp_messages'' message_migrations c2 of
         (Some e, c3) \<Rightarrow> (Some e, c3) | (None, c3) \<Rightarrow>
      (case ExecScript fts5 fault post c3 of (Some e, c4) \<Rightarrow> (Some e, c4) | (None, c4) \<Rightarrow>
       addMissingColumns fts5 fault qfault ''whatsapp_ingest_runs'' run_migrations c4)))))"

section \<open>Opening a writer\<close>

record new_env =
  nw_mkdir :: "go_error option"
  nw_open :: sqlite_open
  nw_fts5 :: bool
  nw_fault :: "stmt \<Rightarrow> go_error option"
  nw_query :: "string \<Rightarrow> go_error option"
  nw_close :: "go_error option"

text \<open>The handle is closed again when the schema cannot be brought up to date.\<close>

definition New_writer :: "new_env \<Rightarrow> catalogue \<Rightarrow> (go_error + unit) \<times> handle \<times> catalogue" where
  "New_writer env c =
     (case nw_mkdir env of Some e \<Rightarrow> (Inl e, HandleClosed, c) | None \<Rightarrow>
     (case Open (nw_open env) of
        (Inl e, h) \<Rightarrow> (Inl e, h, c)
      | (Inr _, h) \<Rightarrow>
          (case EnsureSchema (nw_fts5 env) (nw_fault env) (nw_query env) None c of
             (Some e, c1) \<Rightarrow> (Inl e, snd (Close_db (nw_close env) h), c1)
           | (None, c1) \<Rightarrow> (Inr (), h, c1))))"

end
