(* ===== verification/Schema_Properties.thy ===== *)
theory Schema_Properties
  imports Schema
begin

text \<open>
  \<open>EnsureSchema\<close> brings an empty database, or one an earlier version of the program made, to
  the schema that the statements of the writer and the reader name.
\<close>

section \<open>Names and columns\<close>

lemma has_name_mem: "n \<in> set ns \<Longrightarrow> has_name ns n"
  by (auto simp: has_name_def list_ex_iff)

lemma has_name_append [simp]: "has_name (ms @ ns) n \<longleftrightarrow> has_name ms n \<or> has_name ns n"
  by (simp add: has_name_def)

lemma has_name_Cons [simp]: "has_name (m # ns) n \<longleftrightarrow> fold_name m = fold_name n \<or> has_name ns n"
  by (simp add: has_name_def)

lemma has_name_Nil [simp]: "\<not> has_name [] n"
  by (simp add: has_name_def)

lemma table_columns_fold: "fold_name u = fold_name t \<Longrightarrow> table_columns c u = table_columns c t"
  by (simp add: table_columns_def)

lemma table_columns_pragmas [simp]: "table_columns (c\<lparr>ca_pragmas := p\<rparr>) t = table_columns c t"
  by (simp add: table_columns_def)

lemma table_columns_indexes [simp]: "table_columns (c\<lparr>ca_indexes := p\<rparr>) t = table_columns c t"
  by (simp add: table_columns_def)

lemma table_columns_fts [simp]: "table_columns (c\<lparr>ca_fts := p\<rparr>) t = table_columns c t"
  by (simp add: table_columns_def)

lemma table_columns_append:
  "table_columns (append_column t d c) u =
    (if fold_name u = fold_name t then map_option (\<lambda>cols. cols @ [d]) (table_columns c u) else table_columns c u)"
proof -
  have "map_option snd (find (\<lambda>p. fold_name (fst p) = fold_name u)
      (map (\<lambda>(n, cols). (n, if fold_name n = fold_name t then cols @ [d] else cols)) ts)) =
    (if fold_name u = fold_name t
     then map_option (\<lambda>cols. cols @ [d]) (map_option snd (find (\<lambda>p. fold_name (fst p) = fold_name u) ts))
     else map_option snd (find (\<lambda>p. fold_name (fst p) = fold_name u) ts))" for ts :: "(string \<times> column_def list) list"
    by (induction ts) auto
  then show ?thesis by (simp add: table_columns_def append_column_def)
qed

lemma append_column_rest [simp]:
  "ca_indexes (append_column t d c) = ca_indexes c" "ca_fts (append_column t d c) = ca_fts c"
  "ca_pragmas (append_column t d c) = ca_pragmas c"
  by (simp_all add: append_column_def)

lemma find_append: "find P (xs @ ys) = (case find P xs of None \<Rightarrow> find P ys | Some x \<Rightarrow> Some x)"
  by (induction xs) auto

section \<open>Statements without faults\<close>

abbreviation ok_stmt :: "stmt \<Rightarrow> go_error option" where
  "ok_stmt \<equiv> \<lambda>_. None"

text \<open>\<open>c'\<close> is \<open>c\<close> with the columns \<open>cols\<close> for the table \<open>t\<close>.\<close>

definition sets_table :: "string \<Rightarrow> column_def list \<Rightarrow> catalogue \<Rightarrow> catalogue \<Rightarrow> bool" where
  "sets_table t cols c c' \<longleftrightarrow>
     (\<forall>u. table_columns c' u = (if fold_name u = fold_name t then Some cols else table_columns c u)) \<and>
     ca_indexes c' = ca_indexes c \<and> ca_fts c' = ca_fts c \<and> ca_pragmas c' = ca_pragmas c"

definition columns_or :: "catalogue \<Rightarrow> string \<Rightarrow> column_def list \<Rightarrow> column_def list" where
  "columns_or c t new = (case table_columns c t of None \<Rightarrow> new | Some have \<Rightarrow> have)"

lemma create_table_sets:
  "\<exists>c'. exec_stmt fts5 ok_stmt (CreateTable t cols) c = (None, c') \<and> sets_table t (columns_or c t cols) c c'"
proof (cases "table_columns c t")
  case None
  have "find (\<lambda>p. fold_name (fst p) = fold_name u) (ca_tables c @ [(t, cols)]) =
      (if fold_name u = fold_name t then Some (t, cols) else find (\<lambda>p. fold_name (fst p) = fold_name u) (ca_tables c))" for u
    using None by (cases "fold_name u = fold_name t") (auto simp: table_columns_def find_append split: option.splits)
  then show ?thesis
    using None by (auto simp: exec_stmt_def sets_table_def columns_or_def table_columns_def)
next
  case (Some old)
  have same: "table_columns c u = Some old" if "fold_name u = fold_name t" for u
    using table_columns_fold [OF that] Some by simp
  show ?thesis
    using Some same by (simp add: exec_stmt_def sets_table_def columns_or_def)
qed

lemma add_columns_sets:
  assumes "table_columns c t = Some cur"
    and "\<forall>(n, decl)\<in>set cols. n \<notin> set have \<longrightarrow> \<not> has_name (map fst cur) n \<and> addable decl"
    and "distinct (map (fold_name \<circ> fst) cols)"
  shows "\<exists>c'. add_columns fts5 ok_stmt t have cols c = (None, c') \<and>
    sets_table t (cur @ filter (\<lambda>d. fst d \<notin> set have) cols) c c'"
  using assms
proof (induction cols arbitrary: c cur)
  case Nil
  have "table_columns c u = Some cur" if "fold_name u = fold_name t" for u
    using table_columns_fold [OF that] Nil(1) by simp
  then show ?case by (simp add: sets_table_def)
next
  case (Cons d cols)
  obtain n decl where d: "d = (n, decl)" by force
  show ?case
  proof (cases "n \<in> set have")
    case True
    then show ?thesis using Cons d by simp
  next
    case False
    let ?c1 = "append_column t d c"
    have step: "exec_stmt fts5 ok_stmt (AddColumn t n decl) c = (None, ?c1)"
      using Cons.prems d False by (simp add: exec_stmt_def)
    have "table_columns ?c1 t = Some (cur @ [d])" using Cons.prems(1) by (simp add: table_columns_append)
    moreover have "\<forall>(m, decl)\<in>set cols. m \<notin> set have \<longrightarrow> \<not> has_name (map fst (cur @ [d])) m \<and> addable decl"
      using Cons.prems(2,3) d by (force simp: image_iff)
    ultimately obtain c' where c': "add_columns fts5 ok_stmt t have cols ?c1 = (None, c')"
      "sets_table t ((cur @ [d]) @ filter (\<lambda>d. fst d \<notin> set have) cols) ?c1 c'"
      using Cons.IH [of ?c1 "cur @ [d]"] Cons.prems(3) by auto
    have "sets_table t (cur @ filter (\<lambda>d. fst d \<notin> set have) (d # cols)) c c'"
      using c'(2) d False by (auto simp: sets_table_def table_columns_append)
    then show ?thesis using c'(1) step d False by simp
  qed
qed

lemma add_columns_none: "set (map fst cols) \<subseteq> set have \<Longrightarrow> add_columns fts5 fault t have cols c = (None, c)"
  by (induction cols) auto

section \<open>What the schema asks for\<close>

definition schema_indexes :: "(string \<times> string list) list" where
  "schema_indexes = [(''idx_whatsapp_messages_chat_ts'', [''chat_jid'', ''ts'']),
     (''idx_whatsapp_messages_sender_ts'', [''sender_jid'', ''ts'']),
     (''idx_whatsapp_messages_source_pk'', [''source_pk'']),
     (''idx_whatsapp_messages_media_hydrated_at'', [''media_hydrated_at''])]"

text \<open>Every column, index and table of \<open>schema.sql\<close> is there.\<close>

definition table_complete :: "string \<Rightarrow> column_def list \<Rightarrow> catalogue \<Rightarrow> bool" where
  "table_complete t cols c \<longleftrightarrow> (\<exists>have. table_columns c t = Some have \<and> fst ` set cols \<subseteq> fst ` set have)"

definition schema_complete :: "catalogue \<Rightarrow> bool" where
  "schema_complete c \<longleftrightarrow>
     table_complete ''whatsapp_groups'' groups_columns c \<and>
     table_complete ''whatsapp_messages'' messages_columns c \<and>
     table_complete ''whatsapp_ingest_runs'' runs_columns c \<and>
     (\<forall>i\<in>set schema_indexes. has_name (ca_indexes c) (fst i)) \<and>
     has_name (ca_fts c) ''whatsapp_messages_fts''"

text \<open>
  A table an earlier version made: it has the columns that are not migrated, and of the
  others any, spelled as they are now.
\<close>

definition legacy_table :: "string \<Rightarrow> column_def list \<Rightarrow> column_def list \<Rightarrow> catalogue \<Rightarrow> bool" where
  "legacy_table t cols mig c \<longleftrightarrow>
     (case table_columns c t of
        None \<Rightarrow> True
      | Some have \<Rightarrow> fst ` set cols \<subseteq> fst ` set have \<union> fst ` set mig \<and>
        (\<forall>n\<in>fst ` set mig. has_name (map fst have) n \<longrightarrow> n \<in> fst ` set have))"

definition legacy :: "catalogue \<Rightarrow> bool" where
  "legacy c \<longleftrightarrow>
     legacy_table ''whatsapp_groups'' groups_columns group_migrations c \<and>
     legacy_table ''whatsapp_messages'' messages_columns message_migrations c \<and>
     legacy_table ''whatsapp_ingest_runs'' runs_columns run_migrations c"

lemma split_schema:
  "splitSchema schema_script =
    ([Pragma ''journal_mode'' ''wal'', Pragma ''synchronous'' ''normal'', Pragma ''foreign_keys'' ''on'',
      CreateTable ''whatsapp_groups'' groups_columns, CreateTable ''whatsapp_messages'' messages_columns],
     map (\<lambda>(i, cols). CreateIndex i ''whatsapp_messages'' cols) schema_indexes @
     [CreateFTS ''whatsapp_messages_fts'', CreateTable ''whatsapp_ingest_runs'' runs_columns])"
  by (simp add: splitSchema_def schema_script_def marker_def schema_indexes_def)

lemma migrations_addable:
  "\<forall>d\<in>set (group_migrations @ message_migrations @ run_migrations). addable (snd d)"
  by code_simp

lemma migrations_distinct:
  "distinct (map (fold_name \<circ> fst) group_migrations) \<and> distinct (map (fold_name \<circ> fst) message_migrations) \<and>
   distinct (map (fold_name \<circ> fst) run_migrations)"
  by code_simp

lemma table_names_differ:
  "fold_name ''whatsapp_groups'' \<noteq> fold_name ''whatsapp_messages''"
  "fold_name ''whatsapp_groups'' \<noteq> fold_name ''whatsapp_ingest_runs''"
  "fold_name ''whatsapp_messages'' \<noteq> fold_name ''whatsapp_ingest_runs''"
  by code_simp+

text \<open>A migration of a table that is there leaves its columns first and the missing ones after them.\<close>

definition migrated :: "column_def list \<Rightarrow> column_def list \<Rightarrow> column_def list" where
  "migrated mig have = have @ filter (\<lambda>d. fst d \<notin> fst ` set have) mig"

lemma add_missing_sets:
  assumes "table_columns c t = Some have" "\<forall>d\<in>set mig. addable (snd d)" "distinct (map (fold_name \<circ> fst) mig)"
    and "\<forall>n\<in>fst ` set mig. has_name (map fst have) n \<longrightarrow> n \<in> fst ` set have"
  shows "\<exists>c'. addMissingColumns fts5 ok_stmt (\<lambda>_. None) t mig c = (None, c') \<and> sets_table t (migrated mig have) c c'"
proof -
  have "\<forall>(n, decl)\<in>set mig. n \<notin> set (map fst have) \<longrightarrow> \<not> has_name (map fst have) n \<and> addable decl"
    using assms(2,4) by force
  from add_columns_sets [OF assms(1) this assms(3)] show ?thesis
    using assms(1) by (simp add: addMissingColumns_def migrated_def)
qed

lemma migrated_names: "fst ` set (migrated mig have) = fst ` set have \<union> fst ` set mig"
proof -
  have "fst ` set (filter (\<lambda>d. fst d \<notin> N) mig) \<union> N = N \<union> fst ` set mig" for N :: "string set"
    by (induction mig) auto
  from this [of "fst ` set have"] show ?thesis by (simp add: migrated_def image_Un Un_commute)
qed

lemma migrate_table:
  assumes "legacy_table t cols mig c" "table_columns c1 t = Some (columns_or c t cols)"
    and "\<forall>d\<in>set mig. addable (snd d)" "distinct (map (fold_name \<circ> fst) mig)" "fst ` set mig \<subseteq> fst ` set cols"
  shows "\<exists>c2. addMissingColumns fts5 ok_stmt (\<lambda>_. None) t mig c1 = (None, c2) \<and>
    sets_table t (migrated mig (columns_or c t cols)) c1 c2 \<and>
    fst ` set cols \<subseteq> fst ` set (migrated mig (columns_or c t cols))"
proof -
  let ?have = "columns_or c t cols"
  have spelled: "\<forall>n\<in>fst ` set mig. has_name (map fst ?have) n \<longrightarrow> n \<in> fst ` set ?have"
    using assms(1,5) by (cases "table_columns c t") (auto simp: legacy_table_def columns_or_def)
  have "fst ` set cols \<subseteq> fst ` set ?have \<union> fst ` set mig"
    using assms(1) by (cases "table_columns c t") (auto simp: legacy_table_def columns_or_def)
  then show ?thesis
    using add_missing_sets [OF assms(2,3,4) spelled] by (simp add: migrated_names)
qed

lemma ExecScript_append:
  "ExecScript fts5 fault (xs @ ys) c =
    (case ExecScript fts5 fault xs c of (Some e, c1) \<Rightarrow> (Some e, c1) | (None, c1) \<Rightarrow> ExecScript fts5 fault ys c1)"
  by (induction xs arbitrary: c) (auto split: prod.splits option.splits)

lemma exec_pragma: "exec_stmt fts5 ok_stmt (Pragma n v) c = (None, c\<lparr>ca_pragmas := (n, v) # ca_pragmas c\<rparr>)"
  by (simp add: exec_stmt_def)

definition with_pragmas :: "catalogue \<Rightarrow> catalogue" where
  "with_pragmas c = c\<lparr>ca_pragmas :=
     [(''foreign_keys'', ''on''), (''synchronous'', ''normal''), (''journal_mode'', ''wal'')] @ ca_pragmas c\<rparr>"

lemma with_pragmas_rest [simp]:
  "table_columns (with_pragmas c) t = table_columns c t" "ca_indexes (with_pragmas c) = ca_indexes c"
  "ca_fts (with_pragmas c) = ca_fts c" "ca_tables (with_pragmas c) = ca_tables c"
  by (simp_all add: with_pragmas_def)

lemma exec_pragmas:
  "ExecScript fts5 ok_stmt (Pragma ''journal_mode'' ''wal'' # Pragma ''synchronous'' ''normal'' #
     Pragma ''foreign_keys'' ''on'' # ss) c = ExecScript fts5 ok_stmt ss (with_pragmas c)"
  by (simp add: exec_pragma with_pragmas_def)

lemma create_indexes:
  assumes "table_columns c t = Some have" "\<forall>i\<in>set is. set (snd i) \<subseteq> fst ` set have"
  shows "\<exists>ns. ExecScript fts5 ok_stmt (map (\<lambda>(i, cols). CreateIndex i t cols) is) c =
      (None, c\<lparr>ca_indexes := ca_indexes c @ ns\<rparr>) \<and> (\<forall>i\<in>set is. has_name (ca_indexes c @ ns) (fst i))"
  using assms
proof (induction "is" arbitrary: c)
  case Nil
  then show ?case by (intro exI [of _ "[]"]) simp
next
  case (Cons i ids)
  obtain n cols where i: "i = (n, cols)" by force
  have "has_name (map fst have) x" if "x \<in> set cols" for x
    using Cons.prems(2) i that by (intro has_name_mem) auto
  then have "filter (\<lambda>x. \<not> has_name (map fst have) x) cols = []" by (simp add: filter_empty_conv)
  then obtain m where m: "exec_stmt fts5 ok_stmt (CreateIndex n t cols) c = (None, c\<lparr>ca_indexes := ca_indexes c @ m\<rparr>)"
    "has_name (ca_indexes c @ m) n"
    using Cons.prems(1) by (cases "has_name (ca_indexes c) n") (auto simp: exec_stmt_def intro: that [of "[]"] that [of "[n]"])
  obtain ns where ns: "ExecScript fts5 ok_stmt (map (\<lambda>(i, cols). CreateIndex i t cols) ids) (c\<lparr>ca_indexes := ca_indexes c @ m\<rparr>) =
      (None, c\<lparr>ca_indexes := (ca_indexes c @ m) @ ns\<rparr>)" "\<forall>i\<in>set ids. has_name ((ca_indexes c @ m) @ ns) (fst i)"
    using Cons.IH [of "c\<lparr>ca_indexes := ca_indexes c @ m\<rparr>"] Cons.prems by auto
  then show ?case using m i by (intro exI [of _ "m @ ns"]) auto
qed

lemma create_fts:
  assumes "fts5 \<or> has_name (ca_fts c) t"
  shows "\<exists>ns. exec_stmt fts5 ok_stmt (CreateFTS t) c = (None, c\<lparr>ca_fts := ca_fts c @ ns\<rparr>) \<and> has_name (ca_fts c @ ns) t"
proof (cases "has_name (ca_fts c) t")
  case True
  then show ?thesis by (intro exI [of _ "[]"]) (simp add: exec_stmt_def)
next
  case False
  then show ?thesis using assms by (intro exI [of _ "[t]"]) (simp add: exec_stmt_def)
qed

lemma migrations_of_schema:
  "fst ` set group_migrations \<subseteq> fst ` set groups_columns"
  "fst ` set message_migrations \<subseteq> fst ` set messages_columns"
  "fst ` set run_migrations \<subseteq> fst ` set runs_columns"
  by code_simp+

lemma indexed_columns: "\<forall>i\<in>set schema_indexes. set (snd i) \<subseteq> fst ` set messages_columns"
  by code_simp

section \<open>The migration\<close>

lemma sets_same: "sets_table t cols c c' \<Longrightarrow> table_columns c' t = Some cols"
  by (simp add: sets_table_def)

lemma sets_other: "sets_table t cols c c' \<Longrightarrow> fold_name u \<noteq> fold_name t \<Longrightarrow> table_columns c' u = table_columns c u"
  by (simp add: sets_table_def)

text \<open>A step keeps the columns of every table, and the order they have.\<close>

definition keeps_columns :: "catalogue \<Rightarrow> catalogue \<Rightarrow> bool" where
  "keeps_columns c c' \<longleftrightarrow>
     (\<forall>t old. table_columns c t = Some old \<longrightarrow> (\<exists>added. table_columns c' t = Some (old @ added)))"

lemma keeps_trans [trans]: "keeps_columns c1 c2 \<Longrightarrow> keeps_columns c2 c3 \<Longrightarrow> keeps_columns c1 c3"
  unfolding keeps_columns_def by (metis append_assoc)

lemma keeps_same: "(\<And>t. table_columns c' t = table_columns c t) \<Longrightarrow> keeps_columns c c'"
  by (simp add: keeps_columns_def)

lemma sets_keeps:
  assumes "sets_table t cols c c'" "\<And>old. table_columns c t = Some old \<Longrightarrow> \<exists>added. cols = old @ added"
  shows "keeps_columns c c'"
  unfolding keeps_columns_def
proof (intro allI impI)
  fix u old assume old: "table_columns c u = Some old"
  show "\<exists>added. table_columns c' u = Some (old @ added)"
  proof (cases "fold_name u = fold_name t")
    case True
    then have "table_columns c t = Some old" using old table_columns_fold [OF True] by simp
    then show ?thesis using assms True by (auto simp: sets_table_def)
  next
    case False
    then show ?thesis using assms(1) old by (simp add: sets_table_def)
  qed
qed

lemma columns_or_keeps: "table_columns c t = Some old \<Longrightarrow> \<exists>added. columns_or c t new = old @ added"
  by (simp add: columns_or_def)

lemma create_keeps: "sets_table t (columns_or c t new) c c' \<Longrightarrow> keeps_columns c c'"
  using sets_keeps columns_or_keeps by blast

lemma migrate_keeps: "sets_table t (migrated mig have) c c' \<Longrightarrow> table_columns c t = Some have \<Longrightarrow> keeps_columns c c'"
  by (erule sets_keeps) (simp add: migrated_def)

lemma EnsureSchema_steps:
  assumes "ExecScript fts5 ok_stmt (fst (splitSchema schema_script)) c = (None, c1)"
    and "addMissingColumns fts5 ok_stmt (\<lambda>_. None) ''whatsapp_groups'' group_migrations c1 = (None, c2)"
    and "addMissingColumns fts5 ok_stmt (\<lambda>_. None) ''whatsapp_messages'' message_migrations c2 = (None, c3)"
    and "ExecScript fts5 ok_stmt (snd (splitSchema schema_script)) c3 = (None, c4)"
    and "addMissingColumns fts5 ok_stmt (\<lambda>_. None) ''whatsapp_ingest_runs'' run_migrations c4 = (None, c5)"
  shows "EnsureSchema fts5 ok_stmt (\<lambda>_. None) None c = (None, c5)"
  using assms by (simp add: EnsureSchema_def split_beta)

lemma EnsureSchema_complete:
  assumes "schema_complete c"
  shows "EnsureSchema fts5 ok_stmt (\<lambda>_. None) None c =
    (None, with_pragmas c)"
proof -
  let ?c = "with_pragmas c"
  obtain g m r where t: "table_columns c ''whatsapp_groups'' = Some g" "fst ` set groups_columns \<subseteq> fst ` set g"
    "table_columns c ''whatsapp_messages'' = Some m" "fst ` set messages_columns \<subseteq> fst ` set m"
    "table_columns c ''whatsapp_ingest_runs'' = Some r" "fst ` set runs_columns \<subseteq> fst ` set r"
    using assms by (auto simp: schema_complete_def table_complete_def)
  have idx: "ExecScript fts5 ok_stmt (map (\<lambda>(i, cols). CreateIndex i ''whatsapp_messages'' cols) is) ?c = (None, ?c)"
    if "\<forall>i\<in>set is. has_name (ca_indexes c) (fst i)" for "is"
    using that by (induction "is") (auto simp: exec_stmt_def)
  have create: "exec_stmt fts5 ok_stmt (CreateTable u cols) x = (None, x)" if "table_columns x u \<noteq> None" for u cols x
    using that by (simp add: exec_stmt_def)
  have fts: "exec_stmt fts5 ok_stmt (CreateFTS ''whatsapp_messages_fts'') ?c = (None, ?c)"
    using assms by (simp add: exec_stmt_def schema_complete_def)
  have add: "addMissingColumns fts5 ok_stmt (\<lambda>_. None) u mig ?c = (None, ?c)"
    if "table_columns c u = Some have" "fst ` set mig \<subseteq> fst ` set have" for u mig "have"
    using that by (simp add: addMissingColumns_def add_columns_none)
  have "ExecScript fts5 ok_stmt (fst (splitSchema schema_script)) c = (None, ?c)"
    using t by (simp only: split_schema fst_conv exec_pragmas) (simp add: create)
  moreover have "ExecScript fts5 ok_stmt (snd (splitSchema schema_script)) ?c = (None, ?c)"
  proof -
    have i: "ExecScript fts5 ok_stmt (map (\<lambda>(i, cols). CreateIndex i ''whatsapp_messages'' cols) schema_indexes) ?c = (None, ?c)"
      by (rule idx) (use assms in \<open>simp add: schema_complete_def\<close>)
    show ?thesis
      unfolding split_schema snd_conv ExecScript_append i by (simp add: fts create t(5))
  qed
  moreover have "addMissingColumns fts5 ok_stmt (\<lambda>_. None) ''whatsapp_groups'' group_migrations ?c = (None, ?c)"
    by (rule add [OF t(1) subset_trans [OF migrations_of_schema(1) t(2)]])
  moreover have "addMissingColumns fts5 ok_stmt (\<lambda>_. None) ''whatsapp_messages'' message_migrations ?c = (None, ?c)"
    by (rule add [OF t(3) subset_trans [OF migrations_of_schema(2) t(4)]])
  moreover have "addMissingColumns fts5 ok_stmt (\<lambda>_. None) ''whatsapp_ingest_runs'' run_migrations ?c = (None, ?c)"
    by (rule add [OF t(5) subset_trans [OF migrations_of_schema(3) t(6)]])
  ultimately show ?thesis by (intro EnsureSchema_steps)
qed

lemma EnsureSchema_migrates:
  assumes "legacy c" "fts5 \<or> has_name (ca_fts c) ''whatsapp_messages_fts''"
  shows "\<exists>c'. EnsureSchema fts5 ok_stmt (\<lambda>_. None) None c = (None, c') \<and> schema_complete c' \<and>
    (''foreign_keys'', ''on'') \<in> set (ca_pragmas c') \<and> keeps_columns c c'"
proof -
  let ?G = "''whatsapp_groups''" and ?M = "''whatsapp_messages''" and ?R = "''whatsapp_ingest_runs''"
  let ?c0 = "with_pragmas c"
  note diff = table_names_differ table_names_differ [symmetric]
  note mig = migrations_addable migrations_distinct migrations_of_schema
  obtain ca where ca: "exec_stmt fts5 ok_stmt (CreateTable ?G groups_columns) ?c0 = (None, ca)"
    "sets_table ?G (columns_or ?c0 ?G groups_columns) ?c0 ca" using create_table_sets by blast
  obtain cb where cb: "exec_stmt fts5 ok_stmt (CreateTable ?M messages_columns) ca = (None, cb)"
    "sets_table ?M (columns_or ca ?M messages_columns) ca cb" using create_table_sets by blast
  have base: "ExecScript fts5 ok_stmt (fst (splitSchema schema_script)) c = (None, cb)"
    by (simp only: split_schema fst_conv exec_pragmas) (simp add: ca(1) cb(1))
  have cbG: "table_columns cb ?G = Some (columns_or c ?G groups_columns)"
    using sets_same [OF ca(2)] sets_other [OF cb(2) diff(1)] by (simp add: columns_or_def)
  from cbG obtain cg where cg: "addMissingColumns fts5 ok_stmt (\<lambda>_. None) ?G group_migrations cb = (None, cg)"
    "sets_table ?G (migrated group_migrations (columns_or c ?G groups_columns)) cb cg"
    "fst ` set groups_columns \<subseteq> fst ` set (migrated group_migrations (columns_or c ?G groups_columns))"
    using migrate_table [of ?G groups_columns group_migrations c cb fts5] assms(1) mig by (auto simp: legacy_def)
  have "columns_or ca ?M messages_columns = columns_or c ?M messages_columns"
    using sets_other [OF ca(2) diff(4)] by (simp add: columns_or_def)
  then have cgM: "table_columns cg ?M = Some (columns_or c ?M messages_columns)"
    using sets_same [OF cb(2)] sets_other [OF cg(2) diff(4)] by simp
  from cgM obtain cm where cm: "addMissingColumns fts5 ok_stmt (\<lambda>_. None) ?M message_migrations cg = (None, cm)"
    "sets_table ?M (migrated message_migrations (columns_or c ?M messages_columns)) cg cm"
    "fst ` set messages_columns \<subseteq> fst ` set (migrated message_migrations (columns_or c ?M messages_columns))"
    using migrate_table [of ?M messages_columns message_migrations c cg fts5] assms(1) mig by (auto simp: legacy_def)
  obtain ns where ns: "ExecScript fts5 ok_stmt (map (\<lambda>(i, cols). CreateIndex i ?M cols) schema_indexes) cm =
      (None, cm\<lparr>ca_indexes := ca_indexes cm @ ns\<rparr>)"
    "\<forall>i\<in>set schema_indexes. has_name (ca_indexes cm @ ns) (fst i)"
    using create_indexes [OF sets_same [OF cm(2)], of schema_indexes fts5] indexed_columns cm(3) by blast
  let ?ci = "cm\<lparr>ca_indexes := ca_indexes cm @ ns\<rparr>"
  have "ca_fts ?ci = ca_fts c" using ca(2) cb(2) cg(2) cm(2) by (simp add: sets_table_def)
  then obtain fs where fs: "exec_stmt fts5 ok_stmt (CreateFTS ''whatsapp_messages_fts'') ?ci =
      (None, ?ci\<lparr>ca_fts := ca_fts ?ci @ fs\<rparr>)" "has_name (ca_fts ?ci @ fs) ''whatsapp_messages_fts''"
    using create_fts [of fts5 ?ci "''whatsapp_messages_fts''"] assms(2) by auto
  let ?cf = "?ci\<lparr>ca_fts := ca_fts ?ci @ fs\<rparr>"
  obtain cr where cr: "exec_stmt fts5 ok_stmt (CreateTable ?R runs_columns) ?cf = (None, cr)"
    "sets_table ?R (columns_or ?cf ?R runs_columns) ?cf cr" using create_table_sets by blast
  have post: "ExecScript fts5 ok_stmt (snd (splitSchema schema_script)) cm = (None, cr)"
    using ns(1) fs(1) cr(1) by (simp add: split_schema ExecScript_append)
  have "table_columns ?cf ?R = table_columns c ?R"
    using sets_other [OF ca(2) diff(5)] sets_other [OF cb(2) diff(6)] sets_other [OF cg(2) diff(5)]
      sets_other [OF cm(2) diff(6)] by simp
  then have crR: "table_columns cr ?R = Some (columns_or c ?R runs_columns)"
    using sets_same [OF cr(2)] by (simp add: columns_or_def)
  from crR obtain c' where c': "addMissingColumns fts5 ok_stmt (\<lambda>_. None) ?R run_migrations cr = (None, c')"
    "sets_table ?R (migrated run_migrations (columns_or c ?R runs_columns)) cr c'"
    "fst ` set runs_columns \<subseteq> fst ` set (migrated run_migrations (columns_or c ?R runs_columns))"
    using migrate_table [of ?R runs_columns run_migrations c cr fts5] assms(1) mig by (auto simp: legacy_def)
  have "EnsureSchema fts5 ok_stmt (\<lambda>_. None) None c = (None, c')"
    by (rule EnsureSchema_steps [OF base cg(1) cm(1) post c'(1)])
  moreover have "schema_complete c'"
  proof -
    have "table_columns c' ?G = table_columns cg ?G"
      using sets_other [OF c'(2) diff(2)] sets_other [OF cr(2) diff(2)] sets_other [OF cm(2) diff(1)] by simp
    moreover have "table_columns c' ?M = table_columns cm ?M"
      using sets_other [OF c'(2) diff(3)] sets_other [OF cr(2) diff(3)] by simp
    moreover have "ca_indexes c' = ca_indexes cm @ ns" "ca_fts c' = ca_fts ?ci @ fs"
      using c'(2) cr(2) by (simp_all add: sets_table_def)
    ultimately show ?thesis
      using sets_same [OF cg(2)] cg(3) sets_same [OF cm(2)] cm(3) sets_same [OF c'(2)] c'(3) ns(2) fs(2)
      by (simp add: schema_complete_def table_complete_def)
  qed
  moreover have "(''foreign_keys'', ''on'') \<in> set (ca_pragmas c')"
    using ca(2) cb(2) cg(2) cm(2) cr(2) c'(2) by (simp add: sets_table_def with_pragmas_def)
  moreover have "keeps_columns c c'"
  proof -
    have "keeps_columns c ca" using create_keeps [OF ca(2)] by (simp add: keeps_columns_def)
    also have "keeps_columns ca cb" by (rule create_keeps [OF cb(2)])
    also have "keeps_columns cb cg" by (rule migrate_keeps [OF cg(2) cbG])
    also have "keeps_columns cg cm" by (rule migrate_keeps [OF cm(2) cgM])
    also have "keeps_columns cm cr" using create_keeps [OF cr(2)] by (simp add: keeps_columns_def)
    also have "keeps_columns cr c'" by (rule migrate_keeps [OF c'(2) crR])
    finally show ?thesis .
  qed
  ultimately show ?thesis by blast
qed

section \<open>Property\<close>

text \<open>
  C17. The schema is brought up to date. From an empty database, or one whose tables an earlier
  version made, and without faults, \<open>EnsureSchema\<close> succeeds, leaves every column, index and table
  of the schema with foreign keys enforced, keeps the columns each table had, in their order,
  and has nothing left to do when it is run again. It needs the fts5 module unless the search
  table is already there.
\<close>

theorem schema_migrated:
  assumes "legacy c" "fts5 \<or> has_name (ca_fts c) ''whatsapp_messages_fts''"
  shows "\<exists>c'. EnsureSchema fts5 (\<lambda>_. None) (\<lambda>_. None) None c = (None, c') \<and> schema_complete c' \<and>
    (''foreign_keys'', ''on'') \<in> set (ca_pragmas c') \<and>
    (\<forall>t old. table_columns c t = Some old \<longrightarrow> (\<exists>added. table_columns c' t = Some (old @ added))) \<and>
    (\<exists>c2. EnsureSchema fts5 (\<lambda>_. None) (\<lambda>_. None) None c' = (None, c2) \<and>
       ca_tables c2 = ca_tables c' \<and> ca_indexes c2 = ca_indexes c' \<and> ca_fts c2 = ca_fts c')"
  using EnsureSchema_migrates [OF assms] EnsureSchema_complete by (fastforce simp: keeps_columns_def)

text \<open>A database of a version without media, descriptions of the chats or records of its runs.\<close>

definition sample_catalogue :: catalogue where
  "sample_catalogue = \<lparr>ca_tables = [(''whatsapp_groups'', take 2 groups_columns),
     (''whatsapp_messages'', filter (\<lambda>d. fst d \<notin> fst ` set message_migrations) messages_columns)],
     ca_indexes = [], ca_fts = [], ca_pragmas = []\<rparr>"

theorem schema_migrated_witness:
  "\<exists>c'. EnsureSchema True (\<lambda>_. None) (\<lambda>_. None) None sample_catalogue = (None, c') \<and> schema_complete c'"
proof -
  have "legacy sample_catalogue" by code_simp
  from schema_migrated [OF this, of True] show ?thesis by auto
qed

text \<open>
  Without the fts5 module a new database cannot be opened at all, although the writer's
  statements on the search table tolerate that it is missing.
\<close>

lemma no_fts5_no_store:
  "fst (EnsureSchema False (\<lambda>_. None) (\<lambda>_. None) None empty_catalogue) = Some (ErrMsg ''no such module: fts5'')"
  by code_simp

end
