(* ===== verification/Timestamps.thy ===== *)
theory Timestamps
  imports Backfill
begin

text \<open>
  The timestamps that the backfill command takes (\<open>ParseTimestamp\<close> in
  \<open>internal/backfill/backfill.go\<close>) against those the program prints.
\<close>

lemma TrimSpace_printable:
  assumes "\<forall>c\<in>set s. 32 < byte c \<and> byte c < 128"
  shows "strings_TrimSpace s = s"
proof -
  have *: "space_size t = 0 \<and> space_size_rev t = 0" if "\<forall>c\<in>set t. 32 < byte c \<and> byte c < 128" for t
    using that by (cases t rule: space_size.cases) (auto simp: space1_def space2_def space3_def)
  show ?thesis using * [OF assms] * [of "rev s"] assms by (simp add: TrimSpace_id)
qed

lemma digits_value_None: "c \<in> set s \<Longrightarrow> \<not> is_digit c \<Longrightarrow> digits_value acc s = None"
  by (induction s arbitrary: acc) auto

lemma ParseInt_None:
  assumes "c \<in> set (tl s)" "\<not> is_digit c"
  shows "strconv_ParseInt s = None"
proof (cases s)
  case (Cons a r)
  then have "digits_value 0 r = None" "digits_value 0 s = None" "r \<noteq> []"
    using digits_value_None assms by (auto split: if_splits)
  then show ?thesis using Cons by (auto simp: strconv_ParseInt_def parse_digits_def Let_def)
qed (use assms in simp)

lemma pad_int_plain:
  assumes "0 \<le> x"
  shows "set (pad_int w x) \<subseteq> Collect is_digit"
proof -
  have "is_digit CHR ''0''" by code_simp
  then show ?thesis
    using assms show_nat_digits [of "nat x"] by (auto simp: pad_int_def Let_def list_all_iff)
qed

lemma plain_timestamp:
  assumes "utc_Date t = (y, m, d)" "0 \<le> y" "s \<in> {format_rfc3339 t, date_ymd t}"
  shows "strings_TrimSpace s = s" "strconv_ParseInt s = None" "s \<noteq> []"
proof -
  have date: "1 \<le> d" using civil_date_number(3) [of "unix_day t + 719162" y m d] assms(1) by (simp add: utc_Date_def)
  have pos: "0 \<le> (t mod 86400) div 3600" "0 \<le> (t mod 3600) div 60" "0 \<le> t mod 60"
    by (simp_all add: pos_imp_zdiv_nonneg_iff)
  define h mi sec where "h = (t mod 86400) div 3600" and "mi = (t mod 3600) div 60" and "sec = t mod 60"
  have digits: "set (pad_int 4 y) \<subseteq> Collect is_digit" "set (pad_int 2 (int m)) \<subseteq> Collect is_digit"
    "set (pad_int 2 d) \<subseteq> Collect is_digit" "set (pad_int 2 h) \<subseteq> Collect is_digit"
    "set (pad_int 2 mi) \<subseteq> Collect is_digit" "set (pad_int 2 sec) \<subseteq> Collect is_digit"
    using assms(2) date pos by (auto intro!: pad_int_plain simp: h_def mi_def sec_def simp del: Collect_mem_eq)
  have s: "s = pad_int 4 y @ ''-'' @ pad_int 2 (int m) @ ''-'' @ pad_int 2 d @ ''T'' @ pad_int 2 h @ '':'' @
      pad_int 2 mi @ '':'' @ pad_int 2 sec @ ''Z'' \<or> s = pad_int 4 y @ ''-'' @ pad_int 2 (int m) @ ''-'' @ pad_int 2 d"
    using assms(1,3) by (auto simp: format_rfc3339_def date_ymd_def clock_hm_def h_def mi_def sec_def)
  then have "set s \<subseteq> Collect is_digit \<union> set ''-T:Z''"
    using digits by (elim disjE) (simp_all add: subset_insertI2)
  then have chars: "is_digit c \<or> c \<in> set ''-T:Z''" if "c \<in> set s" for c using that by blast
  have "is_digit c \<Longrightarrow> 32 < byte c \<and> byte c < 128" for c by (auto simp: is_digit_def)
  moreover have "\<forall>c\<in>set ''-T:Z''. 32 < byte c \<and> byte c < 128" by code_simp
  ultimately show "strings_TrimSpace s = s" using chars by (intro TrimSpace_printable) blast
  have "pad_int 4 y \<noteq> []" by (simp add: pad_int_def Let_def)
  then have "CHR ''-'' \<in> set (tl s)"
    using s by (cases "pad_int 4 y") auto
  moreover have "\<not> is_digit CHR ''-''" by code_simp
  ultimately show "strconv_ParseInt s = None" "s \<noteq> []" using ParseInt_None by auto
qed

lemma time_Parse_date:
  assumes "utc_Date t = (y, m, d)" "0 \<le> y" "y < 10000"
  shows "time_Parse RFC3339 (date_ymd t) = None" "time_Parse DateTime (date_ymd t) = None"
    "time_Parse DateOnly (date_ymd t) = Some (86400 * unix_day t, 0)"
proof -
  have c: "civil_date (unix_day t + 719162) = (y, m, d)" using assms(1) by (simp add: utc_Date_def)
  note date = civil_date_number [OF c] and small = day_month_bounds [OF c]
  have out: "date_ymd t = pad_int 4 y @ ''-'' @ pad_int 2 (int m) @ ''-'' @ pad_int 2 d @ []"
    using assms(1) by (simp add: date_ymd_def)
  have part: "parse_chunks (LongYear # Literal ''-'' # ZeroMonth # Literal ''-'' # ZeroDay # cs) (date_ymd t) no_fields =
      parse_chunks cs [] (no_fields\<lparr>tf_year := y, tf_month := m, tf_day := d\<rparr>)" for cs
    unfolding out using parse_year_pad [OF assms(2,3)] date(1-4) small getnum_pad [of d "[]"]
    by (simp add: getnum_pad no_fields_def del: parse_chunk.simps(2) parse_chunks.simps(1) append_Nil2)
  show "time_Parse RFC3339 (date_ymd t) = None"
    unfolding time_Parse_def RFC3339_def part by simp
  show "time_Parse DateTime (date_ymd t) = None"
    unfolding time_Parse_def DateTime_def part by (simp add: getnum_def digit_at_def)
  show "time_Parse DateOnly (date_ymd t) = Some (86400 * unix_day t, 0)"
    unfolding time_Parse_def DateOnly_def part
    using date(3,4,5) by (simp add: no_fields_def unix_of_fields_def)
qed

text \<open>
  C38. The times that \<open>--before\<close> takes mean what the program prints. Unix seconds are taken as
  they are; the time an anchor is printed with, and the date of a day, in the years 0 to
  9999, are read as the second that was printed and as the start of that day.
\<close>

theorem timestamp_roundtrip:
  "(is_int64 t \<longrightarrow> ParseTimestamp (strconv_FormatInt t) = Inr (t, 0)) \<and>
   (case utc_Date t of (y, m, d) \<Rightarrow> 0 \<le> y \<and> y < 10000 \<longrightarrow>
      ParseTimestamp (format_rfc3339 t) = Inr (t, 0) \<and>
      ParseTimestamp (date_ymd t) = Inr (t - t mod 86400, 0))"
proof -
  have "strconv_FormatInt t \<noteq> []" by (simp add: strconv_FormatInt_def)
  then have "ParseTimestamp (strconv_FormatInt t) = Inr (t, 0)" if "is_int64 t"
    using ParseInt_FormatInt [OF that] by (simp add: ParseTimestamp_def)
  moreover have "ParseTimestamp (format_rfc3339 t) = Inr (t, 0) \<and>
      ParseTimestamp (date_ymd t) = Inr (t - t mod 86400, 0)"
    if "utc_Date t = (y, m, d)" "0 \<le> y" "y < 10000" for y m d
  proof -
    have "86400 * unix_day t = t - t mod 86400" by (simp add: unix_day_def minus_mod_eq_mult_div)
    then show ?thesis
      using plain_timestamp [OF that(1,2)] time_Parse_format_rfc3339 [OF that] time_Parse_date [OF that]
      by (simp add: ParseTimestamp_def)
  qed
  ultimately show ?thesis by (auto split: prod.split)
qed

theorem timestamp_roundtrip_witness:
  "ParseTimestamp (format_rfc3339 1777626123) = Inr (1777626123, 0) \<and>
   ParseTimestamp (date_ymd 1777626123) = Inr (1777593600, 0) \<and> ParseTimestamp ''1777626123'' = Inr (1777626123, 0)"
proof -
  have "utc_Date 1777626123 = (2026, 5, 1) \<and> is_int64 1777626123 \<and> strconv_FormatInt 1777626123 = ''1777626123''"
    by code_simp
  then show ?thesis using timestamp_roundtrip [of 1777626123] by simp
qed

end
