(* ===== verification/Divergences.thy ===== *)
theory Divergences
  imports Listener Unseen_Properties Control_Properties Auth_Properties
begin

text \<open>
  Concrete runs on which the code does something other than its surroundings suggest.
  Each is a closed fact about the definitions that model the code.
\<close>

text \<open>
  A message whose row is committed but whose media cannot be written is reported as an error:
  its change is not announced and the time of the last message does not move.
\<close>

definition sample_sender :: handler where
  "sample_sender = \<lparr>h_Config = empty_manager\<lparr>m_groups := [sample_group]\<rparr>,
     h_Log = None, h_Status = Some NewStatus, h_OnCommitted = Some []\<rparr>"

definition full_disk_env :: write_env where
  "full_disk_env = sample_env\<lparr>we_media := \<lparr>mio_mkdir = None, mio_open = None,
     mio_write = Some (ErrMsg ''no space left on device'', 1), mio_sync = None, mio_close = None,
     mio_rename = None\<rparr>\<rparr>"

lemma media_error_hides_commit:
  "case HandleResult (Write (\<lambda>s. s) (\<lambda>s. s) full_disk_env) 7 sample_media sample_sender sample_writer of
     ((accepted, res, r), h, w) \<Rightarrow> accepted \<and> r \<noteq> None \<and>
       map mr_text (t_messages (durable (w_db w))) = [Some ''hi''] \<and>
       h_OnCommitted h = Some [] \<and> map_option st_LastMessageAt (h_Status h) = Some 0"
  by code_simp

text \<open>
  The depth of the queue in the health status can stay wrong: the handler reads the length, the
  worker takes the message and handles it, and then the handler stores what it has read. Nothing
  waits, nobody owes an update, and the status says one.
\<close>

lemma stale_queue_depth:
  "let q = queue_run True ([Deliver m, CallStep 0] @ replicate 6 WorkerStep @ [CallStep 0])
   in qs_queue q = [] \<and> qs_calls q = [] \<and> qs_worker q = Receiving \<and> qs_handled q = [m] \<and> qs_depth q = Some 1"
  by (simp add: queue_run_def new_queue_def deliver_def handler_step_def worker_step_def set_depth_def
      messageQueueSize_def eval_nat_numeral Let_def)

text \<open>Two message ids share a media file: the later message replaces the earlier one's bytes.\<close>

lemma media_paths_collide:
  "media_final (\<lambda>s. s) ''m'' (sample_media\<lparr>ev_MsgID := ''A/1''\<rparr>) =
   media_final (\<lambda>s. s) ''m'' (sample_media\<lparr>ev_MsgID := ''A+1''\<rparr>)"
  by code_simp

text \<open>
  The daemon reads the keys of a chat's entry without regard to case, the reader as they are
  written: an entry with the key \<open>JID\<close> is ingested and never shown.
\<close>

definition upper_json :: json where
  "upper_json = JObj [(''enabled'', JBool True), (''groups'', JArr [JObj [(''JID'', JStr ''1@lid''),
     (''label'', JStr ''L''), (''tenants'', JArr [JStr ''t''])]])]"

definition upper_file :: config_file where
  "upper_file = \<lparr>cf_read = Inr (json_Marshal upper_json), cf_stat = Inr 5\<rparr>"

lemma upper_case_key_unseen:
  "(case New upper_file of Inl _ \<Rightarrow> False | Inr m \<Rightarrow> IsAllowed m ''1@lid'') \<and>
   TenantGroupJIDs (cf_read upper_file) ''t'' = Inr []"
  by code_simp

text \<open>A ceiling at or before the epoch is the same as none.\<close>

lemma before_epoch_ignored:
  "cr_BeforeUnix req \<le> 0 \<Longrightarrow>
    resolveAnchor parse_jid ex env t req = resolveAnchor parse_jid ex env t (req\<lparr>cr_BeforeUnix := 0\<rparr>)"
  by (simp add: resolveAnchor_def)

text \<open>
  An answer that a backfill did not ask for, an earlier one's that came late, is taken for the
  answer: nothing but the chat is compared.
\<close>

lemma stale_answer_taken:
  assumes "IsOnDemand (hr_Event late)" "historySyncHasConversation (hr_Event late) chat"
  shows "WaitForProcessedOnDemand chat (WaitValue late # answers) = Some (Inr late)"
  using assms by (simp add: WaitForProcessedOnDemand_def)

end
