(* ===== verification/Spec2Isabelle.thy ===== *)
theory Spec2Isabelle
  imports No_Loss Daemon_Properties Schema_Properties Timestamps Divergences
begin

text \<open>
  wa-agent-pipeline: a WhatsApp daemon in Go that stores the messages of allowlisted chats
  in SQLite, and the reader that shows each tenant what it has not seen. This development
  models the Go program under \<open>src/whatsapp-daemon\<close> and proves what it promises. Paths below
  are relative to that directory.

  \<^bold>\<open>The program.\<close> \<open>serve\<close> opens a session with WhatsApp (\<open>internal/auth\<close>). Every message it is given,
  live or in a history sync, is normalised into an event, checked against the allowlist
  (\<open>internal/config\<close>, reloaded while the daemon runs), redacted by the chat's policy
  (\<open>internal/listener\<close>) and written to the store with its media (\<open>internal/writer\<close> over
  \<open>internal/sqlite\<close>). Commits wake the subscribers of the control socket (\<open>internal/control\<close>),
  which also serves requests for older messages (\<open>internal/backfill\<close>). \<open>unseen\<close> and \<open>cron-check\<close>
  are separate processes that read the store and move a tenant's cursor (\<open>internal/unseen\<close>).
  \<open>cmd/whatsapp-daemon/main.go\<close> wires the parts into five commands.

  \<^bold>\<open>Theories, in the order of the code.\<close>

  \<^item> \<open>Prelude\<close>: 64-bit integers with the wrap-around written out, Go errors as values with
    \<open>errors.Is\<close>, keyed tables with \<open>upsert\<close> and the contract of an upsert (\<open>keyed_upsert\<close>).
  \<^item> \<open>Go_Strings\<close>, \<open>Go_Bufio\<close>, \<open>Go_Time\<close>, \<open>Go_Time_Parse\<close>, \<open>Go_Float\<close>, \<open>Go_Flags\<close>, \<open>Go_ParseFloat\<close>: what
    the program uses of Go's standard library: UTF-8 strings byte by byte, the line scanner,
    dates and durations with their printing and parsing, rounded \<open>float64\<close> arithmetic, flag sets.
  \<^item> \<open>Go_Json\<close>, \<open>Go_Json_Text\<close>, \<open>Go_Json_Laws\<close>: \<open>encoding/json\<close>: decoding values into structs, the
    text it writes, the lexer and state machine that read it, and that the one undoes the other.
  \<^item> \<open>Paths\<close>: \<open>path/filepath\<close> on Unix and the default paths of \<open>internal/paths/paths.go\<close>.
  \<^item> \<open>Config\<close>: \<open>Load\<close>, the manager with \<open>Reload\<close>, \<open>Watch\<close> and its subscribers; the interface
    \<open>allowlist\<close> that its clients rely on.
  \<^item> \<open>Health\<close>, \<open>Logging\<close>: \<open>health.json\<close> and the log.
  \<^item> \<open>Sqlite\<close>, \<open>Sqlite_Binding\<close>: a connection with its transactions (interface \<open>transactional\<close>),
    queries and the values that cross the binding.
  \<^item> \<open>Schema\<close>, \<open>Schema_Properties\<close>: \<open>schema.sql\<close>, \<open>EnsureSchema\<close> and \<open>writer.New\<close> over the catalogue
    of a database.
  \<^item> \<open>Writer\<close>, \<open>Store_Laws\<close>, \<open>Store_Properties\<close>: the tables as records, \<open>Write\<close> and \<open>EnsureGroups\<close>
    statement by statement, media files; the case analysis of \<open>Write\<close> and the store's properties.
  \<^item> \<open>Listener\<close>: \<open>ApplyPolicy\<close> and \<open>HandleResult\<close> over any store of the interface \<open>event_store\<close>,
    interpreted on \<open>Write\<close>.
  \<^item> \<open>Auth\<close>, \<open>Auth_Properties\<close>: normalisation, downloads, history syncs, the message queue, the
    connection's state, \<open>openClient\<close>, \<open>Serve\<close> and \<open>Pair\<close>.
  \<^item> \<open>Backfill\<close>, \<open>Backfill_Properties\<close>: anchors, summaries, the loop that sends requests in
    chunks with retries, and the wait for answers. \<open>Timestamps\<close>: the argument of \<open>--before\<close>.
  \<^item> \<open>Wire\<close>, \<open>Changes\<close>, \<open>Control\<close>, \<open>Control_Properties\<close>: the messages of the socket and their bytes, the
    watching connection as a step function, the server, its executor (interface
    \<open>backfill_executor\<close>) and the client.
  \<^item> \<open>Unseen\<close>, \<open>Unseen_Laws\<close>, \<open>Unseen_Properties\<close>: the reader from its configuration to the
    atomically replaced cursor file.
  \<^item> \<open>No_Loss\<close>: daemon and reader together over one store.
  \<^item> \<open>Daemon\<close>, \<open>Daemon_Properties\<close>: the commands with flags and exit codes, and the goroutines
    that follow the configuration.
  \<^item> \<open>Divergences\<close>: closed runs on which the code does something other than its surroundings
    suggest.

  \<^bold>\<open>Correspondence.\<close> A definition has the name of the Go function it translates, with a prefix or
  suffix where the name is taken (\<open>Status_Write\<close>, \<open>New_writer\<close>, \<open>Close_db\<close>). Structs are records, a
  nil pointer is \<open>None\<close>, errors are values of \<open>go_error\<close> in an option or on the left of a sum. What
  a function learns from outside it (the clock, the result of a system call, the faults of
  SQLite statement by statement, what WhatsApp sends) is an argument, usually a record
  whose name ends in \<open>env\<close> or \<open>io\<close>; properties quantify over all of them. A table is the list of
  its rows, a transaction is \<open>WithTx\<close> over a connection that knows its durable and its visible
  state. Channels are lists with their capacity; goroutines are the steps of a relation or
  function that interleave freely: \<open>watch_step\<close>, \<open>reload_step\<close>, \<open>env_steps\<close>, \<open>queue_step\<close>, \<open>listener_run\<close>.

  \<^bold>\<open>What the lemmas show.\<close>

  \<^item> The store: an invariant over every run with any faults (keys, the foreign key, the hash
    that is the id, exact run counts); a failed write without media changes nothing, a successful
    one stores the event column by column; one row per message;
    redelivery changes the time of ingestion only; media stay in their directory; a run row is
    \<open>ok\<close> only when the outcome of its media is recorded; older databases are migrated.
  \<^item> Policy: the allowlist is default-deny and well formed at every moment, what is stored was
    allowed and redacted by the configuration in force, live and in history syncs with
    concurrent reloads, and media are downloaded only where the policy copies them.
  \<^item> The reader: a report is exactly the selected messages in order; the cursor stays behind
    the last successful ingest and the clock; and, with the daemon, a message stored within 31
    minutes of its time stamp between two runs of a reader of its chat, or within 30 minutes
    during such a run, is shown by the next run that queries the rows (with its default cutoff
    and if it can report). A message that arrives later than that can be passed by.
  \<^item> The session and the backfill: health follows the connection, the message queue is in order
    and drops exactly what arrives when it is full, \<open>Serve\<close> always closes its
    container, retries are bounded, requests are sent on a settled connection only and never
    for more than their limit.
  \<^item> The control socket: messages survive its bytes, it is default-deny (a backfill that names no
    tenant is served for any allowed chat), and the exit code of \<open>backfill\<close> is the verdict of the
    run the daemon made. What the listener announces for a watched chat is not missed; it does not
    announce a message whose media could not be written, nor a write that leaves the text hash
    as it was without a hydration status or media.
  \<^item> The composition: the store follows the allowlist, and the exit codes of the commands.

  \<^bold>\<open>Termination and fuel.\<close> Every loop of the code is a total function. Loops over input (queues, rows, lines
  of the socket, polls of a connection, attempts of a send) recurse on the list of what they
  receive, and a loop that is still waiting when the list ends says so (\<open>None\<close>, \<open>ServeWaiting\<close>,
  \<open>ConnRunning\<close>), so a statement about a result is never true because there is none. The chunk loop
  recurses on what remains of its limit; \<open>send_terminates\<close> bounds the retry loop by its
  backoff. No fuel is used.

  \<^bold>\<open>Parameters.\<close> SHA-256 (\<open>H\<close>), Unicode lower-casing beyond ASCII (\<open>ulower\<close>), \<open>mime.ExtensionsByType\<close>,
  \<open>types.ParseJID\<close>, the verb \<open>%q\<close> (\<open>quote\<close>) and the text of a JSON error (\<open>json_err\<close>), both only part of
  messages, whether the compiler fuses multiplication and subtraction (\<open>fused\<close>) and what a conversion
  from a \<open>float64\<close> out of range gives (\<open>oob\<close>).

  \<^bold>\<open>Not modelled.\<close> whatsmeow, SQLite's own evaluation of SQL (the statements are translated into
  functions on tables), the format of log lines' dates, file modes, the terminal QR code,
  printed usage texts of flag errors, and memory: data races are outside, since every shared
  structure of the code is behind a mutex or a channel. Deadlines of writes to the control
  socket and the mutex that runs one backfill at a time are left out; so is the context of
  a call where the code only passes it on to SQLite.
\<close>

end
